(* ===== verification/Prelude.thy ===== *)
theory Prelude
  imports Main "HOL-Library.Word" "HOL-Library.AList"
begin

text \<open>
  Shared vocabulary of the development: the machine integers and byte strings of the Rust
  sources, the error type of \<^verbatim>\<open>src/error.rs\<close>, the pieces of the Rust standard library that
  several components call (\<open>str::split\<close>, \<open>trim\<close>, number formatting and parsing) and the
  generic list lemmas the component proofs rest on.

  A Rust \<open>String\<close> is a \<^typ>\<open>string\<close> holding its UTF-8 bytes, so that \<open>len()\<close> is the list
  length; a \<open>Vec<u8>\<close> is a list of 8-bit words; a \<open>Duration\<close> is a number of milliseconds (the
  finest unit the sources use); \<open>Result<T, E>\<close> is the sum type \<open>E + T\<close> with \<open>Inl\<close> for the
  error.
\<close>

type_synonym u8 = "8 word"
type_synonym u16 = "16 word"
type_synonym u32 = "32 word"
type_synonym u64 = "64 word"
type_synonym bytes = "u8 list"
type_synonym frame = bytes
type_synonym millis = nat

named_theorems frame_simps \<open>facts about splitting byte streams at a delimiter\<close>
named_theorems run_defs \<open>definitions unfolded in the bridge state-machine proofs\<close>

section \<open>Errors (src/error.rs)\<close>

datatype error =
    Config string
  | Ble string
  | Io string
  | TcpConnect string
  | Connect string
  | Unpaired string
  | DeviceAbsent string
  | KissFrame string
  | LinkClosed

section \<open>Splitting lists at a delimiter (str::split)\<close>

fun split_on :: "'a \<Rightarrow> 'a list \<Rightarrow> 'a list list" where
  "split_on d [] = [[]]"
| "split_on d (x # xs) =
     (if x = d then [] # split_on d xs
      else case split_on d xs of [] \<Rightarrow> [[x]] | y # ys \<Rightarrow> (x # y) # ys)"

text \<open>\<open>str::join\<close> with a one-element separator.\<close>

fun join_on :: "'a \<Rightarrow> 'a list list \<Rightarrow> 'a list" where
  "join_on d [] = []"
| "join_on d [x] = x"
| "join_on d (x # y # zs) = x @ d # join_on d (y # zs)"

lemma split_on_not_Nil [simp]: "split_on d xs \<noteq> []"
  by (cases xs) (auto split: list.splits)

lemma split_on_append_delim [frame_simps]:
  "split_on d (xs @ d # ys) = split_on d xs @ split_on d ys"
  by (induction xs) (auto split: list.splits)

lemma split_on_free [frame_simps]: "d \<notin> set xs \<Longrightarrow> split_on d xs = [xs]"
  by (induction xs) auto

lemma split_on_snoc:
  "split_on d (xs @ [x]) =
     (if x = d then split_on d xs @ [[]]
      else butlast (split_on d xs) @ [last (split_on d xs) @ [x]])"
proof (induction xs)
  case Nil
  then show ?case by simp
next
  case (Cons y ys)
  show ?case
  proof (cases "split_on d ys")
    case Nil
    then show ?thesis by simp
  next
    case (Cons z zs)
    with Cons.IH show ?thesis by (cases zs) auto
  qed
qed

lemma split_on_single_iff [simp]: "length (split_on d xs) = Suc 0 \<longleftrightarrow> d \<notin> set xs"
proof (induction xs)
  case Nil
  then show ?case by simp
next
  case (Cons y ys)
  then show ?case by (cases "split_on d ys") auto
qed

lemma split_on_pieces_free: "p \<in> set (split_on d xs) \<Longrightarrow> d \<notin> set p"
proof (induction xs arbitrary: p)
  case Nil
  then show ?case by simp
next
  case (Cons y ys)
  show ?case
  proof (cases "split_on d ys")
    case Nil
    then show ?thesis by simp
  next
    case (Cons z zs)
    with Cons.IH Cons.prems show ?thesis by (auto split: if_splits)
  qed
qed

lemma last_split_on_free [simp]: "d \<notin> set (last (split_on d xs))"
  by (rule split_on_pieces_free [of _ d xs]) simp

lemma join_split_on [simp]: "join_on d (split_on d xs) = xs"
proof (induction xs)
  case Nil
  then show ?case by simp
next
  case (Cons y ys)
  then show ?case by (cases "split_on d ys"; cases "tl (split_on d ys)") auto
qed

lemma split_join_on:
  "ps \<noteq> [] \<Longrightarrow> (\<And>p. p \<in> set ps \<Longrightarrow> d \<notin> set p) \<Longrightarrow> split_on d (join_on d ps) = ps"
  by (induction d ps rule: join_on.induct) (auto simp: split_on_append_delim split_on_free)

lemma sum_length_split_on:
  "length xs = sum_list (map length (split_on d xs)) + (length (split_on d xs) - 1)"
proof (induction xs)
  case Nil
  then show ?case by simp
next
  case (Cons y ys)
  then show ?case by (cases "split_on d ys") auto
qed

lemma length_last_split_on: "length (last (split_on d xs)) \<le> length xs"
proof -
  have "length (last (split_on d xs)) \<le> sum_list (map length (split_on d xs))"
    by (rule member_le_sum_list) simp_all
  also have "\<dots> \<le> length xs" using sum_length_split_on [of xs d] by simp
  finally show ?thesis .
qed

lemma drop_last_split_on:
  "drop (length xs - length (last (split_on d xs))) xs = last (split_on d xs)"
proof (induction xs)
  case Nil
  then show ?case by simp
next
  case (Cons y ys)
  have *: "length (last (split_on d ys)) \<le> length ys" by (rule length_last_split_on)
  show ?case
  proof (cases "split_on d ys")
    case Nil
    then show ?thesis by simp
  next
    case sp: (Cons z zs)
    show ?thesis
    proof (cases "zs = []")
      case True
      then have "d \<notin> set ys" using sp split_on_single_iff [of d ys] by simp
      then have "split_on d ys = [ys]" by (rule split_on_free)
      then show ?thesis by auto
    next
      case False
      then have "split_on d (y # ys) \<noteq> [] \<and> last (split_on d (y # ys)) = last (split_on d ys)"
        using sp by auto
      with * Cons.IH show ?thesis by (simp add: Suc_diff_le)
    qed
  qed
qed

lemma split_on_append:
  "split_on d (xs @ ys) =
     butlast (split_on d xs) @ (last (split_on d xs) @ hd (split_on d ys)) # tl (split_on d ys)"
proof (induction xs)
  case Nil
  then show ?case by simp
next
  case (Cons z zs)
  then show ?case
    by (cases "split_on d zs"; cases "tl (split_on d zs)") auto
qed

lemma last_split_on_append:
  "last (split_on d (last (split_on d xs) @ ys)) = last (split_on d (xs @ ys))"
  by (simp add: split_on_append split_on_free)

section \<open>Association lists\<close>

lemma map_update_same:
  "map_of al k = Some v \<Longrightarrow> g (k, v') = g (k, v) \<Longrightarrow> map g (AList.update k v' al) = map g al"
  by (induction al) auto

lemma set_update_subset: "set (AList.update k v al) \<subseteq> insert (k, v) (set al)"
  by (induction al) auto

lemma distinct_snd_update:
  "distinct (map snd al) \<Longrightarrow> v \<notin> snd ` set al \<Longrightarrow> distinct (map snd (AList.update k v al))"
proof (induction al)
  case Nil
  then show ?case by simp
next
  case (Cons p al)
  moreover have "snd ` set (AList.update k v al) \<subseteq> insert v (snd ` set al)"
    using set_update_subset [of k v al] by force
  ultimately show ?case by (cases p) auto
qed

lemma map_value_update:
  "map (\<lambda>p. (fst p, g (snd p))) (AList.update k v al) = AList.update k (g v) (map (\<lambda>p. (fst p, g (snd p))) al)"
  by (induction al) auto

lemma map_value_delete:
  "map (\<lambda>p. (fst p, g (snd p))) (AList.delete k al) = AList.delete k (map (\<lambda>p. (fst p, g (snd p))) al)"
  by (induction al) auto

lemma distinct_map_delete [simp]:
  "distinct (map g al) \<Longrightarrow> distinct (map g (AList.delete k al))"
  by (simp add: AList.delete_eq distinct_map_filter)

lemma update_not_Nil [simp]: "AList.update k v al \<noteq> []"
  by (cases al) auto

lemma find_append: "find P (xs @ ys) = (case find P xs of Some x \<Rightarrow> Some x | None \<Rightarrow> find P ys)"
  by (induction xs) auto

section \<open>Numbers as text\<close>

definition hex_digits_upper :: string where
  "hex_digits_upper = ''0123456789ABCDEF''"

text \<open>\<open>format!("{:02X}", b)\<close>.\<close>

definition hex2_upper :: "u8 \<Rightarrow> string" where
  "hex2_upper b = [hex_digits_upper ! (unat b div 16), hex_digits_upper ! (unat b mod 16)]"

fun decimal_digits :: "nat \<Rightarrow> string" where
  "decimal_digits n =
     (if n < 10 then [char_of (48 + n)] else decimal_digits (n div 10) @ [char_of (48 + n mod 10)])"

declare decimal_digits.simps [simp del]

definition show_nat :: "nat \<Rightarrow> string" where
  "show_nat n = decimal_digits n"

end
