(* ===== verification/Kiss.thy ===== *)
theory Kiss
  imports Prelude
begin

text \<open>
  KISS framing: \<^verbatim>\<open>src/kiss/frame.rs\<close> (\<open>KissFrame\<close>: byte stuffing) and
  \<^verbatim>\<open>src/kiss/buffer.rs\<close> (\<open>KissReassemblyBuffer\<close>: cutting a byte stream into frames).
\<close>

section \<open>Frames: src/kiss/frame.rs\<close>

definition FEND :: u8 where "FEND = 0xC0"
definition FESC :: u8 where "FESC = 0xDB"
definition TFEND :: u8 where "TFEND = 0xDC"
definition TFESC :: u8 where "TFESC = 0xDD"

lemmas kiss_bytes = FEND_def FESC_def TFEND_def TFESC_def

lemma kiss_bytes_distinct [simp]:
  "FEND \<noteq> FESC" "FESC \<noteq> FEND" "FEND \<noteq> TFEND" "FEND \<noteq> TFESC" "TFEND \<noteq> TFESC" "TFESC \<noteq> TFEND"
  "FESC \<noteq> TFEND" "FESC \<noteq> TFESC" "TFEND \<noteq> FESC" "TFESC \<noteq> FESC" "TFEND \<noteq> FEND" "TFESC \<noteq> FEND"
  by (simp_all add: kiss_bytes)

record kiss_frame =
  command :: u8
  data :: bytes

text \<open>
  The \<open>while i < raw.len()\<close> loop of \<open>KissFrame::decode\<close>, from index \<open>i\<close> on: the first
  argument is \<open>raw[i..]\<close>, the second the \<open>data\<close> pushed so far.
\<close>

fun unstuff :: "bytes \<Rightarrow> bytes \<Rightarrow> error + bytes" where
  "unstuff [] acc = Inr acc"
| "unstuff (b # bs) acc =
     (if b = FESC then
        (case bs of
           [] \<Rightarrow> Inl (KissFrame ''truncated escape sequence'')
         | other # rest \<Rightarrow>
             if other = TFEND then unstuff rest (acc @ [FEND])
             else if other = TFESC then unstuff rest (acc @ [FESC])
             else Inl (KissFrame (''invalid escape byte 0x'' @ hex2_upper other)))
      else unstuff bs (acc @ [b]))"

definition decode :: "bytes \<Rightarrow> error + kiss_frame" where
  "decode raw =
     (case raw of
        [] \<Rightarrow> Inl (KissFrame ''empty frame'')
      | cmd # rest \<Rightarrow>
          (case unstuff rest [] of
             Inl e \<Rightarrow> Inl e
           | Inr d \<Rightarrow> Inr \<lparr>command = cmd, data = d\<rparr>))"

definition stuff_byte :: "u8 \<Rightarrow> bytes \<Rightarrow> bytes" where
  "stuff_byte b out =
     (if b = FEND then out @ [FESC, TFEND]
      else if b = FESC then out @ [FESC, TFESC]
      else out @ [b])"

definition encode :: "kiss_frame \<Rightarrow> bytes" where
  "encode f = fold stuff_byte (data f) (stuff_byte (command f) [FEND]) @ [FEND]"

section \<open>Reassembly: src/kiss/buffer.rs\<close>

record reassembly =
  buf :: bytes
  max_size :: nat
  in_frame :: bool

definition new_buffer :: "nat \<Rightarrow> reassembly" where
  "new_buffer n = \<lparr>buf = [], max_size = n, in_frame = False\<rparr>"

definition push :: "reassembly \<Rightarrow> bytes \<Rightarrow> (error + unit) \<times> reassembly" where
  "push b d =
     (if length (buf b) + length d > max_size b
      then (Inl (KissFrame ''reassembly buffer overflow''), b\<lparr>buf := [], in_frame := False\<rparr>)
      else (Inr (), b\<lparr>buf := buf b @ d\<rparr>))"

text \<open>
  One iteration of the scan in \<open>drain_frames\<close>: the loop variables are the frames collected,
  \<open>frame_start\<close> and \<open>last_consumed\<close>.
\<close>

definition drain_step ::
    "bytes \<Rightarrow> nat \<Rightarrow> bytes list \<times> nat option \<times> nat \<Rightarrow> bytes list \<times> nat option \<times> nat" where
  "drain_step bs i st =
     (case st of (frames, frame_start, last_consumed) \<Rightarrow>
        if bs ! i = FEND then
          ((case frame_start of
              Some s \<Rightarrow> if i > s then frames @ [take (i - s) (drop s bs)] else frames
            | None \<Rightarrow> frames),
           Some (i + 1), i + 1)
        else st)"

definition drain_scan :: "reassembly \<Rightarrow> nat \<Rightarrow> bytes list \<times> nat option \<times> nat" where
  "drain_scan b n =
     fold (drain_step (buf b)) [0..<n] ([], (if in_frame b then Some 0 else None), 0)"

definition drain_frames :: "reassembly \<Rightarrow> bytes list \<times> reassembly" where
  "drain_frames b =
     (case drain_scan b (length (buf b)) of (frames, frame_start, last_consumed) \<Rightarrow>
        (frames,
         b\<lparr>buf := (if last_consumed > 0 then drop last_consumed (buf b) else buf b),
           in_frame := (if last_consumed > 0 \<or> frame_start \<noteq> None then True else in_frame b)\<rparr>))"

text \<open>
  What reassembly promises, stated on the stream and not on indices: the bytes between
  delimiters, empty pieces left out; the piece before the first delimiter is a frame only
  when the buffer was already inside one.
\<close>

definition complete_frames :: "bool \<Rightarrow> bytes \<Rightarrow> bytes list" where
  "complete_frames inside bs =
     filter (\<lambda>f. f \<noteq> []) ((if inside then id else tl) (butlast (split_on FEND bs)))"

section \<open>Lemmas on frames\<close>

definition stuffed :: "u8 \<Rightarrow> bytes" where
  "stuffed b = stuff_byte b []"

lemma stuff_byte_stuffed: "stuff_byte b out = out @ stuffed b"
  by (simp add: stuff_byte_def stuffed_def)

lemma fold_stuff_byte: "fold stuff_byte d out = out @ concat (map stuffed d)"
  by (induction d arbitrary: out) (simp_all add: stuff_byte_stuffed)

lemma encode_eq: "encode f = FEND # concat (map stuffed (command f # data f)) @ [FEND]"
  by (simp add: encode_def fold_stuff_byte stuff_byte_stuffed)

lemma encode_interior: "butlast (tl (encode f)) = concat (map stuffed (command f # data f))"
  by (simp add: encode_eq butlast_append)

lemma stuffed_cases:
  "stuffed b = (if b = FEND then [FESC, TFEND] else if b = FESC then [FESC, TFESC] else [b])"
  by (simp add: stuffed_def stuff_byte_def)

lemma FEND_notin_stuffed [simp]: "FEND \<notin> set (stuffed b)"
  by (simp add: stuffed_cases)

lemma unstuff_stuffed: "unstuff (stuffed b @ bs) acc = unstuff bs (acc @ [b])"
  by (simp add: stuffed_cases)

lemma unstuff_concat_stuffed [simp]: "unstuff (concat (map stuffed d)) acc = Inr (acc @ d)"
  by (induction d arbitrary: acc) (simp_all add: unstuff_stuffed)

lemma unstuff_acc: "unstuff raw (p @ acc) = map_sum id ((@) p) (unstuff raw acc)"
  by (induction raw acc rule: unstuff.induct) (simp_all split: list.splits)

lemma unstuff_one: "unstuff raw [x] = map_sum id ((#) x) (unstuff raw [])"
  using unstuff_acc [of raw "[x]" "[]"] by (cases "unstuff raw []") simp_all

lemma unstuff_canonical:
  "FEND \<notin> set raw \<Longrightarrow> unstuff raw acc = Inr (acc @ d) \<Longrightarrow> concat (map stuffed d) = raw"
proof (induction raw acc arbitrary: d rule: unstuff.induct)
  case (1 acc)
  then show ?case by simp
next
  case (2 b bs acc)
  show ?case
  proof (cases "b = FESC")
    case False
    with "2.prems" obtain e where e: "d = b # e" "unstuff bs (acc @ [b]) = Inr ((acc @ [b]) @ e)"
      using unstuff_acc [of bs "acc @ [b]" "[]"] by (cases "unstuff bs []") auto
    then have "concat (map stuffed e) = bs" using "2.IH"(3) [OF False] "2.prems" by auto
    with e False "2.prems" show ?thesis by (auto simp: stuffed_cases [of b])
  next
    case True
    with "2.prems" obtain c cs where bs: "bs = c # cs" by (cases bs) auto
    define x where "x = (if c = TFEND then FEND else FESC)"
    from True bs "2.prems" have c: "c = TFEND \<or> c = TFESC"
      and u: "unstuff cs (acc @ [x]) = Inr (acc @ d)"
      by (auto simp: x_def split: if_splits)
    then obtain e where e: "d = x # e" "unstuff cs (acc @ [x]) = Inr ((acc @ [x]) @ e)"
      using unstuff_acc [of cs "acc @ [x]" "[]"] by (cases "unstuff cs []") auto
    have "concat (map stuffed e) = cs"
      using "2.IH"(1,2) [OF True bs] "2.prems" c e bs by (auto simp: x_def split: if_splits)
    with e c bs True show ?thesis by (auto simp: x_def stuffed_cases [of FEND] stuffed_cases [of FESC])
  qed
qed

lemma decode_Cons:
  "decode (c # rest) = map_sum id (\<lambda>d. \<lparr>command = c, data = d\<rparr>) (unstuff rest [])"
  by (simp add: decode_def split: sum.splits)

lemma decode_interior:
  "decode (butlast (tl (encode f))) =
     (if command f = FEND then Inr \<lparr>command = FESC, data = TFEND # data f\<rparr>
      else if command f = FESC then Inr \<lparr>command = FESC, data = TFESC # data f\<rparr>
      else Inr f)"
  by (simp add: encode_interior stuffed_cases [of "command f"] decode_Cons unstuff_one)

section \<open>Lemmas on reassembly\<close>

text \<open>
  The state of the scan after \<open>n\<close> bytes, in terms of the pieces of the prefix: where the last
  piece starts is what \<open>frame_start\<close> and \<open>last_consumed\<close> hold.
\<close>

definition piece_start :: "bytes \<Rightarrow> nat" where
  "piece_start p = length p - length (last (split_on FEND p))"

lemma piece_start_snoc:
  "piece_start (p @ [x]) = (if x = FEND then length p + 1 else piece_start p)"
  by (simp add: piece_start_def split_on_snoc)

lemma piece_start_Nil [simp]: "piece_start [] = 0"
  by (simp add: piece_start_def)

lemma piece_start_free: "FEND \<notin> set p \<Longrightarrow> piece_start p = 0"
  by (simp add: piece_start_def split_on_free)

lemma piece_start_pos: "FEND \<in> set p \<Longrightarrow> 0 < piece_start p"
proof -
  assume "FEND \<in> set p"
  then have "length (split_on FEND p) > 1"
    using split_on_single_iff [of FEND p] by (cases "split_on FEND p") auto
  moreover have "length (last (split_on FEND p)) \<le> sum_list (map length (split_on FEND p))"
    by (rule member_le_sum_list) simp_all
  ultimately show ?thesis
    using sum_length_split_on [of p FEND] by (simp add: piece_start_def)
qed

lemma last_piece: "last (split_on FEND p) = drop (piece_start p) p"
  by (simp add: piece_start_def drop_last_split_on)

lemma piece_start_le: "piece_start p \<le> length p"
  by (simp add: piece_start_def)

lemma complete_frames_snoc:
  "complete_frames inside (p @ [x]) =
     (if x = FEND \<and> (inside \<or> FEND \<in> set p) \<and> last (split_on FEND p) \<noteq> []
      then complete_frames inside p @ [last (split_on FEND p)]
      else complete_frames inside p)"
proof (cases "x = FEND")
  case False
  then show ?thesis by (simp add: complete_frames_def split_on_snoc)
next
  case True
  define sp where "sp = split_on FEND p"
  have ne: "sp = butlast sp @ [last sp]" by (simp add: sp_def)
  have one: "butlast sp = [] \<longleftrightarrow> FEND \<notin> set p"
    using split_on_single_iff [of FEND p]
    by (cases "split_on FEND p" rule: rev_cases) (auto simp: sp_def)
  have tl: "tl sp = (if butlast sp = [] then [] else tl (butlast sp) @ [last sp])"
    by (subst ne) (simp add: tl_append split: list.splits)
  have "complete_frames inside (p @ [x]) = filter (\<lambda>f. f \<noteq> []) ((if inside then id else tl) sp)"
    using True by (simp add: complete_frames_def split_on_snoc sp_def)
  also have "\<dots> =
     (if (inside \<or> FEND \<in> set p) \<and> last sp \<noteq> []
      then complete_frames inside p @ [last sp] else complete_frames inside p)"
  proof (cases inside)
    case True
    have "filter (\<lambda>f. f \<noteq> []) sp = filter (\<lambda>f. f \<noteq> []) (butlast sp) @ filter (\<lambda>f. f \<noteq> []) [last sp]"
      using ne by (metis filter_append)
    with True show ?thesis by (auto simp: complete_frames_def sp_def)
  next
    case False
    with tl one show ?thesis by (auto simp: complete_frames_def sp_def)
  qed
  finally show ?thesis using True by (simp add: sp_def)
qed

lemma drain_scan_eq:
  "n \<le> length (buf b) \<Longrightarrow>
   drain_scan b n =
     (complete_frames (in_frame b) (take n (buf b)),
      (if in_frame b \<or> FEND \<in> set (take n (buf b)) then Some (piece_start (take n (buf b))) else None),
      (if FEND \<in> set (take n (buf b)) then piece_start (take n (buf b)) else 0))"
proof (induction n)
  case 0
  then show ?case by (simp add: drain_scan_def complete_frames_def)
next
  case (Suc n)
  define p where "p = take n (buf b)"
  have snoc: "take (Suc n) (buf b) = p @ [buf b ! n]" and len: "length p = n"
    using Suc.prems by (simp_all add: p_def take_Suc_conv_app_nth)
  have piece: "take (n - s) (drop s (buf b)) = drop s p" for s
    using Suc.prems by (simp add: p_def drop_take)
  have gap: "last (split_on FEND p) \<noteq> [] \<longleftrightarrow> piece_start p < n"
    by (simp add: last_piece len not_le)
  have IH: "drain_scan b n = (complete_frames (in_frame b) p,
      (if in_frame b \<or> FEND \<in> set p then Some (piece_start p) else None),
      (if FEND \<in> set p then piece_start p else 0))"
    using Suc by (simp add: p_def)
  have "drain_scan b (Suc n) = drain_step (buf b) n (drain_scan b n)"
    by (simp add: drain_scan_def)
  then have step: "drain_scan b (Suc n) = drain_step (buf b) n (complete_frames (in_frame b) p,
      (if in_frame b \<or> FEND \<in> set p then Some (piece_start p) else None),
      (if FEND \<in> set p then piece_start p else 0))"
    by (simp only: IH)
  show ?case
  proof (cases "buf b ! n = FEND")
    case False
    then show ?thesis unfolding snoc step
      by (simp add: drain_step_def complete_frames_snoc piece_start_snoc)
  next
    case True
    have "complete_frames (in_frame b) (p @ [FEND]) =
       (if (in_frame b \<or> FEND \<in> set p) \<and> piece_start p < n
        then complete_frames (in_frame b) p @ [drop (piece_start p) p]
        else complete_frames (in_frame b) p)"
      by (simp add: complete_frames_snoc gap [symmetric]) (simp add: last_piece)
    with True show ?thesis unfolding snoc step
      by (simp add: drain_step_def piece_start_snoc piece len)
  qed
qed

lemma drain_frames_eq:
  "drain_frames b =
     (complete_frames (in_frame b) (buf b),
      b\<lparr>buf := last (split_on FEND (buf b)), in_frame := in_frame b \<or> FEND \<in> set (buf b)\<rparr>)"
proof (cases "FEND \<in> set (buf b)")
  case True
  then have "0 < piece_start (buf b)" by (rule piece_start_pos)
  with True show ?thesis by (simp add: drain_frames_def drain_scan_eq last_piece)
next
  case False
  then show ?thesis by (simp add: drain_frames_def drain_scan_eq split_on_free)
qed

lemma complete_frames_append:
  "complete_frames inside (xs @ ys) =
     complete_frames inside xs @
     complete_frames (inside \<or> FEND \<in> set xs)
       (if inside \<or> FEND \<in> set xs then last (split_on FEND xs) @ ys else xs @ ys)"
proof (induction ys rule: rev_induct)
  case Nil
  then show ?case
    by (auto simp: complete_frames_def split_on_free)
next
  case (snoc y ys)
  have lst: "last (split_on FEND (xs @ ys)) = last (split_on FEND (last (split_on FEND xs) @ ys))"
  proof (induction ys rule: rev_induct)
    case Nil
    then show ?case by (simp add: split_on_free)
  next
    case (snoc z zs)
    then show ?case by (simp add: split_on_snoc flip: append_assoc)
  qed
  have "complete_frames inside (xs @ ys @ [y]) = complete_frames inside ((xs @ ys) @ [y])" by simp
  with snoc lst show ?case
    by (auto simp only: complete_frames_snoc append_assoc [symmetric] split: if_splits)
       (simp_all add: complete_frames_snoc split_on_free flip: append_assoc)
qed

section \<open>Properties of frames and reassembly\<close>

text \<open>C20: encoding a frame and decoding the bytes between its delimiters gives the frame back
  exactly when the command byte needs no stuffing: \<open>encode\<close> stuffs the command byte and
  \<open>decode\<close> reads it as it stands.\<close>

theorem kiss_roundtrip_iff:
  "decode (butlast (tl (encode f))) = Inr f \<longleftrightarrow> command f \<noteq> FEND \<and> command f \<noteq> FESC"
  by (cases f) (auto simp: decode_interior)

text \<open>An encoded frame is one delimiter, a non-empty body free of delimiters, and one
  delimiter, so that a receiver cuts it exactly there.\<close>

theorem kiss_encode_delimited:
  "\<exists>body. encode f = FEND # body @ [FEND] \<and> body \<noteq> [] \<and> FEND \<notin> set body"
  by (rule exI [of _ "concat (map stuffed (command f # data f))"])
     (simp add: encode_eq stuffed_cases [of "command f"])



text \<open>C19: \<open>drain_frames\<close> returns the non-empty byte runs that lie between two delimiters (or
  between the start of a buffer already inside a frame and a delimiter), keeps the bytes
  after the last delimiter, and remembers whether it is inside a frame.\<close>

theorem drain_frames_spec:
  "drain_frames b =
     (complete_frames (in_frame b) (buf b),
      b\<lparr>buf := last (split_on FEND (buf b)), in_frame := in_frame b \<or> FEND \<in> set (buf b)\<rparr>)"
  by (rule drain_frames_eq)

end
