(* ===== verification/Config_Model.thy ===== *)
theory Config_Model
  imports Prelude
begin

text \<open>
  The configuration as written in TOML files, \<^verbatim>\<open>src/config/model.rs\<close>. Parsing TOML into these
  types is serde's work and not part of the sources; everything optional stays an option
  here and gets its default in resolution.
\<close>

datatype app_params = Params_Pass | Params_Drop

definition default_app_params :: app_params where
  "default_app_params = Params_Pass"

datatype role = Role_Tnc | Role_App

datatype connect_policy = OnDemand | Always

definition default_connect_policy :: connect_policy where
  "default_connect_policy = OnDemand"

record global_section =
  gs_log_level :: "string option"
  gs_adapter :: "string option"

record control_section =
  cs_group :: "string option"

record adapter_def =
  ad_id :: string
  ad_mac :: string

record spp_def =
  sd_address :: string
  sd_adapter :: "string option"
  sd_channel :: "u8 option"

record ble_def =
  bd_address :: string
  bd_adapter :: "string option"

record serial_def =
  ser_path :: string
  ser_baud :: "u32 option"

record tnc_def =
  td_id :: string
  td_name :: "string option"
  td_model :: "string option"
  td_spp :: "spp_def option"
  td_ble :: "ble_def option"
  td_serial :: "serial_def option"

text \<open>The fields of a port that names a \<open>[[tnc]]\<close>: \<open>spp-client\<close>, \<open>ble-client\<close> and \<open>serial\<close> have
  the same ones.\<close>

record tnc_port_def =
  tp_tnc :: string
  tp_connect :: "connect_policy option"
  tp_idle_timeout :: "string option"
  tp_exit_kiss :: "bool option"

datatype port_def =
    TcpClientDef "string option" "role option" string "connect_policy option" "string option"
      \<comment> \<open>id, role, address, connect, idle\_timeout\<close>
  | TcpServerDef "string option" "role option" string "u32 option" "string list option" "bool option"
      \<comment> \<open>id, role, listen, max\_clients, allow, announce\<close>
  | BleServerDef "string option" "role option" "string option" "u32 option"
      \<comment> \<open>id, role, adapter, max\_clients\<close>
  | SppClientDef "string option" "role option" tnc_port_def
  | BleClientDef "string option" "role option" tnc_port_def
  | SerialDef "string option" "role option" tnc_port_def

record bridge_def =
  brd_id :: "string option"
  brd_name :: string
  brd_enabled :: "bool option"
  brd_public_name :: "string option"
  brd_app_params :: "app_params option"
  brd_ports :: "port_def list"

record config_file =
  cf_global :: "global_section option"
  cf_control :: "control_section option"
  cf_adapter :: "adapter_def list"
  cf_tnc :: "tnc_def list"
  cf_bridge :: "bridge_def list"

fun pd_type_name :: "port_def \<Rightarrow> string" where
  "pd_type_name (TcpClientDef _ _ _ _ _) = ''tcp-client''"
| "pd_type_name (TcpServerDef _ _ _ _ _ _) = ''tcp-server''"
| "pd_type_name (BleServerDef _ _ _ _) = ''ble-server''"
| "pd_type_name (SppClientDef _ _ _) = ''spp-client''"
| "pd_type_name (BleClientDef _ _ _) = ''ble-client''"
| "pd_type_name (SerialDef _ _ _) = ''serial''"

fun pd_id :: "port_def \<Rightarrow> string option" where
  "pd_id (TcpClientDef i _ _ _ _) = i"
| "pd_id (TcpServerDef i _ _ _ _ _) = i"
| "pd_id (BleServerDef i _ _ _) = i"
| "pd_id (SppClientDef i _ _) = i"
| "pd_id (BleClientDef i _ _) = i"
| "pd_id (SerialDef i _ _) = i"

fun pd_role :: "port_def \<Rightarrow> role option" where
  "pd_role (TcpClientDef _ r _ _ _) = r"
| "pd_role (TcpServerDef _ r _ _ _ _) = r"
| "pd_role (BleServerDef _ r _ _) = r"
| "pd_role (SppClientDef _ r _) = r"
| "pd_role (BleClientDef _ r _) = r"
| "pd_role (SerialDef _ r _) = r"

fun pd_default_role :: "port_def \<Rightarrow> role" where
  "pd_default_role (TcpClientDef _ _ _ _ _) = Role_Tnc"
| "pd_default_role (SppClientDef _ _ _) = Role_Tnc"
| "pd_default_role (BleClientDef _ _ _) = Role_Tnc"
| "pd_default_role (SerialDef _ _ _) = Role_Tnc"
| "pd_default_role (TcpServerDef _ _ _ _ _ _) = Role_App"
| "pd_default_role (BleServerDef _ _ _ _) = Role_App"

end
