(* ===== verification/Policy.thy ===== *)
theory Policy
  imports Kiss Config_Model
begin

text \<open>
  The KISS policy filter, \<^verbatim>\<open>src/bridge/policy.rs\<close>: what an app may send to a shared TNC. The
  filter reads the command byte of the raw (still stuffed) frame.
\<close>

unbundle bit_operations_syntax

definition CMD_DATA :: u8 where "CMD_DATA = 0x00"
definition CMD_TXDELAY :: u8 where "CMD_TXDELAY = 0x01"
definition CMD_PERSISTENCE :: u8 where "CMD_PERSISTENCE = 0x02"
definition CMD_SLOTTIME :: u8 where "CMD_SLOTTIME = 0x03"
definition CMD_TXTAIL :: u8 where "CMD_TXTAIL = 0x04"
definition CMD_FULLDUPLEX :: u8 where "CMD_FULLDUPLEX = 0x05"
definition CMD_SETHARDWARE :: u8 where "CMD_SETHARDWARE = 0x06"
definition CMD_RETURN :: u8 where "CMD_RETURN = 0xFF"

lemmas cmd_defs = CMD_DATA_def CMD_TXDELAY_def CMD_PERSISTENCE_def CMD_SLOTTIME_def CMD_TXTAIL_def
  CMD_FULLDUPLEX_def CMD_SETHARDWARE_def CMD_RETURN_def

datatype verdict = Pass | Drop string

definition filter_app_frame :: "bytes \<Rightarrow> app_params \<Rightarrow> verdict" where
  "filter_app_frame raw params =
     (case raw of
        [] \<Rightarrow> Drop ''empty frame''
      | cmd # _ \<Rightarrow>
          if cmd = CMD_RETURN then Drop ''KISS return (C0 FF C0) from an app''
          else
            (let c = cmd AND 0x0F in
             if c = CMD_DATA then Pass
             else if c \<in> {CMD_TXDELAY, CMD_PERSISTENCE, CMD_SLOTTIME, CMD_TXTAIL, CMD_FULLDUPLEX,
                          CMD_SETHARDWARE}
             then (case params of
                     Params_Pass \<Rightarrow> Pass
                   | Params_Drop \<Rightarrow> Drop ''KISS parameter command (app_params = \"drop\")'')
             else Drop ''unknown KISS command''))"

text \<open>What a frame that reaches the TNC looks like.\<close>

definition forwardable :: "frame \<Rightarrow> bool" where
  "forwardable f \<longleftrightarrow> f \<noteq> [] \<and> hd f \<noteq> CMD_RETURN \<and> hd f \<noteq> FESC \<and> unat (hd f AND 0x0F) \<le> 6"

lemma low_commands:
  "c \<in> {CMD_TXDELAY, CMD_PERSISTENCE, CMD_SLOTTIME, CMD_TXTAIL, CMD_FULLDUPLEX, CMD_SETHARDWARE}
   \<Longrightarrow> unat c \<le> 6"
  by (auto simp: cmd_defs)

lemma filter_pass_forwardable: "filter_app_frame raw params = Pass \<Longrightarrow> forwardable raw"
  by (auto simp: filter_app_frame_def forwardable_def Let_def cmd_defs FESC_def
      split: list.splits if_splits app_params.splits)

lemma unat_low_nibble: "unat (b AND 0x0F :: u8) = unat b mod 16"
proof -
  have "b AND 0x0F = take_bit 4 b"
    by (simp add: take_bit_eq_mask mask_eq_exp_minus_1)
  then have "unat (b AND 0x0F) = take_bit 4 (unat b)"
    by (simp only: unsigned_take_bit_eq)
  then show ?thesis by (simp add: take_bit_eq_mod)
qed

lemma word_eq_unat: "a = b \<longleftrightarrow> unat a = unat (b :: u8)"
  by (rule word_eq_iff_unsigned)

text \<open>The filter's whole behaviour in terms of the command byte \<open>b\<close>: data frames (low nibble
  0, any channel) always pass; the parameter commands 1 to 6 pass exactly when the bridge
  lets apps set parameters; KISS return, every other command and the empty frame never do.\<close>

theorem filter_app_frame_pass_iff:
  "filter_app_frame raw params = Pass \<longleftrightarrow>
     (\<exists>b rest. raw = b # rest \<and> b \<noteq> 0xFF \<and>
        (unat b mod 16 = 0 \<or> unat b mod 16 \<le> 6 \<and> params = Params_Pass))"
proof (cases raw)
  case Nil
  then show ?thesis by (simp add: filter_app_frame_def)
next
  case (Cons b rest)
  define n where "n = unat b mod 16"
  have "n < 16" by (simp add: n_def)
  have c: "(b AND 0x0F = CMD_DATA) = (n = 0)"
    "(b AND 0x0F \<in> {CMD_TXDELAY, CMD_PERSISTENCE, CMD_SLOTTIME, CMD_TXTAIL, CMD_FULLDUPLEX,
      CMD_SETHARDWARE}) = (1 \<le> n \<and> n \<le> 6)"
    using \<open>n < 16\<close> by (auto simp: word_eq_unat unat_low_nibble n_def [symmetric] cmd_defs)
  show ?thesis
    unfolding filter_app_frame_def Cons Let_def list.case c
    by (auto simp: n_def [symmetric] CMD_RETURN_def split: app_params.splits)
qed

end
