(* ===== verification/Channel.thy ===== *)
theory Channel
  imports Prelude
begin

text \<open>
  The bounded channels a bridge sends on. They are tokio's (\<open>mpsc::channel\<close>), not code of the
  repository, so a channel is a parameter: the record \<open>chan_ops\<close> holds the three operations
  the sources call, and the locale \<open>bounded_channel\<close> states their documented behaviour.
\<close>

record ('c, 'm) chan_ops =
  channel :: "nat \<Rightarrow> 'c"
  try_send :: "'c \<Rightarrow> 'm \<Rightarrow> 'c option"
  capacity :: "'c \<Rightarrow> nat"

text \<open>\<open>contents c\<close> is what has been sent and not yet received, oldest first; \<open>live c\<close> says that
  the receiving half still exists.\<close>

locale bounded_channel =
  fixes ops :: "('c, 'm) chan_ops"
    and contents :: "'c \<Rightarrow> 'm list"
    and live :: "'c \<Rightarrow> bool"
  assumes channel_empty: "0 < n \<Longrightarrow> contents (channel ops n) = []"
    and channel_capacity: "0 < n \<Longrightarrow> capacity ops (channel ops n) = n"
    and channel_live: "0 < n \<Longrightarrow> live (channel ops n)"
    and send_accepts: "live c \<Longrightarrow> 0 < capacity ops c \<Longrightarrow> try_send ops c m \<noteq> None"
    and send_contents: "try_send ops c m = Some c' \<Longrightarrow> contents c' = contents c @ [m]"
    and send_capacity: "try_send ops c m = Some c' \<Longrightarrow> capacity ops c = Suc (capacity ops c')"
    and send_live: "try_send ops c m = Some c' \<Longrightarrow> live c \<Longrightarrow> live c'"
begin

text \<open>Sending a list of messages one by one; \<open>None\<close> as soon as one is refused.\<close>

lemma send_all:
  "live c \<Longrightarrow> length ms \<le> capacity ops c \<Longrightarrow>
   \<exists>c'. foldl (\<lambda>oc m. Option.bind oc (\<lambda>c. try_send ops c m)) (Some c) ms = Some c'
      \<and> contents c' = contents c @ ms \<and> live c' \<and> capacity ops c = length ms + capacity ops c'"
proof (induction ms arbitrary: c)
  case Nil
  then show ?case by simp
next
  case (Cons m ms)
  then obtain c1 where c1: "try_send ops c m = Some c1"
    using send_accepts [of c m] by fastforce
  with Cons.prems have "live c1" "length ms \<le> capacity ops c1" "contents c1 = contents c @ [m]"
    "capacity ops c = Suc (capacity ops c1)"
    using send_live send_capacity [OF c1] send_contents by fastforce+
  with Cons.IH [of c1] c1 show ?case by auto
qed

end

text \<open>
  A list with a bound, the instance the examples run on: the messages and the free slots.
\<close>

definition list_chan :: "('m list \<times> nat, 'm) chan_ops" where
  "list_chan =
     \<lparr>channel = (\<lambda>n. ([], n)),
      try_send = (\<lambda>c m. if snd c = 0 then None else Some (fst c @ [m], snd c - 1)),
      capacity = snd\<rparr>"

interpretation lc: bounded_channel list_chan fst "\<lambda>_. True"
  by unfold_locales (auto simp: list_chan_def split: if_splits)

end
