(* ===== verification/Bridge.thy ===== *)
theory Bridge
  imports Policy Channel
begin

text \<open>
  The bridge task, \<^verbatim>\<open>src/bridge/mod.rs\<close>: the TNC link's state machine, the registry of app
  sessions and the forwarding rules. \<open>run\<close> is the struct \<open>Run\<close>; every method of \<open>impl Run\<close> is
  one definition on it. What the task does to the outside (spawning and aborting tasks,
  events to the hub, cancelling a session, answering a snapshot) is appended to \<open>effects\<close>;
  log lines are left out. Handlers read the clock through the field \<open>clock\<close>. The session and
  writer channels are parameters (theory Channel), gathered in \<open>env\<close>.

  \<open>generation\<close>, \<open>next_seq\<close> and \<open>attempt\<close> are natural numbers: they grow by one per connect,
  session or failed connect and cannot reach the end of their 64 (32) bits in the life of a
  daemon. The counters are 64-bit words, since \<open>fetch_add\<close> wraps.
\<close>

section \<open>Sessions, states and settings\<close>

record session_id =
  sid_port :: string
  sid_peer :: string

text \<open>\<open>Display\<close> and \<open>Deserialize\<close>: one string, \<open>port/peer\<close>, split at the first slash.\<close>

definition show_session_id :: "session_id \<Rightarrow> string" where
  "show_session_id s = sid_port s @ ''/'' @ sid_peer s"

definition parse_session_id :: "string \<Rightarrow> session_id option" where
  "parse_session_id s =
     (case dropWhile (\<lambda>c. c \<noteq> CHR ''/'') s of
        [] \<Rightarrow> None
      | _ # peer \<Rightarrow> Some \<lparr>sid_port = takeWhile (\<lambda>c. c \<noteq> CHR ''/'') s, sid_peer = peer\<rparr>)"

datatype tnc_state =
    T_Idle
  | T_Connecting
  | T_Connected
  | T_Backoff nat millis
  | T_Unpaired string
  | T_WaitingForDevice string

fun tnc_state_name :: "tnc_state \<Rightarrow> string" where
  "tnc_state_name T_Idle = ''idle''"
| "tnc_state_name T_Connecting = ''connecting''"
| "tnc_state_name T_Connected = ''connected''"
| "tnc_state_name (T_Backoff _ _) = ''backoff''"
| "tnc_state_name (T_Unpaired _) = ''unpaired''"
| "tnc_state_name (T_WaitingForDevice _) = ''waiting for device''"

record counters =
  c_frames_up :: u64
  c_frames_down :: u64
  c_dropped :: u64
  c_sessions :: nat
  c_tnc_connects :: u64

record tnc_settings =
  ts_port_id :: string
  ts_connect :: connect_policy
  ts_idle_timeout :: millis
  ts_app_params :: app_params
  ts_exit_kiss_on_disconnect :: bool

definition UPLINK_QUEUE_FRAMES :: nat where "UPLINK_QUEUE_FRAMES = 32"
definition UPLINK_QUEUE_AGE :: millis where "UPLINK_QUEUE_AGE = 5000"
definition BACKOFF_MIN :: millis where "BACKOFF_MIN = 1000"
definition BACKOFF_MAX :: millis where "BACKOFF_MAX = 30000"
definition UNPAIRED_POLL :: millis where "UNPAIRED_POLL = 5000"
definition DEVICE_POLL :: millis where "DEVICE_POLL = 2000"
definition WRITER_QUEUE :: nat where "WRITER_QUEUE = 256"

record opened =
  op_exit_kiss :: "bytes list"

datatype 'c app_event =
    SessionOpened session_id 'c
  | SessionClosed session_id
  | AppFrame session_id frame

record session_info =
  si_id :: session_id
  si_seq :: nat
  si_since :: millis

record snapshot =
  sn_tnc :: tnc_state
  sn_tnc_since :: millis
  sn_held :: "bool option"
  sn_sessions :: "session_info list"

datatype bridge_cmd =
    Settings tnc_settings
  | Connector string
  | Kick session_id
  | Hold "bool option"
  | Snapshot

datatype tnc_event =
    TncFrame nat frame
  | TncClosed nat error

datatype tnc_link = L_Idle | L_Connecting | L_Connected | L_Backoff millis

fun is_waiting :: "tnc_link \<Rightarrow> bool" where
  "is_waiting L_Connecting = True"
| "is_waiting (L_Backoff _) = True"
| "is_waiting L_Idle = False"
| "is_waiting L_Connected = False"

datatype link_event = Connected "error + opened" | BackoffOver

datatype wait = Wait_Unpaired | Wait_Device

datatype writer_msg = W_Frame frame | W_ExitKiss "bytes list"

record 'c session =
  s_tx :: 'c
  s_seq :: nat
  s_since :: millis

datatype dir = Rx | Tx

record hub_view =
  wants_activity :: bool
  wants_frames :: bool

datatype 'w effect =
    Spawn_connect string nat
  | Abort_connect
  | Abort_link_tasks
  | Abort_reader
  | Release_writer 'w
  | Finish_writer
  | Cancel_session session_id
  | Reply_snapshot snapshot
  | Hub_state string string string
  | Hub_activity string dir nat
  | Hub_frame string dir "string option" frame

record ('c, 'w) run =
  run_id :: string
  connector :: string
  settings :: tnc_settings
  state_tx :: tnc_state
  cnt :: counters
  sessions :: "(session_id \<times> 'c session) list"
  next_seq :: nat
  link :: tnc_link
  writer_tx :: "'w option"
  exit_kiss :: "bytes list"
  generation :: nat
  attempt :: nat
  pending :: "(millis \<times> frame \<times> session_id option) list"
  idle_timer :: "millis option"
  waiting :: "wait option"
  link_start :: "u64 \<times> u64"
  hub :: "hub_view option"
  state_since :: millis
  held :: "bool option"
  clock :: millis
  effects :: "'w effect list"

record ('c, 'w) env =
  session_chan :: "('c, frame) chan_ops"
  writer_chan :: "('w, writer_msg) chan_ops"

section \<open>The methods of Run\<close>

definition emit :: "'w effect \<Rightarrow> ('c, 'w) run \<Rightarrow> ('c, 'w) run" where
  "emit e r = r\<lparr>effects := effects r @ [e]\<rparr>"

definition emit_if :: "bool \<Rightarrow> 'w effect \<Rightarrow> ('c, 'w) run \<Rightarrow> ('c, 'w) run" where
  "emit_if b e r = (if b then emit e r else r)"

definition count_up :: "('c, 'w) run \<Rightarrow> ('c, 'w) run" where
  "count_up r = r\<lparr>cnt := (cnt r)\<lparr>c_frames_up := c_frames_up (cnt r) + 1\<rparr>\<rparr>"

definition count_dropped :: "nat \<Rightarrow> ('c, 'w) run \<Rightarrow> ('c, 'w) run" where
  "count_dropped n r = r\<lparr>cnt := (cnt r)\<lparr>c_dropped := c_dropped (cnt r) + of_nat n\<rparr>\<rparr>"

definition hub_wants_activity :: "('c, 'w) run \<Rightarrow> bool" where
  "hub_wants_activity r = (case hub r of None \<Rightarrow> False | Some h \<Rightarrow> wants_activity h)"

definition hub_wants_frames :: "('c, 'w) run \<Rightarrow> bool" where
  "hub_wants_frames r = (case hub r of None \<Rightarrow> False | Some h \<Rightarrow> wants_frames h)"

definition tnc_object :: "('c, 'w) run \<Rightarrow> string" where
  "tnc_object r = run_id r @ ''/'' @ ts_port_id (settings r)"

definition session_object :: "('c, 'w) run \<Rightarrow> session_id \<Rightarrow> string" where
  "session_object r i = run_id r @ ''/'' @ show_session_id i"

definition set_state :: "tnc_state \<Rightarrow> ('c, 'w) run \<Rightarrow> ('c, 'w) run" where
  "set_state s r =
     (let r' = r\<lparr>state_tx := s\<rparr>; new = tnc_state_name s in
      if tnc_state_name (state_tx r) \<noteq> new
      then emit_if (hub r \<noteq> None) (Hub_state ''tnc'' (tnc_object r) new) (r'\<lparr>state_since := clock r\<rparr>)
      else r')"

definition app_ready :: "('c, 'w) env \<Rightarrow> ('c, 'w) run \<Rightarrow> bool" where
  "app_ready E r = (case writer_tx r of None \<Rightarrow> True | Some w \<Rightarrow> capacity (writer_chan E) w > 0)"

definition start_connect :: "('c, 'w) run \<Rightarrow> ('c, 'w) run" where
  "start_connect r =
     (let r1 = r\<lparr>generation := generation r + 1\<rparr>;
          r2 = emit (Spawn_connect (connector r1) (generation r1)) (r1\<lparr>link := L_Connecting\<rparr>)
      in if waiting r2 = None then set_state T_Connecting r2 else r2)"

definition start_wait :: "wait \<Rightarrow> string \<Rightarrow> ('c, 'w) run \<Rightarrow> ('c, 'w) run" where
  "start_wait kind why r =
     (let r1 = r\<lparr>waiting := Some kind, attempt := 0\<rparr>;
          (delay, state) = (case kind of
             Wait_Unpaired \<Rightarrow> (UNPAIRED_POLL, T_Unpaired why)
           | Wait_Device \<Rightarrow> (DEVICE_POLL, T_WaitingForDevice why))
      in set_state state (r1\<lparr>link := L_Backoff delay\<rparr>))"

text \<open>\<open>Duration::checked_mul\<close>: a duration's seconds are a \<open>u64\<close>.\<close>

definition duration_checked_mul :: "millis \<Rightarrow> nat \<Rightarrow> millis option" where
  "duration_checked_mul d k = (if d * k < 2 ^ 64 * 1000 then Some (d * k) else None)"

definition backoff_delay :: "nat \<Rightarrow> millis" where
  "backoff_delay att =
     min (case duration_checked_mul BACKOFF_MIN (2 ^ min (att - 1) 16) of
            None \<Rightarrow> BACKOFF_MAX | Some d \<Rightarrow> d) BACKOFF_MAX"

definition start_backoff :: "('c, 'w) run \<Rightarrow> ('c, 'w) run" where
  "start_backoff r =
     (let r1 = r\<lparr>attempt := attempt r + 1\<rparr>; delay = backoff_delay (attempt r1)
      in set_state (T_Backoff (attempt r1) delay) (r1\<lparr>link := L_Backoff delay\<rparr>))"

text \<open>\<open>disconnect\<close> also says whether there is a writer task to wait for.\<close>

definition disconnect :: "('c, 'w) env \<Rightarrow> ('c, 'w) run \<Rightarrow> bool \<times> ('c, 'w) run" where
  "disconnect E r =
     (let r0 = r\<lparr>link := L_Idle\<rparr>;
          (writer, r1) =
            (case link r of
               L_Connecting \<Rightarrow> (False, emit Abort_connect r0)
             | L_Connected \<Rightarrow>
                 (let r1 = (case writer_tx r0 of
                      None \<Rightarrow> r0
                    | Some w \<Rightarrow>
                        (let w' = (if ts_exit_kiss_on_disconnect (settings r) \<and> exit_kiss r \<noteq> []
                                   then (case try_send (writer_chan E) w (W_ExitKiss (exit_kiss r)) of
                                           None \<Rightarrow> w | Some w' \<Rightarrow> w')
                                   else w)
                         in emit (Release_writer w') (r0\<lparr>writer_tx := None\<rparr>)))
                  in (True, emit Abort_reader r1))
             | L_Backoff _ \<Rightarrow> (False, r0)
             | L_Idle \<Rightarrow> (False, r0))
      in (writer,
          set_state T_Idle (r1\<lparr>generation := generation r1 + 1, pending := [], waiting := None\<rparr>)))"

definition close :: "('c, 'w) env \<Rightarrow> ('c, 'w) run \<Rightarrow> ('c, 'w) run" where
  "close E r = (case disconnect E r of (writer, r') \<Rightarrow> emit_if writer Finish_writer r')"

definition wants_link :: "('c, 'w) run \<Rightarrow> bool" where
  "wants_link r =
     (case held r of
        Some up \<Rightarrow> up
      | None \<Rightarrow> ts_connect (settings r) = Always \<or> sessions r \<noteq> [])"

definition queue_pending :: "frame \<Rightarrow> session_id option \<Rightarrow> ('c, 'w) run \<Rightarrow> ('c, 'w) run" where
  "queue_pending f from r =
     (let r1 = (if length (pending r) \<ge> UPLINK_QUEUE_FRAMES
                then count_dropped 1 (r\<lparr>pending := tl (pending r)\<rparr>) else r)
      in r1\<lparr>pending := pending r1 @ [(clock r1, f, from)]\<rparr>)"

definition uplink :: "('c, 'w) env \<Rightarrow> frame \<Rightarrow> session_id option \<Rightarrow> ('c, 'w) run \<Rightarrow> ('c, 'w) run" where
  "uplink E f from r =
     (case link r of
        L_Connected \<Rightarrow>
          (let r1 = emit_if (hub_wants_frames r)
                      (Hub_frame (tnc_object r) Tx (map_option (session_object r) from) f) r
           in case Option.bind (writer_tx r1) (\<lambda>w. try_send (writer_chan E) w (W_Frame f)) of
                Some w \<Rightarrow>
                  emit_if (hub_wants_activity r1) (Hub_activity (tnc_object r1) Tx (length f))
                    (count_up (r1\<lparr>writer_tx := Some w\<rparr>))
              | None \<Rightarrow> count_dropped 1 r1)
      | L_Idle \<Rightarrow>
          if held r = Some False then count_dropped 1 r
          else start_connect (queue_pending f from r)
      | L_Connecting \<Rightarrow> queue_pending f from r
      | L_Backoff _ \<Rightarrow> queue_pending f from r)"

definition store_session_count :: "('c, 'w) run \<Rightarrow> ('c, 'w) run" where
  "store_session_count r = r\<lparr>cnt := (cnt r)\<lparr>c_sessions := length (sessions r)\<rparr>\<rparr>"

fun on_app :: "('c, 'w) env \<Rightarrow> 'c app_event \<Rightarrow> ('c, 'w) run \<Rightarrow> ('c, 'w) run" where
  "on_app E (SessionOpened i tx) r =
     (let r1 = r\<lparr>next_seq := next_seq r + 1\<rparr>;
          r2 = emit_if (hub r1 \<noteq> None) (Hub_state ''session'' (session_object r1 i) ''opened'') r1;
          s = \<lparr>s_tx = tx, s_seq = next_seq r2, s_since = clock r2\<rparr>;
          r3 = store_session_count (r2\<lparr>sessions := AList.update i s (sessions r2)\<rparr>);
          r4 = r3\<lparr>idle_timer := None\<rparr>
      in if link r4 = L_Idle \<and> wants_link r4 then start_connect r4 else r4)"
| "on_app E (SessionClosed i) r =
     (let r1 = (if map_of (sessions r) i \<noteq> None
                then emit_if (hub r \<noteq> None) (Hub_state ''session'' (session_object r i) ''closed'')
                       (r\<lparr>sessions := AList.delete i (sessions r)\<rparr>)
                else r);
          r2 = store_session_count r1
      in if sessions r2 = [] \<and> \<not> wants_link r2
         then if ts_idle_timeout (settings r2) = 0 then close E r2
              else r2\<lparr>idle_timer := Some (ts_idle_timeout (settings r2))\<rparr>
         else r2)"
| "on_app E (AppFrame i f) r =
     (if map_of (sessions r) i = None then count_dropped 1 r
      else
        (let r1 = emit_if (hub_wants_activity r) (Hub_activity (session_object r i) Rx (length f)) r
         in case filter_app_frame f (ts_app_params (settings r1)) of
              Drop why \<Rightarrow> count_dropped 1 r1
            | Pass \<Rightarrow> uplink E f (Some i) r1))"

definition apply_settings :: "('c, 'w) env \<Rightarrow> tnc_settings \<Rightarrow> ('c, 'w) run \<Rightarrow> ('c, 'w) run" where
  "apply_settings E new r =
     (let old = settings r; r1 = r\<lparr>settings := new\<rparr> in
      if old = new then r1
      else if ts_connect old = OnDemand \<and> ts_connect new = Always then
        (let r2 = r1\<lparr>idle_timer := None\<rparr> in if link r2 = L_Idle then start_connect r2 else r2)
      else if ts_connect old = Always \<and> ts_connect new = OnDemand \<and> sessions r1 = [] then
        if ts_idle_timeout new = 0 then close E r1
        else r1\<lparr>idle_timer := Some (ts_idle_timeout new)\<rparr>
      else r1)"

definition take_snapshot :: "('c, 'w) run \<Rightarrow> snapshot" where
  "take_snapshot r =
     \<lparr>sn_tnc = state_tx r, sn_tnc_since = state_since r, sn_held = held r,
      sn_sessions = sort_key si_seq
        (map (\<lambda>(i, s). \<lparr>si_id = i, si_seq = s_seq s, si_since = s_since s\<rparr>) (sessions r))\<rparr>"

fun on_cmd :: "('c, 'w) env \<Rightarrow> bridge_cmd \<Rightarrow> ('c, 'w) run \<Rightarrow> ('c, 'w) run" where
  "on_cmd E (Settings new) r = apply_settings E new r"
| "on_cmd E (Connector c) r =
     (let r1 = (close E r)\<lparr>connector := c, attempt := 0\<rparr>
      in if wants_link r1 then start_connect r1 else r1)"
| "on_cmd E (Hold h) r =
     (let r1 = r\<lparr>held := h, idle_timer := None\<rparr>
      in if wants_link r1 then (if link r1 = L_Idle then start_connect r1 else r1)
         else if h \<noteq> None \<or> ts_idle_timeout (settings r1) = 0 then close E r1
         else r1\<lparr>idle_timer := Some (ts_idle_timeout (settings r1))\<rparr>)"
| "on_cmd E (Kick i) r =
     (case map_of (sessions r) i of Some s \<Rightarrow> emit (Cancel_session i) r | None \<Rightarrow> r)"
| "on_cmd E Snapshot r = emit (Reply_snapshot (take_snapshot r)) r"

text \<open>The broadcast loop of \<open>on_tnc\<close>: the sessions after it, how many could not take the frame,
  and the activity reported.\<close>

fun broadcast ::
    "('c, 'w) env \<Rightarrow> ('c, 'w) run \<Rightarrow> frame \<Rightarrow> (session_id \<times> 'c session) list
     \<Rightarrow> (session_id \<times> 'c session) list \<times> nat \<times> 'w effect list" where
  "broadcast E r f [] = ([], 0, [])"
| "broadcast E r f ((i, s) # rest) =
     (case broadcast E r f rest of (rest', lost, acts) \<Rightarrow>
        (case try_send (session_chan E) (s_tx s) f of
           None \<Rightarrow> ((i, s) # rest', Suc lost, acts)
         | Some c \<Rightarrow>
             ((i, s\<lparr>s_tx := c\<rparr>) # rest', lost,
              (if hub_wants_activity r then [Hub_activity (session_object r i) Tx (length f)] else []) @ acts)))"

fun on_tnc :: "('c, 'w) env \<Rightarrow> tnc_event \<Rightarrow> ('c, 'w) run \<Rightarrow> ('c, 'w) run" where
  "on_tnc E (TncFrame g f) r =
     (if g \<noteq> generation r then r
      else
        (let r1 = r\<lparr>cnt := (cnt r)\<lparr>c_frames_down := c_frames_down (cnt r) + 1\<rparr>\<rparr>;
             r2 = emit_if (hub_wants_frames r1) (Hub_frame (tnc_object r1) Rx None f) r1;
             r3 = emit_if (hub_wants_activity r2) (Hub_activity (tnc_object r2) Rx (length f)) r2
         in case broadcast E r3 f (sessions r3) of (ss, lost, acts) \<Rightarrow>
              (count_dropped lost r3)\<lparr>sessions := ss, effects := effects r3 @ acts\<rparr>))"
| "on_tnc E (TncClosed g e) r =
     (if g \<noteq> generation r \<or> link r \<noteq> L_Connected then r
      else
        (let r1 = emit Abort_link_tasks (r\<lparr>link := L_Idle\<rparr>);
             r2 = r1\<lparr>writer_tx := None, generation := generation r1 + 1\<rparr>
         in if wants_link r2 then start_backoff (r2\<lparr>attempt := 0\<rparr>) else set_state T_Idle r2))"

text \<open>The loop over the frames that arrived while connecting: stale ones are dropped.\<close>

fun flush_pending ::
    "('c, 'w) env \<Rightarrow> (millis \<times> frame \<times> session_id option) list \<Rightarrow> ('c, 'w) run \<Rightarrow> ('c, 'w) run" where
  "flush_pending E [] r = r"
| "flush_pending E ((at, f, from) # rest) r =
     flush_pending E rest
       (if at + UPLINK_QUEUE_AGE < clock r then count_dropped 1 r else uplink E f from r)"

fun on_link :: "('c, 'w) env \<Rightarrow> link_event \<Rightarrow> ('c, 'w) run \<Rightarrow> ('c, 'w) run" where
  "on_link E (Connected (Inr opened)) r =
     (let r1 = r\<lparr>waiting := None, exit_kiss := op_exit_kiss opened, link := L_Connected,
                 writer_tx := Some (channel (writer_chan E) WRITER_QUEUE), attempt := 0,
                 cnt := (cnt r)\<lparr>c_tnc_connects := c_tnc_connects (cnt r) + 1\<rparr>\<rparr>;
          r2 = r1\<lparr>link_start := (c_frames_up (cnt r1), c_frames_down (cnt r1))\<rparr>;
          r3 = set_state T_Connected r2;
          r4 = flush_pending E (pending r3) (r3\<lparr>pending := []\<rparr>)
      in if \<not> wants_link r4 \<and> ts_idle_timeout (settings r4) = 0 then close E r4 else r4)"
| "on_link E (Connected (Inl e)) r =
     (let r1 = r\<lparr>link := L_Idle\<rparr> in
      if \<not> wants_link r1 then set_state T_Idle (r1\<lparr>pending := [], waiting := None\<rparr>)
      else case e of
             Unpaired why \<Rightarrow> start_wait Wait_Unpaired why r1
           | DeviceAbsent why \<Rightarrow> start_wait Wait_Device why r1
           | _ \<Rightarrow> start_backoff (r1\<lparr>waiting := None\<rparr>))"
| "on_link E BackoffOver r =
     (let r1 = r\<lparr>link := L_Idle\<rparr> in
      if wants_link r1 then start_connect r1
      else set_state T_Idle (r1\<lparr>pending := [], waiting := None\<rparr>))"

text \<open>The idle timer's arm of the select loop.\<close>

definition on_idle_elapsed :: "('c, 'w) env \<Rightarrow> ('c, 'w) run \<Rightarrow> ('c, 'w) run" where
  "on_idle_elapsed E r =
     (let r1 = r\<lparr>idle_timer := None\<rparr> in if \<not> wants_link r1 then close E r1 else r1)"

end
