(* ===== verification/Bridge_Steps.thy ===== *)
theory Bridge_Steps
  imports Bridge
begin

text \<open>
  The select loop of the bridge task as a step relation, the start of the task, and the lemmas
  that say which fields of the state each method touches. The invariants and properties are in
  Bridge\_Invariants.
\<close>

section \<open>The task's start and its select loop\<close>

definition initial_run :: "string \<Rightarrow> string \<Rightarrow> tnc_settings \<Rightarrow> hub_view option \<Rightarrow> millis \<Rightarrow> ('c, 'w) run" where
  "initial_run i conn st h t =
     \<lparr>run_id = i, connector = conn, settings = st, state_tx = T_Idle,
      cnt = \<lparr>c_frames_up = 0, c_frames_down = 0, c_dropped = 0, c_sessions = 0, c_tnc_connects = 0\<rparr>,
      sessions = [], next_seq = 0, link = L_Idle, writer_tx = None, exit_kiss = [], generation = 0,
      attempt = 0, pending = [], idle_timer = None, waiting = None, link_start = (0, 0), hub = h,
      state_since = t, held = None, clock = t, effects = []\<rparr>"

definition start_main :: "('c, 'w) run \<Rightarrow> ('c, 'w) run" where
  "start_main r = (if ts_connect (settings r) = Always then start_connect r else r)"

text \<open>
  One arm of the select loop: an app event (taken only while the writer has room), a TNC event,
  a command, the connect task's result or the end of a backoff (polled only in those states),
  the idle timer. The other steps are the environment's: the writer task receives messages, a
  session's channel changes, time passes, subscribers come and go.
\<close>

datatype 'c act =
    A_App "'c app_event"
  | A_Tnc tnc_event
  | A_Cmd bridge_cmd
  | A_Link link_event
  | A_Idle
  | A_Env

inductive bridge_step ::
    "('c, 'w) env \<Rightarrow> ('w \<Rightarrow> writer_msg list) \<Rightarrow> 'c act \<Rightarrow> ('c, 'w) run \<Rightarrow> ('c, 'w) run \<Rightarrow> bool"
  for E wc where
  step_app: "app_ready E r \<Longrightarrow> bridge_step E wc (A_App ev) r (on_app E ev r)"
| step_tnc: "bridge_step E wc (A_Tnc ev) r (on_tnc E ev r)"
| step_cmd: "bridge_step E wc (A_Cmd c) r (on_cmd E c r)"
| step_connected:
    "link r = L_Connecting \<Longrightarrow> bridge_step E wc (A_Link (Connected res)) r (on_link E (Connected res) r)"
| step_backoff_over:
    "link r = L_Backoff d \<Longrightarrow> bridge_step E wc (A_Link BackoffOver) r (on_link E BackoffOver r)"
| step_idle: "idle_timer r \<noteq> None \<Longrightarrow> bridge_step E wc A_Idle r (on_idle_elapsed E r)"
| step_writer:
    "writer_tx r = Some w \<Longrightarrow> wc w = received @ wc w' \<Longrightarrow>
     bridge_step E wc A_Env r (r\<lparr>writer_tx := Some w'\<rparr>)"
| step_session:
    "map_of (sessions r) i = Some s \<Longrightarrow>
     bridge_step E wc A_Env r (r\<lparr>sessions := AList.update i (s\<lparr>s_tx := c\<rparr>) (sessions r)\<rparr>)"
| step_time: "clock r \<le> t \<Longrightarrow> bridge_step E wc A_Env r (r\<lparr>clock := t\<rparr>)"
| step_hub: "bridge_step E wc A_Env r (r\<lparr>hub := map_option (\<lambda>_. h) (hub r)\<rparr>)"

inductive_cases bridge_step_appE [elim!]: "bridge_step E wc (A_App ev) r r'"
inductive_cases bridge_step_tncE [elim!]: "bridge_step E wc (A_Tnc ev) r r'"
inductive_cases bridge_step_cmdE [elim!]: "bridge_step E wc (A_Cmd c) r r'"
inductive_cases bridge_step_linkE [elim!]: "bridge_step E wc (A_Link ev) r r'"
inductive_cases bridge_step_idleE [elim!]: "bridge_step E wc A_Idle r r'"

text \<open>The states a bridge task can reach; \<open>ok\<close> restricts the steps taken (\<open>\<lambda>_ _. True\<close> for none).\<close>

inductive reachable ::
    "('c, 'w) env \<Rightarrow> ('w \<Rightarrow> writer_msg list) \<Rightarrow> ('c act \<Rightarrow> ('c, 'w) run \<Rightarrow> bool) \<Rightarrow> ('c, 'w) run \<Rightarrow> bool"
  for E wc ok where
  reach_start: "reachable E wc ok (start_main (initial_run i conn st h t))"
| reach_step: "reachable E wc ok r \<Longrightarrow> ok a r \<Longrightarrow> bridge_step E wc a r r' \<Longrightarrow> reachable E wc ok r'"

section \<open>Which fields a method touches\<close>

lemma emit_frame [simp]:
  "run_id (emit e r) = run_id r" "connector (emit e r) = connector r"
  "settings (emit e r) = settings r" "state_tx (emit e r) = state_tx r" "cnt (emit e r) = cnt r"
  "sessions (emit e r) = sessions r" "next_seq (emit e r) = next_seq r" "link (emit e r) = link r"
  "writer_tx (emit e r) = writer_tx r" "exit_kiss (emit e r) = exit_kiss r"
  "generation (emit e r) = generation r" "attempt (emit e r) = attempt r"
  "pending (emit e r) = pending r" "idle_timer (emit e r) = idle_timer r"
  "waiting (emit e r) = waiting r" "link_start (emit e r) = link_start r" "hub (emit e r) = hub r"
  "state_since (emit e r) = state_since r" "held (emit e r) = held r" "clock (emit e r) = clock r"
  by (simp_all add: emit_def)

lemma emit_if_frame [simp]:
  "run_id (emit_if b e r) = run_id r" "connector (emit_if b e r) = connector r"
  "settings (emit_if b e r) = settings r" "state_tx (emit_if b e r) = state_tx r"
  "cnt (emit_if b e r) = cnt r" "sessions (emit_if b e r) = sessions r"
  "next_seq (emit_if b e r) = next_seq r" "link (emit_if b e r) = link r"
  "writer_tx (emit_if b e r) = writer_tx r" "exit_kiss (emit_if b e r) = exit_kiss r"
  "generation (emit_if b e r) = generation r" "attempt (emit_if b e r) = attempt r"
  "pending (emit_if b e r) = pending r" "idle_timer (emit_if b e r) = idle_timer r"
  "waiting (emit_if b e r) = waiting r" "link_start (emit_if b e r) = link_start r"
  "hub (emit_if b e r) = hub r" "state_since (emit_if b e r) = state_since r"
  "held (emit_if b e r) = held r" "clock (emit_if b e r) = clock r"
  by (simp_all add: emit_if_def)

lemma count_up_frame [simp]:
  "run_id (count_up r) = run_id r" "connector (count_up r) = connector r"
  "settings (count_up r) = settings r" "state_tx (count_up r) = state_tx r"
  "sessions (count_up r) = sessions r" "next_seq (count_up r) = next_seq r"
  "link (count_up r) = link r" "writer_tx (count_up r) = writer_tx r"
  "exit_kiss (count_up r) = exit_kiss r" "generation (count_up r) = generation r"
  "attempt (count_up r) = attempt r" "pending (count_up r) = pending r"
  "idle_timer (count_up r) = idle_timer r" "waiting (count_up r) = waiting r"
  "link_start (count_up r) = link_start r" "hub (count_up r) = hub r"
  "state_since (count_up r) = state_since r" "held (count_up r) = held r"
  "clock (count_up r) = clock r" "effects (count_up r) = effects r"
  by (simp_all add: count_up_def)

lemma count_dropped_frame [simp]:
  "run_id (count_dropped n r) = run_id r" "connector (count_dropped n r) = connector r"
  "settings (count_dropped n r) = settings r" "state_tx (count_dropped n r) = state_tx r"
  "sessions (count_dropped n r) = sessions r" "next_seq (count_dropped n r) = next_seq r"
  "link (count_dropped n r) = link r" "writer_tx (count_dropped n r) = writer_tx r"
  "exit_kiss (count_dropped n r) = exit_kiss r" "generation (count_dropped n r) = generation r"
  "attempt (count_dropped n r) = attempt r" "pending (count_dropped n r) = pending r"
  "idle_timer (count_dropped n r) = idle_timer r" "waiting (count_dropped n r) = waiting r"
  "link_start (count_dropped n r) = link_start r" "hub (count_dropped n r) = hub r"
  "state_since (count_dropped n r) = state_since r" "held (count_dropped n r) = held r"
  "clock (count_dropped n r) = clock r" "effects (count_dropped n r) = effects r"
  by (simp_all add: count_dropped_def)

lemma store_session_count_frame [simp]:
  "run_id (store_session_count r) = run_id r" "connector (store_session_count r) = connector r"
  "settings (store_session_count r) = settings r" "state_tx (store_session_count r) = state_tx r"
  "sessions (store_session_count r) = sessions r" "next_seq (store_session_count r) = next_seq r"
  "link (store_session_count r) = link r" "writer_tx (store_session_count r) = writer_tx r"
  "exit_kiss (store_session_count r) = exit_kiss r"
  "generation (store_session_count r) = generation r"
  "attempt (store_session_count r) = attempt r" "pending (store_session_count r) = pending r"
  "idle_timer (store_session_count r) = idle_timer r"
  "waiting (store_session_count r) = waiting r"
  "link_start (store_session_count r) = link_start r" "hub (store_session_count r) = hub r"
  "state_since (store_session_count r) = state_since r" "held (store_session_count r) = held r"
  "clock (store_session_count r) = clock r" "effects (store_session_count r) = effects r"
  by (simp_all add: store_session_count_def)

lemma set_state_frame [simp]:
  "run_id (set_state s r) = run_id r" "connector (set_state s r) = connector r"
  "settings (set_state s r) = settings r" "cnt (set_state s r) = cnt r"
  "sessions (set_state s r) = sessions r" "next_seq (set_state s r) = next_seq r"
  "link (set_state s r) = link r" "writer_tx (set_state s r) = writer_tx r"
  "exit_kiss (set_state s r) = exit_kiss r" "generation (set_state s r) = generation r"
  "attempt (set_state s r) = attempt r" "pending (set_state s r) = pending r"
  "idle_timer (set_state s r) = idle_timer r" "waiting (set_state s r) = waiting r"
  "link_start (set_state s r) = link_start r" "hub (set_state s r) = hub r"
  "held (set_state s r) = held r" "clock (set_state s r) = clock r"
  by (simp_all add: set_state_def Let_def)

lemma set_state_state [simp]: "state_tx (set_state s r) = s"
  by (simp add: set_state_def Let_def)

lemma queue_pending_frame [simp]:
  "run_id (queue_pending f from r) = run_id r" "connector (queue_pending f from r) = connector r"
  "settings (queue_pending f from r) = settings r"
  "state_tx (queue_pending f from r) = state_tx r"
  "sessions (queue_pending f from r) = sessions r"
  "next_seq (queue_pending f from r) = next_seq r" "link (queue_pending f from r) = link r"
  "writer_tx (queue_pending f from r) = writer_tx r"
  "exit_kiss (queue_pending f from r) = exit_kiss r"
  "generation (queue_pending f from r) = generation r"
  "attempt (queue_pending f from r) = attempt r"
  "idle_timer (queue_pending f from r) = idle_timer r"
  "waiting (queue_pending f from r) = waiting r"
  "link_start (queue_pending f from r) = link_start r" "hub (queue_pending f from r) = hub r"
  "state_since (queue_pending f from r) = state_since r" "held (queue_pending f from r) = held r"
  "clock (queue_pending f from r) = clock r" "effects (queue_pending f from r) = effects r"
  by (simp_all add: queue_pending_def Let_def)

lemma start_connect_frame [simp]:
  "run_id (start_connect r) = run_id r" "connector (start_connect r) = connector r"
  "settings (start_connect r) = settings r" "cnt (start_connect r) = cnt r"
  "sessions (start_connect r) = sessions r" "next_seq (start_connect r) = next_seq r"
  "writer_tx (start_connect r) = writer_tx r" "exit_kiss (start_connect r) = exit_kiss r"
  "attempt (start_connect r) = attempt r" "pending (start_connect r) = pending r"
  "idle_timer (start_connect r) = idle_timer r" "waiting (start_connect r) = waiting r"
  "link_start (start_connect r) = link_start r" "hub (start_connect r) = hub r"
  "held (start_connect r) = held r" "clock (start_connect r) = clock r"
  by (simp_all add: start_connect_def Let_def)

lemma start_connect_link [simp]:
  "link (start_connect r) = L_Connecting" "generation (start_connect r) = generation r + 1"
  "state_tx (start_connect r) = (if waiting r = None then T_Connecting else state_tx r)"
  by (simp_all add: start_connect_def Let_def)

lemma start_wait_frame [simp]:
  "run_id (start_wait k why r) = run_id r" "connector (start_wait k why r) = connector r"
  "settings (start_wait k why r) = settings r" "cnt (start_wait k why r) = cnt r"
  "sessions (start_wait k why r) = sessions r" "next_seq (start_wait k why r) = next_seq r"
  "writer_tx (start_wait k why r) = writer_tx r" "exit_kiss (start_wait k why r) = exit_kiss r"
  "generation (start_wait k why r) = generation r" "pending (start_wait k why r) = pending r"
  "idle_timer (start_wait k why r) = idle_timer r"
  "link_start (start_wait k why r) = link_start r" "hub (start_wait k why r) = hub r"
  "held (start_wait k why r) = held r" "clock (start_wait k why r) = clock r"
  by (simp_all add: start_wait_def Let_def split: wait.splits)

lemma start_wait_link [simp]:
  "link (start_wait k why r) = L_Backoff (case k of Wait_Unpaired \<Rightarrow> UNPAIRED_POLL | Wait_Device \<Rightarrow> DEVICE_POLL)"
  "waiting (start_wait k why r) = Some k" "attempt (start_wait k why r) = 0"
  "state_tx (start_wait k why r) =
     (case k of Wait_Unpaired \<Rightarrow> T_Unpaired why | Wait_Device \<Rightarrow> T_WaitingForDevice why)"
  by (simp_all add: start_wait_def Let_def split: wait.splits)

lemma start_backoff_frame [simp]:
  "run_id (start_backoff r) = run_id r" "connector (start_backoff r) = connector r"
  "settings (start_backoff r) = settings r" "cnt (start_backoff r) = cnt r"
  "sessions (start_backoff r) = sessions r" "next_seq (start_backoff r) = next_seq r"
  "writer_tx (start_backoff r) = writer_tx r" "exit_kiss (start_backoff r) = exit_kiss r"
  "generation (start_backoff r) = generation r" "pending (start_backoff r) = pending r"
  "idle_timer (start_backoff r) = idle_timer r" "waiting (start_backoff r) = waiting r"
  "link_start (start_backoff r) = link_start r" "hub (start_backoff r) = hub r"
  "held (start_backoff r) = held r" "clock (start_backoff r) = clock r"
  by (simp_all add: start_backoff_def Let_def)

lemma start_backoff_link [simp]:
  "link (start_backoff r) = L_Backoff (backoff_delay (attempt r + 1))"
  "attempt (start_backoff r) = attempt r + 1"
  "state_tx (start_backoff r) = T_Backoff (attempt r + 1) (backoff_delay (attempt r + 1))"
  by (simp_all add: start_backoff_def Let_def)

lemma disconnect_frame [simp]:
  "run_id (snd (disconnect E r)) = run_id r" "connector (snd (disconnect E r)) = connector r"
  "settings (snd (disconnect E r)) = settings r" "cnt (snd (disconnect E r)) = cnt r"
  "sessions (snd (disconnect E r)) = sessions r" "next_seq (snd (disconnect E r)) = next_seq r"
  "exit_kiss (snd (disconnect E r)) = exit_kiss r" "attempt (snd (disconnect E r)) = attempt r"
  "idle_timer (snd (disconnect E r)) = idle_timer r"
  "link_start (snd (disconnect E r)) = link_start r" "hub (snd (disconnect E r)) = hub r"
  "held (snd (disconnect E r)) = held r" "clock (snd (disconnect E r)) = clock r"
  by (simp_all add: disconnect_def Let_def split: tnc_link.splits option.splits)

lemma disconnect_link [simp]:
  "link (snd (disconnect E r)) = L_Idle" "generation (snd (disconnect E r)) = generation r + 1"
  "pending (snd (disconnect E r)) = []" "waiting (snd (disconnect E r)) = None"
  "state_tx (snd (disconnect E r)) = T_Idle"
  "writer_tx (snd (disconnect E r)) = (if link r = L_Connected then None else writer_tx r)"
  by (simp_all add: disconnect_def Let_def split: tnc_link.splits option.splits)

lemma close_eq: "close E r = emit_if (fst (disconnect E r)) Finish_writer (snd (disconnect E r))"
  by (simp add: close_def split: prod.splits)

lemma close_frame [simp]:
  "run_id (close E r) = run_id r" "connector (close E r) = connector r"
  "settings (close E r) = settings r" "cnt (close E r) = cnt r"
  "sessions (close E r) = sessions r" "next_seq (close E r) = next_seq r"
  "exit_kiss (close E r) = exit_kiss r" "attempt (close E r) = attempt r"
  "idle_timer (close E r) = idle_timer r" "link_start (close E r) = link_start r"
  "hub (close E r) = hub r" "held (close E r) = held r" "clock (close E r) = clock r"
  by (simp_all add: close_eq)

lemma close_link [simp]:
  "link (close E r) = L_Idle" "generation (close E r) = generation r + 1"
  "pending (close E r) = []" "waiting (close E r) = None" "state_tx (close E r) = T_Idle"
  "writer_tx (close E r) = (if link r = L_Connected then None else writer_tx r)"
  by (simp_all add: close_eq)

lemma wants_link_cong:
  "held r = held r' \<Longrightarrow> ts_connect (settings r) = ts_connect (settings r') \<Longrightarrow>
   (sessions r = []) = (sessions r' = []) \<Longrightarrow> wants_link r = wants_link r'"
  by (auto simp: wants_link_def split: option.splits)

lemma uplink_frame [simp]:
  "run_id (uplink E f from r) = run_id r" "connector (uplink E f from r) = connector r"
  "settings (uplink E f from r) = settings r" "sessions (uplink E f from r) = sessions r"
  "next_seq (uplink E f from r) = next_seq r" "exit_kiss (uplink E f from r) = exit_kiss r"
  "attempt (uplink E f from r) = attempt r" "idle_timer (uplink E f from r) = idle_timer r"
  "waiting (uplink E f from r) = waiting r" "link_start (uplink E f from r) = link_start r"
  "hub (uplink E f from r) = hub r" "held (uplink E f from r) = held r"
  "clock (uplink E f from r) = clock r"
  by (simp_all add: uplink_def Let_def split: tnc_link.splits option.splits)

end
