(* ===== verification/Bridge_Invariants.thy ===== *)
theory Bridge_Invariants
  imports Bridge_Steps
begin

text \<open>
  The invariants of a running bridge and the properties that follow: the link, its writer, the
  queue of waiting frames and the published state always agree; no app can take the TNC out of
  KISS mode; frames are never lost unaccounted; the link is up, or coming up, whenever it is
  wanted, but for a settings change while the link is held.
\<close>

section \<open>The link invariant\<close>

text \<open>What the published state may be while the link is in a state, and the delays it waits.\<close>

definition state_agrees :: "('c, 'w) run \<Rightarrow> bool" where
  "state_agrees r =
     (case link r of
        L_Idle \<Rightarrow> state_tx r = T_Idle
      | L_Connected \<Rightarrow> state_tx r = T_Connected
      | L_Connecting \<Rightarrow>
          (case waiting r of
             None \<Rightarrow> state_tx r = T_Connecting
           | Some Wait_Unpaired \<Rightarrow> tnc_state_name (state_tx r) = ''unpaired''
           | Some Wait_Device \<Rightarrow> tnc_state_name (state_tx r) = ''waiting for device'')
      | L_Backoff d \<Rightarrow>
          (case waiting r of
             None \<Rightarrow> state_tx r = T_Backoff (attempt r) d \<and> 1 \<le> attempt r \<and> d = backoff_delay (attempt r)
           | Some Wait_Unpaired \<Rightarrow> tnc_state_name (state_tx r) = ''unpaired'' \<and> d = UNPAIRED_POLL
           | Some Wait_Device \<Rightarrow> tnc_state_name (state_tx r) = ''waiting for device'' \<and> d = DEVICE_POLL))"

definition link_inv :: "('c, 'w) run \<Rightarrow> bool" where
  "link_inv r \<longleftrightarrow>
     (writer_tx r \<noteq> None \<longleftrightarrow> link r = L_Connected) \<and>
     (pending r \<noteq> [] \<longrightarrow> is_waiting (link r)) \<and>
     (waiting r \<noteq> None \<longrightarrow> is_waiting (link r)) \<and>
     length (pending r) \<le> UPLINK_QUEUE_FRAMES \<and>
     state_agrees r"

lemma state_agrees_cong:
  "link r = link r' \<Longrightarrow> waiting r = waiting r' \<Longrightarrow> state_tx r = state_tx r' \<Longrightarrow> attempt r = attempt r' \<Longrightarrow>
   state_agrees r = state_agrees r'"
  by (simp add: state_agrees_def split: tnc_link.splits option.splits wait.splits)

lemma link_inv_cong:
  "link r = link r' \<Longrightarrow> waiting r = waiting r' \<Longrightarrow> state_tx r = state_tx r' \<Longrightarrow> attempt r = attempt r' \<Longrightarrow>
   (writer_tx r = None) = (writer_tx r' = None) \<Longrightarrow> pending r = pending r' \<Longrightarrow> link_inv r = link_inv r'"
  using state_agrees_cong [of r r'] by (simp add: link_inv_def)

lemma state_agrees_queue [simp]: "state_agrees (queue_pending f from r) = state_agrees r"
  by (rule state_agrees_cong) simp_all

lemma link_inv_simple [simp]:
  "link_inv (emit e r) = link_inv r" "link_inv (emit_if b e r) = link_inv r"
  "link_inv (count_up r) = link_inv r" "link_inv (count_dropped n r) = link_inv r"
  "link_inv (store_session_count r) = link_inv r"
  "link_inv (r\<lparr>sessions := ss\<rparr>) = link_inv r" "link_inv (r\<lparr>idle_timer := t\<rparr>) = link_inv r"
  "link_inv (r\<lparr>held := h\<rparr>) = link_inv r" "link_inv (r\<lparr>settings := st\<rparr>) = link_inv r"
  "link_inv (r\<lparr>next_seq := n\<rparr>) = link_inv r" "link_inv (r\<lparr>cnt := k\<rparr>) = link_inv r"
  "link_inv (r\<lparr>effects := es\<rparr>) = link_inv r" "link_inv (r\<lparr>clock := t'\<rparr>) = link_inv r"
  "link_inv (r\<lparr>hub := hv\<rparr>) = link_inv r" "link_inv (r\<lparr>connector := c\<rparr>) = link_inv r"
  by (rule link_inv_cong; simp)+

lemma link_inv_start_connect:
  "link_inv r \<Longrightarrow> link r = L_Idle \<Longrightarrow> link_inv (start_connect r)"
  by (simp add: link_inv_def state_agrees_def)

lemma link_inv_close [simp]: "link_inv r \<Longrightarrow> link_inv (close E r)"
  by (auto simp: link_inv_def state_agrees_def)

lemma pending_queue_pending:
  "pending (queue_pending f from r) =
     (if length (pending r) \<ge> UPLINK_QUEUE_FRAMES then tl (pending r) else pending r) @ [(clock r, f, from)]"
  by (simp add: queue_pending_def Let_def)

lemma length_queue_pending:
  "length (pending r) \<le> UPLINK_QUEUE_FRAMES \<Longrightarrow>
   length (pending (queue_pending f from r)) \<le> UPLINK_QUEUE_FRAMES"
  by (auto simp: pending_queue_pending UPLINK_QUEUE_FRAMES_def)

lemma link_inv_uplink:
  assumes "link_inv r"
  shows "link_inv (uplink E f from r)"
proof (cases "link r")
  case L_Idle
  with assms show ?thesis
    by (auto simp: uplink_def link_inv_def state_agrees_def length_queue_pending)
next
  case L_Connected
  then show ?thesis
    using assms by (auto simp: uplink_def Let_def link_inv_def state_agrees_def split: option.splits)
next
  case L_Connecting
  with assms show ?thesis by (simp add: uplink_def link_inv_def length_queue_pending)
next
  case (L_Backoff d)
  with assms show ?thesis by (simp add: uplink_def link_inv_def length_queue_pending)
qed

lemma uplink_connected_link [simp]:
  "link r = L_Connected \<Longrightarrow> link (uplink E f from r) = L_Connected"
  "link r = L_Connected \<Longrightarrow> pending (uplink E f from r) = pending r"
  by (simp_all add: uplink_def Let_def split: option.splits)

lemma flush_pending_link:
  "link_inv r \<Longrightarrow> link r = L_Connected \<Longrightarrow>
   link_inv (flush_pending E ps r) \<and> link (flush_pending E ps r) = L_Connected
   \<and> pending (flush_pending E ps r) = pending r"
  by (induction E ps r rule: flush_pending.induct) (simp_all add: link_inv_uplink)

lemma link_inv_on_app: "link_inv r \<Longrightarrow> link_inv (on_app E ev r)"
  by (cases ev)
     (auto simp: Let_def link_inv_start_connect link_inv_uplink split: verdict.splits)

lemma link_inv_on_cmd:
  assumes "link_inv r"
  shows "link_inv (on_cmd E c r)"
proof (cases c)
  case (Connector x)
  have "link_inv ((close E r)\<lparr>connector := x, attempt := 0\<rparr>)"
    using link_inv_close [OF assms, of E] by (simp add: link_inv_def state_agrees_def)
  with Connector show ?thesis
    by (auto simp: Let_def intro!: link_inv_start_connect)
qed (use assms in \<open>auto simp: Let_def apply_settings_def link_inv_start_connect split: option.splits\<close>)

lemma link_inv_on_tnc:
  assumes "link_inv r"
  shows "link_inv (on_tnc E ev r)"
proof (cases ev)
  case (TncFrame g f)
  have "link_inv ((count_dropped lost r0)\<lparr>sessions := ss, effects := es\<rparr>) = link_inv r0" for lost ss es r0
    by (rule link_inv_cong) simp_all
  with TncFrame assms show ?thesis by (simp add: Let_def split: prod.splits)
next
  case (TncClosed g e)
  with assms show ?thesis by (auto simp: Let_def link_inv_def state_agrees_def)
qed

lemma link_inv_on_link:
  assumes "link_inv r" and "is_waiting (link r)"
  shows "link_inv (on_link E ev r)"
proof (cases "(E, ev, r)" rule: on_link.cases)
  case (1 E' op r')
  let ?r1 = "r\<lparr>waiting := None, exit_kiss := op_exit_kiss op, link := L_Connected,
      writer_tx := Some (channel (writer_chan E) WRITER_QUEUE), attempt := 0,
      cnt := (cnt r)\<lparr>c_tnc_connects := c_tnc_connects (cnt r) + 1\<rparr>\<rparr>"
  let ?r3 = "(set_state T_Connected
      (?r1\<lparr>link_start := (c_frames_up (cnt ?r1), c_frames_down (cnt ?r1))\<rparr>))\<lparr>pending := []\<rparr>"
  have "link_inv ?r3" "link ?r3 = L_Connected"
    by (simp_all add: link_inv_def state_agrees_def)
  from flush_pending_link [OF this] have "link_inv (flush_pending E ps ?r3)" for ps by simp
  with 1 show ?thesis by (simp add: Let_def)
next
  case (2 E' e r')
  with assms show ?thesis
    by (cases e) (auto simp: Let_def link_inv_def state_agrees_def)
next
  case (3 E' r')
  with assms show ?thesis
    by (auto simp: Let_def link_inv_def state_agrees_def split: tnc_link.splits option.splits wait.splits)
qed

lemma link_inv_step:
  assumes "bridge_step E wc a r r'" and "link_inv r"
  shows "link_inv r'"
  using assms
proof (induction rule: bridge_step.induct)
  case (step_writer r w received w')
  then have "link_inv (r\<lparr>writer_tx := Some w'\<rparr>) = link_inv r" by (intro link_inv_cong) simp_all
  with step_writer show ?case by simp
next
  case (step_connected r res)
  then show ?case by (intro link_inv_on_link) simp_all
next
  case (step_backoff_over r d)
  then show ?case by (intro link_inv_on_link) simp_all
qed (simp_all only: link_inv_on_app link_inv_on_cmd link_inv_on_tnc,
     simp_all add: on_idle_elapsed_def Let_def)

lemma link_inv_initial: "link_inv (start_main (initial_run i conn st h t))"
  by (simp add: start_main_def initial_run_def link_inv_def state_agrees_def)

lemma reachable_link_inv: "reachable E wc ok r \<Longrightarrow> link_inv r"
  by (induction rule: reachable.induct) (simp_all add: link_inv_initial link_inv_step)

section \<open>Sessions\<close>

text \<open>The registry without the channels: who is connected, with the sequence number.\<close>

definition roster :: "('c, 'w) run \<Rightarrow> (session_id \<times> nat) list" where
  "roster r = map (\<lambda>p. (fst p, s_seq (snd p))) (sessions r)"

lemma length_roster [simp]: "length (roster r) = length (sessions r)"
  by (simp add: roster_def)

definition session_inv :: "('c, 'w) run \<Rightarrow> bool" where
  "session_inv r \<longleftrightarrow>
     distinct (map fst (roster r)) \<and> distinct (map snd (roster r)) \<and>
     (\<forall>n \<in> snd ` set (roster r). n \<le> next_seq r) \<and>
     c_sessions (cnt r) = length (sessions r)"

lemma session_inv_cong:
  "roster r = roster r' \<Longrightarrow> next_seq r = next_seq r' \<Longrightarrow> c_sessions (cnt r) = c_sessions (cnt r') \<Longrightarrow>
   session_inv r = session_inv r'"
  using length_roster [of r] length_roster [of r'] by (simp add: session_inv_def)

lemma roster_cong: "sessions r = sessions r' \<Longrightarrow> roster r = roster r'"
  by (simp add: roster_def)

lemma c_sessions_simple [simp]:
  "c_sessions (cnt (count_up r)) = c_sessions (cnt r)"
  "c_sessions (cnt (count_dropped n r)) = c_sessions (cnt r)"
  "c_sessions (cnt (queue_pending f from r)) = c_sessions (cnt r)"
  "c_sessions (cnt (uplink E f from r)) = c_sessions (cnt r)"
  by (simp_all add: count_up_def count_dropped_def queue_pending_def uplink_def Let_def
      split: tnc_link.splits option.splits)

lemma flush_pending_sessions [simp]:
  "sessions (flush_pending E ps r) = sessions r" "next_seq (flush_pending E ps r) = next_seq r"
  "c_sessions (cnt (flush_pending E ps r)) = c_sessions (cnt r)"
  "held (flush_pending E ps r) = held r" "settings (flush_pending E ps r) = settings r"
  by (induction E ps r rule: flush_pending.induct) simp_all

text \<open>What the broadcast does to one session, and whether the session was too slow for it.\<close>

definition refuses :: "('c, 'w) env \<Rightarrow> frame \<Rightarrow> session_id \<times> 'c session \<Rightarrow> bool" where
  "refuses E f p \<longleftrightarrow> try_send (session_chan E) (s_tx (snd p)) f = None"

definition deliver :: "('c, 'w) env \<Rightarrow> frame \<Rightarrow> session_id \<times> 'c session \<Rightarrow> session_id \<times> 'c session" where
  "deliver E f p =
     (fst p, case try_send (session_chan E) (s_tx (snd p)) f of
               None \<Rightarrow> snd p | Some c \<Rightarrow> (snd p)\<lparr>s_tx := c\<rparr>)"

lemma deliver_keeps [simp]:
  "fst (deliver E f p) = fst p" "s_seq (snd (deliver E f p)) = s_seq (snd p)"
  "s_since (snd (deliver E f p)) = s_since (snd p)"
  by (simp_all add: deliver_def split: option.splits)

lemma broadcast_eq [simp]:
  "fst (broadcast E r f ss) = map (deliver E f) ss"
  "fst (snd (broadcast E r f ss)) = length (filter (refuses E f) ss)"
  by (induction E r f ss rule: broadcast.induct)
     (auto simp: deliver_def refuses_def split: prod.splits option.splits)

lemma on_tnc_frame [simp]:
  "sessions (on_tnc E (TncFrame (generation r) f) r) = map (deliver E f) (sessions r)"
  "cnt (on_tnc E (TncFrame (generation r) f) r) =
     (cnt r)\<lparr>c_frames_down := c_frames_down (cnt r) + 1,
              c_dropped := c_dropped (cnt r) + of_nat (length (filter (refuses E f) (sessions r)))\<rparr>"
  "next_seq (on_tnc E (TncFrame (generation r) f) r) = next_seq r"
  "link (on_tnc E (TncFrame (generation r) f) r) = link r"
  "writer_tx (on_tnc E (TncFrame (generation r) f) r) = writer_tx r"
  "pending (on_tnc E (TncFrame (generation r) f) r) = pending r"
  "generation (on_tnc E (TncFrame (generation r) f) r) = generation r"
  "held (on_tnc E (TncFrame (generation r) f) r) = held r"
  "settings (on_tnc E (TncFrame (generation r) f) r) = settings r"
  "idle_timer (on_tnc E (TncFrame (generation r) f) r) = idle_timer r"
  by (simp_all add: Let_def case_prod_beta count_dropped_def)

lemma on_tnc_stale [simp]:
  "g \<noteq> generation r \<Longrightarrow> on_tnc E (TncFrame g f) r = r" "g \<noteq> generation r \<Longrightarrow> on_tnc E (TncClosed g e) r = r"
  by simp_all

declare on_tnc.simps(1) [simp del]

lemma session_inv_opened:
  assumes "session_inv r"
  shows "session_inv (store_session_count (r\<lparr>next_seq := next_seq r + 1,
           sessions := AList.update i \<lparr>s_tx = c, s_seq = next_seq r + 1, s_since = t\<rparr> (sessions r)\<rparr>))"
proof -
  let ?K = "AList.update i (next_seq r + 1) (roster r)"
  have fresh: "next_seq r + 1 \<notin> snd ` set (roster r)"
    using assms by (auto simp: session_inv_def)
  have "snd ` set ?K \<subseteq> insert (next_seq r + 1) (snd ` set (roster r))"
    using set_update_subset [of i "next_seq r + 1" "roster r"] by force
  with assms have "\<forall>n \<in> snd ` set ?K. n \<le> next_seq r + 1" by (fastforce simp: session_inv_def)
  moreover have "distinct (map snd ?K)" "distinct (map fst ?K)"
    using assms fresh by (simp_all add: session_inv_def distinct_snd_update distinct_update)
  ultimately show ?thesis
    by (simp add: session_inv_def store_session_count_def roster_def map_value_update)
qed

lemma session_inv_closed:
  "session_inv r \<Longrightarrow> session_inv (store_session_count (r\<lparr>sessions := AList.delete i (sessions r)\<rparr>))"
  by (auto simp: session_inv_def store_session_count_def roster_def map_value_delete [symmetric]
      dest: in_set_conv_nth [THEN iffD1] intro!: distinct_map_delete)
     (auto simp: AList.delete_eq comp_def distinct_map_filter)

lemma session_inv_on_app:
  assumes "session_inv r"
  shows "session_inv (on_app E ev r)"
proof (cases ev)
  case (SessionOpened i c)
  let ?s = "\<lparr>s_tx = c, s_seq = next_seq r + 1, s_since = clock r\<rparr>"
  have "session_inv (on_app E ev r) =
      session_inv (store_session_count (r\<lparr>next_seq := next_seq r + 1, sessions := AList.update i ?s (sessions r)\<rparr>))"
    using SessionOpened
    by (intro session_inv_cong) (auto simp: Let_def roster_def store_session_count_def)
  with session_inv_opened [OF assms] show ?thesis by blast
next
  case (SessionClosed i)
  let ?r1 = "if map_of (sessions r) i \<noteq> None then r\<lparr>sessions := AList.delete i (sessions r)\<rparr> else r"
  have "session_inv (on_app E ev r) = session_inv (store_session_count ?r1)"
    using SessionClosed
    by (intro session_inv_cong) (auto simp: Let_def roster_def store_session_count_def)
  with session_inv_closed [OF assms, of i] assms show ?thesis
    by (auto simp: session_inv_def store_session_count_def roster_def)
next
  case (AppFrame i f)
  then have "session_inv (on_app E ev r) = session_inv r"
    by (intro session_inv_cong) (auto simp: Let_def roster_def split: verdict.splits)
  with assms show ?thesis by simp
qed

lemma session_inv_on_cmd: "session_inv (on_cmd E c r) = session_inv r"
  by (rule session_inv_cong; cases c)
     (auto simp: Let_def apply_settings_def roster_def split: option.splits)

lemma session_inv_on_link: "session_inv (on_link E ev r) = session_inv r"
  by (rule session_inv_cong; cases "(E, ev, r)" rule: on_link.cases)
     (auto simp: Let_def roster_def split: error.splits)

lemma session_inv_on_tnc: "session_inv (on_tnc E ev r) = session_inv r"
proof (cases ev)
  case (TncFrame g f)
  have "session_inv (on_tnc E (TncFrame (generation r) f) r) = session_inv r"
    by (rule session_inv_cong) (simp_all add: roster_def)
  with TncFrame show ?thesis by (cases "g = generation r") simp_all
next
  case (TncClosed g e)
  then show ?thesis by (intro session_inv_cong) (auto simp: Let_def roster_def)
qed

lemma session_inv_step:
  assumes "bridge_step E wc a r r'" and "session_inv r"
  shows "session_inv r'"
  using assms
proof (induction rule: bridge_step.induct)
  case (step_session r i s c)
  have "roster (r\<lparr>sessions := AList.update i (s\<lparr>s_tx := c\<rparr>) (sessions r)\<rparr>) = roster r"
    using step_session.hyps by (simp add: roster_def map_update_same)
  then have "session_inv (r\<lparr>sessions := AList.update i (s\<lparr>s_tx := c\<rparr>) (sessions r)\<rparr>) = session_inv r"
    by (rule session_inv_cong) simp_all
  with step_session.prems show ?case by simp
qed (simp_all only: session_inv_on_app session_inv_on_cmd session_inv_on_tnc session_inv_on_link,
     simp_all add: on_idle_elapsed_def Let_def session_inv_def roster_def)

lemma reachable_session_inv: "reachable E wc ok r \<Longrightarrow> session_inv r"
proof (induction rule: reachable.induct)
  case (reach_start i conn st h t)
  show ?case by (simp add: start_main_def initial_run_def session_inv_def roster_def)
next
  case (reach_step r a r')
  then show ?case by (blast intro: session_inv_step)
qed

end
