(* ===== verification/Bridge_Properties.thy ===== *)
theory Bridge_Properties
  imports Bridge_Invariants
begin

text \<open>
  What the bridge promises, on top of its invariants: what may reach the TNC, who gets what the
  TNC sends, what happens to frames that arrive before the link is up, and when the link is up.
\<close>

section \<open>What reaches the TNC\<close>

definition msg_ok :: "writer_msg \<Rightarrow> bool" where
  "msg_ok m = (case m of W_Frame f \<Rightarrow> forwardable f | W_ExitKiss _ \<Rightarrow> True)"

definition released :: "('c, 'w) run \<Rightarrow> 'w set" where
  "released r = {w. Release_writer w \<in> set (effects r)}"

text \<open>Everything on its way to the TNC has passed the filter: the frames that wait for the link,
  the writer's queue, and the queues of writers that were let go.\<close>

definition uplink_inv :: "('w \<Rightarrow> writer_msg list) \<Rightarrow> ('c, 'w) run \<Rightarrow> bool" where
  "uplink_inv wc r \<longleftrightarrow>
     list_all (\<lambda>p. forwardable (fst (snd p))) (pending r) \<and>
     (\<forall>w \<in> set_option (writer_tx r) \<union> released r. list_all msg_ok (wc w))"

lemma uplink_inv_cong:
  "pending r = pending r' \<Longrightarrow> writer_tx r = writer_tx r' \<Longrightarrow> released r = released r' \<Longrightarrow>
   uplink_inv wc r = uplink_inv wc r'"
  by (simp add: uplink_inv_def)

lemma released_emit [simp]:
  "released (emit e r) = (case e of Release_writer w \<Rightarrow> insert w (released r) | _ \<Rightarrow> released r)"
  by (auto simp: released_def emit_def split: effect.splits)

lemma released_simple [simp]:
  "released (set_state s r) = released r" "released (count_up r) = released r"
  "released (count_dropped n r) = released r" "released (start_connect r) = released r"
  "released (start_wait k why r) = released r" "released (start_backoff r) = released r"
  "released (queue_pending f frm r) = released r" "released (store_session_count r) = released r"
  by (auto simp: set_state_def count_up_def count_dropped_def start_connect_def start_wait_def
      start_backoff_def queue_pending_def store_session_count_def Let_def emit_if_def emit_def released_def
      split: wait.splits)

lemma released_fields [simp]:
  "released (r\<lparr>pending := p\<rparr>) = released r" "released (r\<lparr>writer_tx := wo\<rparr>) = released r"
  "released (r\<lparr>link := l\<rparr>) = released r" "released (r\<lparr>sessions := ss\<rparr>) = released r"
  "released (r\<lparr>idle_timer := t\<rparr>) = released r" "released (r\<lparr>settings := st\<rparr>) = released r"
  "released (r\<lparr>held := h\<rparr>) = released r" "released (r\<lparr>generation := g\<rparr>) = released r"
  "released (r\<lparr>waiting := wt\<rparr>) = released r" "released (r\<lparr>cnt := k\<rparr>) = released r"
  "released (r\<lparr>attempt := a\<rparr>) = released r" "released (r\<lparr>connector := c\<rparr>) = released r"
  "released (r\<lparr>next_seq := q\<rparr>) = released r" "released (r\<lparr>clock := t'\<rparr>) = released r"
  "released (r\<lparr>hub := hv\<rparr>) = released r" "released (r\<lparr>link_start := ls\<rparr>) = released r"
  "released (r\<lparr>exit_kiss := ek\<rparr>) = released r"
  by (simp_all add: released_def)

lemma released_emit_if [simp]:
  "(\<And>w. e \<noteq> Release_writer w) \<Longrightarrow> released (emit_if b e r) = released r"
  by (auto simp: emit_if_def split: effect.splits)

lemma broadcast_releases_nothing [simp]: "Release_writer w \<notin> set (snd (snd (broadcast E r f ss)))"
  by (induction E r f ss rule: broadcast.induct) (auto split: prod.splits option.splits)

text \<open>What the bridge relies on of its environment: the writer's queue is a bounded channel.\<close>

locale bridge_env = wch: bounded_channel "writer_chan E" wc live
  for E :: "('c, 'w) env" and wc :: "'w \<Rightarrow> writer_msg list" and live :: "'w \<Rightarrow> bool"
begin

lemma uplink_inv_disconnect: "uplink_inv wc r \<Longrightarrow> uplink_inv wc (snd (disconnect E r))"
  by (auto simp: disconnect_def Let_def uplink_inv_def msg_ok_def split: tnc_link.splits option.splits
      dest!: wch.send_contents)

lemma uplink_inv_close: "uplink_inv wc r \<Longrightarrow> uplink_inv wc (close E r)"
  using uplink_inv_disconnect [of r] by (simp add: close_eq uplink_inv_def)

lemma uplink_inv_queue:
  "uplink_inv wc r \<Longrightarrow> forwardable f \<Longrightarrow> uplink_inv wc (queue_pending f frm r)"
  by (cases "pending r") (auto simp: uplink_inv_def pending_queue_pending)

lemma uplink_inv_uplink:
  assumes "uplink_inv wc r" and "forwardable f"
  shows "uplink_inv wc (uplink E f frm r)"
proof (cases "link r")
  case L_Connected
  with assms show ?thesis
    by (auto simp: uplink_def Let_def uplink_inv_def msg_ok_def split: option.splits bind_splits
        dest!: wch.send_contents)
next
  case L_Idle
  with uplink_inv_queue [OF assms, of frm] assms(1) show ?thesis
    by (auto simp: uplink_def uplink_inv_def)
qed (use uplink_inv_queue [OF assms, of frm] in \<open>simp_all add: uplink_def\<close>)

lemma uplink_inv_flush:
  "uplink_inv wc r \<Longrightarrow> list_all (\<lambda>p. forwardable (fst (snd p))) ps \<Longrightarrow> uplink_inv wc (flush_pending E ps r)"
proof (induction ps arbitrary: r)
  case Nil
  then show ?case by simp
next
  case (Cons p ps)
  obtain at f frm where p: "p = (at, f, frm)" by (cases p) auto
  have "uplink_inv wc (count_dropped 1 r)" using Cons.prems by (simp add: uplink_inv_def)
  with Cons p uplink_inv_uplink [of r f frm] show ?case by simp
qed

lemma uplink_inv_on_app:
  assumes "uplink_inv wc r"
  shows "uplink_inv wc (on_app E ev r)"
proof (cases ev)
  case (SessionOpened i c)
  then have "uplink_inv wc (on_app E ev r) = uplink_inv wc r"
    by (intro uplink_inv_cong) (simp_all add: Let_def)
  with assms show ?thesis by simp
next
  case (SessionClosed i)
  define r2 where "r2 = store_session_count
     (if map_of (sessions r) i \<noteq> None
      then emit_if (hub r \<noteq> None) (Hub_state ''session'' (session_object r i) ''closed'')
             (r\<lparr>sessions := AList.delete i (sessions r)\<rparr>)
      else r)"
  have "uplink_inv wc r2" using assms by (simp add: r2_def uplink_inv_def)
  moreover have "on_app E ev r =
     (if sessions r2 = [] \<and> \<not> wants_link r2
      then if ts_idle_timeout (settings r2) = 0 then close E r2
           else r2\<lparr>idle_timer := Some (ts_idle_timeout (settings r2))\<rparr>
      else r2)"
    by (simp only: SessionClosed on_app.simps Let_def r2_def)
  ultimately show ?thesis using uplink_inv_close [of r2] by (simp add: uplink_inv_def)
next
  case (AppFrame i f)
  let ?r1 = "emit_if (hub_wants_activity r) (Hub_activity (session_object r i) Rx (length f)) r"
  have "uplink_inv wc ?r1" "uplink_inv wc (count_dropped 1 ?r1)" "uplink_inv wc (count_dropped 1 r)"
    using assms by (simp_all add: uplink_inv_def)
  with AppFrame uplink_inv_uplink [of ?r1 f "Some i"] show ?thesis
    by (auto simp: Let_def dest: filter_pass_forwardable split: verdict.splits)
qed

lemma uplink_inv_on_cmd:
  assumes "uplink_inv wc r"
  shows "uplink_inv wc (on_cmd E c r)"
proof -
  have upd: "uplink_inv wc (close E (r\<lparr>settings := st\<rparr>))"
    "uplink_inv wc (close E (r\<lparr>held := h, idle_timer := t\<rparr>))" for st h t
    using assms by (intro uplink_inv_close, simp add: uplink_inv_def)+
  with assms uplink_inv_close [OF assms] show ?thesis
    by (cases c) (auto simp: Let_def apply_settings_def uplink_inv_def split: option.splits)
qed

lemma uplink_inv_on_tnc:
  assumes "uplink_inv wc r"
  shows "uplink_inv wc (on_tnc E ev r)"
proof (cases ev)
  case (TncFrame g f)
  have "released (on_tnc E (TncFrame (generation r) f) r) = released r"
    by (auto simp: on_tnc.simps Let_def case_prod_beta released_def emit_if_def emit_def)
  then have "uplink_inv wc (on_tnc E (TncFrame (generation r) f) r) = uplink_inv wc r"
    by (intro uplink_inv_cong) simp_all
  with TncFrame assms show ?thesis by (cases "g = generation r") simp_all
next
  case (TncClosed g e)
  with assms show ?thesis by (auto simp: Let_def uplink_inv_def)
qed

lemma uplink_inv_on_link:
  assumes "uplink_inv wc r"
  shows "uplink_inv wc (on_link E ev r)"
proof (cases "(E, ev, r)" rule: on_link.cases)
  case (1 E' op r')
  define r3 where "r3 = set_state T_Connected (r\<lparr>waiting := None, exit_kiss := op_exit_kiss op, link := L_Connected,
      writer_tx := Some (channel (writer_chan E) WRITER_QUEUE), attempt := 0,
      cnt := (cnt r)\<lparr>c_tnc_connects := c_tnc_connects (cnt r) + 1\<rparr>,
      link_start := (c_frames_up (cnt r), c_frames_down (cnt r))\<rparr>)"
  have "uplink_inv wc (r3\<lparr>pending := []\<rparr>)" and p: "pending r3 = pending r"
    using assms by (auto simp: r3_def uplink_inv_def wch.channel_empty WRITER_QUEUE_def)
  then have "uplink_inv wc (flush_pending E (pending r3) (r3\<lparr>pending := []\<rparr>))"
    using assms by (intro uplink_inv_flush) (simp_all add: uplink_inv_def)
  with 1 uplink_inv_close show ?thesis by (simp add: Let_def r3_def)
next
  case (2 E' e r')
  with assms show ?thesis by (cases e) (auto simp: Let_def uplink_inv_def)
next
  case (3 E' r')
  with assms show ?thesis by (auto simp: Let_def uplink_inv_def)
qed

lemma uplink_inv_step:
  assumes "bridge_step E wc a r r'" and "uplink_inv wc r"
  shows "uplink_inv wc r'"
  using assms
proof (induction rule: bridge_step.induct)
  case (step_writer r w received w')
  then show ?case by (auto simp: uplink_inv_def)
next
  case (step_idle r)
  have "uplink_inv wc (r\<lparr>idle_timer := None\<rparr>)" using step_idle by (simp add: uplink_inv_def)
  then show ?case using uplink_inv_close by (simp add: on_idle_elapsed_def Let_def)
qed (simp_all only: uplink_inv_on_app uplink_inv_on_cmd uplink_inv_on_tnc uplink_inv_on_link,
     simp_all add: uplink_inv_def)

lemma reachable_uplink_inv: "reachable E wc ok r \<Longrightarrow> uplink_inv wc r"
proof (induction rule: reachable.induct)
  case (reach_start i conn st h t)
  show ?case by (simp add: start_main_def initial_run_def uplink_inv_def) (simp add: released_def)
next
  case (reach_step r a r')
  then show ?case by (blast intro: uplink_inv_step)
qed

end

section \<open>Running a bridge on concrete inputs\<close>

text \<open>The select loop on a list of inputs, each refused (\<open>None\<close>) when its arm would not be
  polled. Examples evaluate it; every run it returns is a run of the step relation.\<close>

fun exec_act :: "('c, 'w) env \<Rightarrow> 'c act \<Rightarrow> ('c, 'w) run \<Rightarrow> ('c, 'w) run option" where
  "exec_act E (A_App ev) r = (if app_ready E r then Some (on_app E ev r) else None)"
| "exec_act E (A_Tnc ev) r = Some (on_tnc E ev r)"
| "exec_act E (A_Cmd c) r = Some (on_cmd E c r)"
| "exec_act E (A_Link (Connected res)) r =
     (if link r = L_Connecting then Some (on_link E (Connected res) r) else None)"
| "exec_act E (A_Link BackoffOver) r =
     (case link r of L_Backoff d \<Rightarrow> Some (on_link E BackoffOver r) | _ \<Rightarrow> None)"
| "exec_act E A_Idle r = (if idle_timer r \<noteq> None then Some (on_idle_elapsed E r) else None)"
| "exec_act E A_Env r = None"

fun exec_acts :: "('c, 'w) env \<Rightarrow> 'c act list \<Rightarrow> ('c, 'w) run \<Rightarrow> ('c, 'w) run option" where
  "exec_acts E [] r = Some r"
| "exec_acts E (a # as) r = Option.bind (exec_act E a r) (exec_acts E as)"

lemma exec_act_step: "exec_act E a r = Some r' \<Longrightarrow> bridge_step E wc a r r'"
  by (cases "(E, a, r)" rule: exec_act.cases)
     (auto intro: bridge_step.intros simp del: on_link.simps on_app.simps on_cmd.simps on_tnc.simps
        split: if_splits tnc_link.splits)

lemma exec_acts_reachable:
  "exec_acts E as r = Some r' \<Longrightarrow> reachable E wc (\<lambda>_ _. True) r \<Longrightarrow> reachable E wc (\<lambda>_ _. True) r'"
proof (induction as arbitrary: r)
  case Nil
  then show ?case by simp
next
  case (Cons a as)
  then obtain r1 where "exec_act E a r = Some r1" "exec_acts E as r1 = Some r'"
    by (auto simp: bind_eq_Some_conv)
  moreover have "reachable E wc (\<lambda>_ _. True) r1"
    using reach_step [OF Cons.prems(2) _ exec_act_step [OF calculation(1)]] by simp
  ultimately show ?case by (intro Cons.IH)
qed

definition ex_env :: "(frame list \<times> nat, writer_msg list \<times> nat) env" where
  "ex_env = \<lparr>session_chan = list_chan, writer_chan = list_chan\<rparr>"

definition ex_settings :: "connect_policy \<Rightarrow> millis \<Rightarrow> tnc_settings" where
  "ex_settings p t = \<lparr>ts_port_id = ''radio'', ts_connect = p, ts_idle_timeout = t,
     ts_app_params = Params_Pass, ts_exit_kiss_on_disconnect = True\<rparr>"

definition ex_start :: "connect_policy \<Rightarrow> (frame list \<times> nat, writer_msg list \<times> nat) run" where
  "ex_start p = start_main (initial_run ''ktbr0'' ''tcp'' (ex_settings p 0) None 0)"

definition ex_phone :: session_id where
  "ex_phone = \<lparr>sid_port = ''phones'', sid_peer = ''a''\<rparr>"

definition ex_open :: "(frame list \<times> nat) act" where
  "ex_open = A_App (SessionOpened ex_phone ([], 64))"

definition ex_connected :: "(frame list \<times> nat) act" where
  "ex_connected = A_Link (Connected (Inr \<lparr>op_exit_kiss = [[192, 255, 192]]\<rparr>))"

lemmas ex_defs = ex_env_def ex_settings_def ex_start_def ex_phone_def ex_open_def ex_connected_def
  initial_run_def start_main_def list_chan_def

lemmas run_eval = Let_def start_connect_def start_backoff_def start_wait_def set_state_def emit_def
  emit_if_def count_up_def count_dropped_def store_session_count_def queue_pending_def uplink_def
  disconnect_def close_def wants_link_def app_ready_def hub_wants_activity_def hub_wants_frames_def
  tnc_object_def session_object_def show_session_id_def apply_settings_def on_idle_elapsed_def
  on_tnc.simps filter_app_frame_def cmd_defs WRITER_QUEUE_def UPLINK_QUEUE_FRAMES_def UPLINK_QUEUE_AGE_def

interpretation ex: bridge_env ex_env fst "\<lambda>_. True"
  unfolding ex_env_def by (simp add: bridge_env_def lc.bounded_channel_axioms)

lemma ex_start_reachable: "reachable ex_env wc (\<lambda>_ _. True) (ex_start p)"
  unfolding ex_start_def by (rule reach_start)

section \<open>Properties: what reaches the TNC\<close>



end
