(* ===== verification/Bridge_Behaviour.thy ===== *)
theory Bridge_Behaviour
  imports Bridge_Properties "HOL-Library.Multiset"
begin

text \<open>
  The bridge's observable behaviour, operation by operation: accounting of frames, delivery in
  both directions, teardown, fencing of dead links, and when the link is up.
\<close>

section \<open>Accounting\<close>

text \<open>Every frame an app session hands over is forwarded, counted as dropped, or waiting.\<close>

definition accounted :: "('c, 'w) run \<Rightarrow> u64" where
  "accounted r = c_frames_up (cnt r) + c_dropped (cnt r) + of_nat (length (pending r))"

lemma accounted_cong: "cnt r = cnt r' \<Longrightarrow> pending r = pending r' \<Longrightarrow> accounted r = accounted r'"
  by (simp add: accounted_def)

lemma accounted_simple [simp]:
  "accounted (emit_if b e r) = accounted r" "accounted (start_connect r) = accounted r"
  "accounted (set_state st r) = accounted r"
  "accounted (count_up r) = accounted r + 1" "accounted (count_dropped n r) = accounted r + of_nat n"
  "accounted (r\<lparr>writer_tx := w\<rparr>) = accounted r"
  by (simp_all add: accounted_def count_up_def count_dropped_def)

lemma accounted_queue [simp]: "accounted (queue_pending f frm r) = accounted r + 1"
  by (cases "pending r")
     (auto simp: queue_pending_def Let_def accounted_def count_dropped_def UPLINK_QUEUE_FRAMES_def)

lemma accounted_uplink [simp]: "accounted (uplink E f frm r) = accounted r + 1"
  by (simp add: uplink_def Let_def split: tnc_link.splits option.splits)

text \<open>C11: every frame from an app, whatever session it names and whatever the state of the link, is
  accounted for exactly once: forwarded to the writer, counted as dropped, or queued for the
  link (a frame it pushes out of the full queue is counted as dropped).\<close>

theorem app_frame_accounted: "accounted (on_app E (AppFrame i f) r) = accounted r + 1"
  by (simp add: Let_def split: verdict.splits)

section \<open>Delivery\<close>

lemma uplink_sessions: "sessions (on_app E (AppFrame i f) r) = sessions r"
  by (simp add: Let_def split: verdict.splits)

text \<open>C12: forwarding follows roles. A frame from the live TNC link is offered once to every
  session and to nobody else (the writer's queue and the waiting frames stay as they are); the
  sessions that could not take it are counted as dropped. A frame from an app changes no
  session, so nothing goes from app to app.\<close>

theorem forwarding_follows_roles:
  "sessions (on_tnc E (TncFrame (generation r) f) r) = map (deliver E f) (sessions r) \<and>
   c_dropped (cnt (on_tnc E (TncFrame (generation r) f) r)) =
     c_dropped (cnt r) + of_nat (length (filter (refuses E f) (sessions r))) \<and>
   c_frames_down (cnt (on_tnc E (TncFrame (generation r) f) r)) = c_frames_down (cnt r) + 1 \<and>
   writer_tx (on_tnc E (TncFrame (generation r) f) r) = writer_tx r \<and>
   pending (on_tnc E (TncFrame (generation r) f) r) = pending r \<and>
   sessions (on_app E (AppFrame i f) r) = sessions r"
  by (simp add: uplink_sessions del: on_app.simps)

context bridge_env
begin

lemma uplink_to_writer:
  assumes "link r = L_Connected" and "writer_tx r = Some w" and "live w" and "0 < capacity (writer_chan E) w"
  shows "\<exists>w'. writer_tx (uplink E f frm r) = Some w' \<and> wc w' = wc w @ [W_Frame f] \<and> live w'
           \<and> capacity (writer_chan E) w = Suc (capacity (writer_chan E) w')
           \<and> cnt (uplink E f frm r) = (cnt r)\<lparr>c_frames_up := c_frames_up (cnt r) + 1\<rparr>"
proof -
  obtain w' where w': "try_send (writer_chan E) w (W_Frame f) = Some w'"
    using wch.send_accepts [OF assms(3,4)] by fastforce
  with assms show ?thesis
    using wch.send_contents [OF w'] wch.send_capacity [OF w'] wch.send_live [OF w']
    by (simp add: uplink_def Let_def count_up_def)
qed

text \<open>Flushing the waiting frames into a writer with room for all of them.\<close>

lemma flush_pending_to_writer:
  assumes "link r = L_Connected" and "writer_tx r = Some w" and "live w"
    and "length ps \<le> capacity (writer_chan E) w"
  shows "\<exists>w'. writer_tx (flush_pending E ps r) = Some w' \<and>
     wc w' = wc w @ map (\<lambda>p. W_Frame (fst (snd p))) (filter (\<lambda>p. clock r \<le> fst p + UPLINK_QUEUE_AGE) ps) \<and>
     cnt (flush_pending E ps r) = (cnt r)
       \<lparr>c_frames_up := c_frames_up (cnt r) + of_nat (length (filter (\<lambda>p. clock r \<le> fst p + UPLINK_QUEUE_AGE) ps)),
        c_dropped := c_dropped (cnt r) + of_nat (length (filter (\<lambda>p. fst p + UPLINK_QUEUE_AGE < clock r) ps))\<rparr>"
  using assms
proof (induction ps arbitrary: r w)
  case Nil
  then show ?case by simp
next
  case (Cons p ps)
  obtain at f frm where p: "p = (at, f, frm)" by (cases p) auto
  show ?case
  proof (cases "at + UPLINK_QUEUE_AGE < clock r")
    case True
    have "cnt (count_dropped 1 r) = (cnt r)\<lparr>c_dropped := c_dropped (cnt r) + 1\<rparr>"
      by (simp add: count_dropped_def)
    with Cons.IH [of "count_dropped 1 r" w] Cons.prems p True show ?thesis by (auto simp: algebra_simps)
  next
    case False
    obtain w1 where w1: "writer_tx (uplink E f frm r) = Some w1" "wc w1 = wc w @ [W_Frame f]" "live w1"
      "capacity (writer_chan E) w = Suc (capacity (writer_chan E) w1)"
      "cnt (uplink E f frm r) = (cnt r)\<lparr>c_frames_up := c_frames_up (cnt r) + 1\<rparr>"
      using uplink_to_writer [OF Cons.prems(1-3), of f frm] Cons.prems(4) by auto
    with Cons.IH [of "uplink E f frm r" w1] Cons.prems p False show ?thesis
      by (auto simp: algebra_simps)
  qed
qed

end

text \<open>C14: when the link comes up, the frames that waited for it go to the new writer in the order
  they arrived, except those older than the age limit, which are counted as dropped; none is
  lost to the writer's queue, and nothing is left waiting.\<close>

theorem connect_flushes_pending:
  assumes "bridge_env E wc live" and "reachable E wc (\<lambda>_ _. True) r"
    and "link r = L_Connecting" and "wants_link r"
  shows "\<exists>w. writer_tx (on_link E (Connected (Inr op)) r) = Some w \<and>
     wc w = map (\<lambda>p. W_Frame (fst (snd p))) (filter (\<lambda>p. clock r \<le> fst p + UPLINK_QUEUE_AGE) (pending r)) \<and>
     pending (on_link E (Connected (Inr op)) r) = [] \<and>
     accounted (on_link E (Connected (Inr op)) r) = accounted r"
proof -
  define r3 where "r3 = (set_state T_Connected (r\<lparr>waiting := None, exit_kiss := op_exit_kiss op, link := L_Connected,
      writer_tx := Some (channel (writer_chan E) WRITER_QUEUE), attempt := 0,
      cnt := (cnt r)\<lparr>c_tnc_connects := c_tnc_connects (cnt r) + 1\<rparr>,
      link_start := (c_frames_up (cnt r), c_frames_down (cnt r))\<rparr>))\<lparr>pending := []\<rparr>"
  let ?r4 = "flush_pending E (pending r) r3"
  have inv: "link_inv r" using assms(2) by (rule reachable_link_inv)
  have chan: "bounded_channel (writer_chan E) wc live" using assms(1) by (simp add: bridge_env_def)
  have fresh: "wc (channel (writer_chan E) WRITER_QUEUE) = []" "live (channel (writer_chan E) WRITER_QUEUE)"
    "length (pending r) \<le> capacity (writer_chan E) (channel (writer_chan E) WRITER_QUEUE)"
    using bounded_channel.channel_empty [OF chan] bounded_channel.channel_live [OF chan]
      bounded_channel.channel_capacity [OF chan] inv
    by (simp_all add: WRITER_QUEUE_def link_inv_def UPLINK_QUEUE_FRAMES_def)
  have r3: "link r3 = L_Connected" "writer_tx r3 = Some (channel (writer_chan E) WRITER_QUEUE)"
    "clock r3 = clock r" "pending r3 = []" "link_inv r3"
    "cnt r3 = (cnt r)\<lparr>c_tnc_connects := c_tnc_connects (cnt r) + 1\<rparr>"
    by (simp_all add: r3_def link_inv_def state_agrees_def)
  have "wants_link ?r4 = wants_link r"
    by (rule wants_link_cong) (simp_all add: r3_def)
  then have res: "on_link E (Connected (Inr op)) r = ?r4"
    using assms(4) by (simp add: Let_def r3_def)
  have "length (filter (\<lambda>p. clock r \<le> fst p + UPLINK_QUEUE_AGE) (pending r)) +
      length (filter (\<lambda>p. fst p + UPLINK_QUEUE_AGE < clock r) (pending r)) = length (pending r)"
    using sum_length_filter_compl [of "\<lambda>p. clock r \<le> fst p + UPLINK_QUEUE_AGE" "pending r"]
    by (simp add: not_le)
  then have split: "of_nat (length (filter (\<lambda>p. clock r \<le> fst p + UPLINK_QUEUE_AGE) (pending r))) +
      of_nat (length (filter (\<lambda>p. fst p + UPLINK_QUEUE_AGE < clock r) (pending r))) = (of_nat (length (pending r)) :: u64)"
    by (simp only: of_nat_add [symmetric])
  let ?fresh = "filter (\<lambda>p. clock r \<le> fst p + UPLINK_QUEUE_AGE) (pending r)"
  let ?stale = "filter (\<lambda>p. fst p + UPLINK_QUEUE_AGE < clock r) (pending r)"
  obtain w where w: "writer_tx ?r4 = Some w" "wc w = map (\<lambda>p. W_Frame (fst (snd p))) ?fresh"
    and cnt4: "cnt ?r4 = (cnt r3)\<lparr>c_frames_up := c_frames_up (cnt r3) + of_nat (length ?fresh),
        c_dropped := c_dropped (cnt r3) + of_nat (length ?stale)\<rparr>"
    using bridge_env.flush_pending_to_writer [OF assms(1) r3(1,2) fresh(2,3)]
    unfolding fresh(1) r3(3) by auto
  have p4: "pending ?r4 = []" using flush_pending_link [OF r3(5,1), of E "pending r"] r3(4) by simp
  have "accounted ?r4 = c_frames_up (cnt r) + c_dropped (cnt r) + (of_nat (length ?fresh) + of_nat (length ?stale))"
    by (simp add: accounted_def p4 cnt4 r3(6) algebra_simps)
  then have "accounted ?r4 = accounted r" unfolding split by (simp add: accounted_def)
  with w p4 show ?thesis unfolding res by blast
qed

theorem connect_flushes_pending_witness:
  "\<exists>r w. exec_acts ex_env [ex_open, A_App (AppFrame ex_phone [0, 1]), A_App (AppFrame ex_phone [0, 2])]
       (ex_start OnDemand) = Some r
     \<and> writer_tx (on_link ex_env (Connected (Inr \<lparr>op_exit_kiss = []\<rparr>)) r) = Some w
     \<and> fst w = [W_Frame [0, 1], W_Frame [0, 2]]"
proof -
  let ?as = "[ex_open, A_App (AppFrame ex_phone [0, 1]), A_App (AppFrame ex_phone [0, 2])]"
  obtain r where r: "exec_acts ex_env ?as (ex_start OnDemand) = Some r" and l: "link r = L_Connecting"
    "wants_link r" "clock r = 0" "map (\<lambda>p. fst (snd p)) (pending r) = [[0, 1], [0, 2]]"
    by (simp add: ex_defs run_eval)
  have reach: "reachable ex_env fst (\<lambda>_ _. True) r"
    using exec_acts_reachable [OF r ex_start_reachable] .
  have "map (\<lambda>p. W_Frame (fst (snd p))) (pending r) = map W_Frame (map (\<lambda>p. fst (snd p)) (pending r))"
    by simp
  then have "map (\<lambda>p. W_Frame (fst (snd p))) (pending r) = [W_Frame [0, 1], W_Frame [0, 2]]"
    using l(4) by simp
  with connect_flushes_pending [OF ex.bridge_env_axioms reach l(1,2), of "\<lparr>op_exit_kiss = []\<rparr>"] l(3) r
  show ?thesis by auto
qed

text \<open>C13: while the link is up, an app frame that passes the filter is appended to the writer's
  queue: the select loop takes app events only while the writer has room, so a burst is held
  back and not dropped.\<close>

theorem app_frame_never_dropped_while_up:
  assumes "bridge_env E wc live" and "reachable E wc (\<lambda>_ _. True) r" and "app_ready E r"
    and "writer_tx r = Some w" and "live w" and "map_of (sessions r) i \<noteq> None"
    and "filter_app_frame f (ts_app_params (settings r)) = Pass"
  shows "\<exists>w'. writer_tx (on_app E (AppFrame i f) r) = Some w' \<and> wc w' = wc w @ [W_Frame f] \<and>
     c_dropped (cnt (on_app E (AppFrame i f) r)) = c_dropped (cnt r) \<and>
     c_frames_up (cnt (on_app E (AppFrame i f) r)) = c_frames_up (cnt r) + 1"
proof -
  let ?r1 = "emit_if (hub_wants_activity r) (Hub_activity (session_object r i) Rx (length f)) r"
  have "link ?r1 = L_Connected" "writer_tx ?r1 = Some w" "0 < capacity (writer_chan E) w"
    using reachable_link_inv [OF assms(2)] assms(3,4) by (auto simp: link_inv_def app_ready_def)
  from bridge_env.uplink_to_writer [OF assms(1) this(1,2) assms(5) this(3), of f "Some i"] assms(6,7)
  show ?thesis by (auto simp: Let_def)
qed

theorem app_frame_never_dropped_while_up_witness:
  "\<exists>r w'. exec_acts ex_env [ex_open, ex_connected] (ex_start OnDemand) = Some r
     \<and> writer_tx (on_app ex_env (AppFrame ex_phone [0, 7]) r) = Some w' \<and> fst w' = [W_Frame [0, 7]]"
proof -
  obtain r where r: "exec_acts ex_env [ex_open, ex_connected] (ex_start OnDemand) = Some r"
    and l: "app_ready ex_env r" "writer_tx r = Some ([], 256)" "map_of (sessions r) ex_phone \<noteq> None"
      "filter_app_frame [0, 7] (ts_app_params (settings r)) = Pass"
    by (simp add: ex_defs run_eval)
  have "reachable ex_env fst (\<lambda>_ _. True) r"
    using exec_acts_reachable [OF r ex_start_reachable] .
  from app_frame_never_dropped_while_up [OF ex.bridge_env_axioms this l(1,2) TrueI l(3,4)] r
  show ?thesis by auto
qed

section \<open>Teardown and dead links\<close>

text \<open>closing a connected link on purpose lets its writer go with everything still queued, and
  with the way out of KISS mode behind it exactly when that is configured, known and fits in
  the queue; the bridge is then idle, nothing waits, and the link's generation is over.\<close>

theorem close_tears_down:
  assumes "bridge_env E wc live" and "link r = L_Connected" and "writer_tx r = Some w"
  shows "\<exists>w'. Release_writer w' \<in> set (effects (close E r)) \<and>
     wc w' = wc w @
       (if ts_exit_kiss_on_disconnect (settings r) \<and> exit_kiss r \<noteq> [] \<and>
           try_send (writer_chan E) w (W_ExitKiss (exit_kiss r)) \<noteq> None
        then [W_ExitKiss (exit_kiss r)] else []) \<and>
     link (close E r) = L_Idle \<and> writer_tx (close E r) = None \<and> pending (close E r) = [] \<and>
     state_tx (close E r) = T_Idle \<and> generation (close E r) = generation r + 1"
proof -
  have chan: "bounded_channel (writer_chan E) wc live" using assms(1) by (simp add: bridge_env_def)
  define w' where "w' = (if ts_exit_kiss_on_disconnect (settings r) \<and> exit_kiss r \<noteq> []
      then (case try_send (writer_chan E) w (W_ExitKiss (exit_kiss r)) of None \<Rightarrow> w | Some x \<Rightarrow> x) else w)"
  have "w' \<in> released (close E r)"
    using assms(2,3) by (simp add: close_eq disconnect_def Let_def w'_def)
  moreover have "wc w' = wc w @
       (if ts_exit_kiss_on_disconnect (settings r) \<and> exit_kiss r \<noteq> [] \<and>
           try_send (writer_chan E) w (W_ExitKiss (exit_kiss r)) \<noteq> None
        then [W_ExitKiss (exit_kiss r)] else [])"
    using bounded_channel.send_contents [OF chan] by (auto simp: w'_def split: option.splits)
  ultimately show ?thesis using assms(2) by (auto simp: released_def)
qed

theorem close_tears_down_witness:
  "\<exists>w'. Release_writer w' \<in> set (effects (close ex_env
       (the (exec_acts ex_env [ex_open, ex_connected, A_App (AppFrame ex_phone [0, 7])] (ex_start OnDemand)))))
     \<and> fst w' = [W_Frame [0, 7], W_ExitKiss [[192, 255, 192]]]"
proof -
  let ?r = "the (exec_acts ex_env [ex_open, ex_connected, A_App (AppFrame ex_phone [0, 7])] (ex_start OnDemand))"
  have l: "link ?r = L_Connected" "writer_tx ?r = Some ([W_Frame [0, 7]], 255)"
    "ts_exit_kiss_on_disconnect (settings ?r)" "exit_kiss ?r = [[192, 255, 192]]"
    by (simp_all add: ex_defs run_eval)
  have "try_send (writer_chan ex_env) ([W_Frame [0, 7]], 255) (W_ExitKiss [[192, 255, 192]]) \<noteq> None"
    by (simp add: ex_env_def list_chan_def)
  with close_tears_down [OF ex.bridge_env_axioms l(1,2)] l(3,4) show ?thesis by auto
qed

lemma generation_uplink: "generation r \<le> generation (uplink E f frm r)"
  by (simp add: uplink_def Let_def split: tnc_link.splits option.splits)

lemma generation_flush [simp]:
  "link r = L_Connected \<Longrightarrow> generation (flush_pending E ps r) = generation r"
  by (induction E ps r rule: flush_pending.induct)
     (simp_all add: uplink_def Let_def split: option.splits)

lemma generation_step:
  assumes "bridge_step E wc a r r'"
  shows "generation r \<le> generation r' \<and>
     (link r = L_Connected \<and> link r' \<noteq> L_Connected \<longrightarrow> generation r < generation r')"
  using assms
proof (induction rule: bridge_step.induct)
  case (step_app r ev)
  then show ?case
    by (cases ev) (auto simp: Let_def uplink_def split: verdict.splits tnc_link.splits option.splits)
next
  case (step_tnc ev r)
  then show ?case
  proof (cases ev)
    case (TncFrame g f)
    then show ?thesis by (cases "g = generation r") simp_all
  qed (auto simp: Let_def)
next
  case (step_cmd c r)
  then show ?case
    by (cases c) (auto simp: Let_def apply_settings_def split: option.splits)
next
  case (step_connected r res)
  then show ?case by (cases res) (auto simp: Let_def split: error.splits)
qed (auto simp: Let_def on_idle_elapsed_def)

text \<open>C15: once a link is gone (lost, closed, replaced), whatever its reader or writer task still
  reports is ignored, at any later time: its frames reach no session and its end changes
  nothing.\<close>

theorem dead_link_is_fenced:
  assumes "bridge_step E wc a r r'" and "link r = L_Connected" and "link r' \<noteq> L_Connected"
    and "(\<lambda>x y. \<exists>a. bridge_step E wc a x y)\<^sup>*\<^sup>* r' r''"
  shows "on_tnc E (TncFrame (generation r) f) r'' = r'' \<and> on_tnc E (TncClosed (generation r) e) r'' = r''"
proof -
  have "generation r < generation r'" using generation_step [OF assms(1)] assms(2,3) by simp
  moreover have "generation r' \<le> generation r''"
    using assms(4) by (induction rule: rtranclp_induct) (auto dest: generation_step)
  ultimately show ?thesis by simp
qed

theorem dead_link_is_fenced_witness:
  "\<exists>r r' r''. exec_acts ex_env [ex_open, ex_connected] (ex_start OnDemand) = Some r
     \<and> r' = on_app ex_env (SessionClosed ex_phone) r \<and> link r' = L_Idle
     \<and> r'' = on_app ex_env (SessionOpened ex_phone ([], 64)) r'
     \<and> on_tnc ex_env (TncFrame (generation r) [0, 1]) r'' = r''"
proof -
  let ?r = "the (exec_acts ex_env [ex_open, ex_connected] (ex_start OnDemand))"
  let ?r' = "on_app ex_env (SessionClosed ex_phone) ?r"
  let ?r'' = "on_app ex_env (SessionOpened ex_phone ([], 64)) ?r'"
  have r: "exec_acts ex_env [ex_open, ex_connected] (ex_start OnDemand) = Some ?r"
    "link ?r = L_Connected" "link ?r' = L_Idle" "app_ready ex_env ?r" "app_ready ex_env ?r'"
    by (simp_all add: ex_defs run_eval)
  have "bridge_step ex_env fst (A_App (SessionClosed ex_phone)) ?r ?r'"
    "bridge_step ex_env fst (A_App (SessionOpened ex_phone ([], 64))) ?r' ?r''"
    by (rule step_app, rule r)+
  note steps = this
  have ne: "link ?r' \<noteq> L_Connected" using r(3) by (simp only:) simp
  have st: "(\<lambda>x y. \<exists>a. bridge_step ex_env fst a x y)\<^sup>*\<^sup>* ?r' ?r''"
    using steps(2) by (intro r_into_rtranclp exI)
  from dead_link_is_fenced [OF steps(1) r(2) ne st] r(1,3) show ?thesis by blast
qed

section \<open>When the link is up\<close>

text \<open>Every step but a change of the \<open>connect\<close> policy while the link is held by \<open>port.connect\<close> or
  \<open>port.disconnect\<close>.\<close>

definition respects_hold :: "'c act \<Rightarrow> ('c, 'w) run \<Rightarrow> bool" where
  "respects_hold a r =
     (case a of
        A_Cmd (Settings new) \<Rightarrow> held r = None \<or> ts_connect new = ts_connect (settings r)
      | _ \<Rightarrow> True)"

definition wanted_inv :: "('c, 'w) run \<Rightarrow> bool" where
  "wanted_inv r \<longleftrightarrow> (wants_link r \<longrightarrow> link r \<noteq> L_Idle) \<and> (held r = Some False \<longrightarrow> link r = L_Idle)"

lemma wants_link_simps [simp]:
  "wants_link (start_connect r) = wants_link r" "wants_link (emit_if b e r) = wants_link r"
  "wants_link (emit e r) = wants_link r" "wants_link (count_dropped n r) = wants_link r"
  "wants_link (close E r) = wants_link r" "wants_link (set_state s r) = wants_link r"
  "wants_link (start_backoff r) = wants_link r" "wants_link (start_wait k why r) = wants_link r"
  "wants_link (store_session_count r) = wants_link r" "wants_link (uplink E f frm r) = wants_link r"
  "wants_link (r\<lparr>link := l\<rparr>) = wants_link r" "wants_link (r\<lparr>idle_timer := t\<rparr>) = wants_link r"
  "wants_link (r\<lparr>attempt := a\<rparr>) = wants_link r" "wants_link (r\<lparr>connector := c\<rparr>) = wants_link r"
  "wants_link (r\<lparr>waiting := wt\<rparr>) = wants_link r" "wants_link (r\<lparr>pending := p\<rparr>) = wants_link r"
  "wants_link (r\<lparr>writer_tx := w\<rparr>) = wants_link r" "wants_link (r\<lparr>generation := g\<rparr>) = wants_link r"
  "wants_link (r\<lparr>next_seq := q\<rparr>) = wants_link r" "wants_link (r\<lparr>cnt := kc\<rparr>) = wants_link r"
  "wants_link (r\<lparr>exit_kiss := ek\<rparr>) = wants_link r" "wants_link (r\<lparr>link_start := ls\<rparr>) = wants_link r"
  "wants_link (r\<lparr>clock := t'\<rparr>) = wants_link r" "wants_link (r\<lparr>hub := hv\<rparr>) = wants_link r"
  "wants_link (flush_pending E ps r) = wants_link r"
  by (rule wants_link_cong; simp)+

lemma held_down_unwanted: "held r = Some False \<Longrightarrow> \<not> wants_link r"
  by (simp add: wants_link_def)

lemma wanted_inv_maybe_connect:
  assumes "held r4 = held r" and "link r4 = link r" and "wanted_inv r"
  shows "wanted_inv (if link r4 = L_Idle \<and> wants_link r4 then start_connect r4 else r4)"
  using assms held_down_unwanted [of r4] by (auto simp: wanted_inv_def)

lemma wanted_inv_less_wanted:
  assumes "wanted_inv r" and "held r2 = held r" and "link r2 = link r" and "wants_link r2 \<Longrightarrow> wants_link r"
  shows "wanted_inv r2" and "\<not> wants_link r2 \<Longrightarrow> wanted_inv (close E r2)"
  using assms by (auto simp: wanted_inv_def)

lemma wanted_inv_on_app:
  assumes "wanted_inv r"
  shows "wanted_inv (on_app E ev r)"
proof (cases ev)
  case (SessionOpened i c)
  show ?thesis
    unfolding SessionOpened on_app.simps Let_def
    by (rule wanted_inv_maybe_connect [OF _ _ assms]) simp_all
next
  case (SessionClosed i)
  define r2 where "r2 = store_session_count
     (if map_of (sessions r) i \<noteq> None
      then emit_if (hub r \<noteq> None) (Hub_state ''session'' (session_object r i) ''closed'')
             (r\<lparr>sessions := AList.delete i (sessions r)\<rparr>)
      else r)"
  have r2: "held r2 = held r" "link r2 = link r" "settings r2 = settings r" "sessions r = [] \<Longrightarrow> sessions r2 = []"
    by (auto simp: r2_def)
  then have "wants_link r2 \<Longrightarrow> wants_link r"
    unfolding wants_link_def by (auto split: option.splits)
  note less = wanted_inv_less_wanted [OF assms r2(1,2) this]
  have "on_app E ev r =
     (if sessions r2 = [] \<and> \<not> wants_link r2
      then if ts_idle_timeout (settings r2) = 0 then close E r2
           else r2\<lparr>idle_timer := Some (ts_idle_timeout (settings r2))\<rparr>
      else r2)"
    by (simp only: SessionClosed on_app.simps Let_def r2_def)
  with less show ?thesis by (simp add: wanted_inv_def)
next
  case (AppFrame i f)
  with assms show ?thesis
    by (auto simp: wanted_inv_def Let_def uplink_def split: verdict.splits tnc_link.splits option.splits)
qed

lemma wanted_inv_on_cmd:
  "wanted_inv r \<Longrightarrow> respects_hold (A_Cmd c) r \<Longrightarrow> wanted_inv (on_cmd E c r)"
proof (cases c)
  case (Settings new)
  assume "wanted_inv r" "respects_hold (A_Cmd c) r"
  then show ?thesis using Settings
    by (cases "ts_connect new"; cases "ts_connect (settings r)"; cases "held r")
       (auto simp: wanted_inv_def respects_hold_def apply_settings_def Let_def wants_link_def)
qed (auto simp: wanted_inv_def Let_def wants_link_def split: option.splits)

lemma wanted_inv_on_tnc:
  assumes "wanted_inv r"
  shows "wanted_inv (on_tnc E ev r)"
proof (cases ev)
  case (TncFrame g f)
  have "wants_link (on_tnc E (TncFrame (generation r) f) r) = wants_link r"
    by (rule wants_link_cong) simp_all
  with TncFrame assms show ?thesis by (cases "g = generation r") (simp_all add: wanted_inv_def)
next
  case (TncClosed g e)
  with assms held_down_unwanted [of r] show ?thesis by (auto simp: wanted_inv_def Let_def)
qed

lemma wanted_inv_on_link:
  assumes "wanted_inv r" and "is_waiting (link r)"
  shows "wanted_inv (on_link E ev r)"
proof (cases "(E, ev, r)" rule: on_link.cases)
  case (1 E' op r')
  have "link (flush_pending E ps r0) = L_Connected" if "link r0 = L_Connected" for ps r0
    using that by (induction E ps r0 rule: flush_pending.induct) simp_all
  with 1 assms show ?thesis by (auto simp: wanted_inv_def Let_def)
next
  case (2 E' e r')
  with assms show ?thesis
    by (cases e) (auto simp: wanted_inv_def Let_def)
next
  case (3 E' r')
  with assms show ?thesis by (auto simp: wanted_inv_def Let_def)
qed

lemma wanted_inv_step:
  assumes "bridge_step E wc a r r'" and "respects_hold a r" and "wanted_inv r"
  shows "wanted_inv r'"
  using assms
proof (induction rule: bridge_step.induct)
  case (step_session r i s c)
  then have "sessions r \<noteq> []" by auto
  then have "wants_link (r\<lparr>sessions := AList.update i (s\<lparr>s_tx := c\<rparr>) (sessions r)\<rparr>) = wants_link r"
    by (intro wants_link_cong) simp_all
  with step_session show ?case by (simp add: wanted_inv_def)
next
  case (step_connected r res)
  then show ?case by (intro wanted_inv_on_link) simp_all
next
  case (step_backoff_over r d)
  then show ?case by (intro wanted_inv_on_link) simp_all
qed (simp_all only: wanted_inv_on_app wanted_inv_on_cmd wanted_inv_on_tnc,
     simp_all add: wanted_inv_def on_idle_elapsed_def Let_def)

lemma reachable_wanted_inv: "reachable E wc respects_hold r \<Longrightarrow> wanted_inv r"
proof (induction rule: reachable.induct)
  case (reach_start i conn st h t)
  show ?case by (simp add: start_main_def initial_run_def wanted_inv_def wants_link_def)
next
  case (reach_step r a r')
  then show ?case by (blast intro: wanted_inv_step)
qed



text \<open>C17: the restriction in the previous property is needed. A settings change from \<open>OnDemand\<close> to
  \<open>Always\<close> starts connecting a link that \<open>port.disconnect\<close> holds down, and one from \<open>Always\<close> to
  \<open>OnDemand\<close> with no session and no idle timeout closes a link that \<open>port.connect\<close> holds up,
  although a hold is documented to last whatever the policy says.\<close>

theorem settings_change_ignores_hold:
  assumes "ts_connect (settings r) \<noteq> ts_connect new"
  shows "(held r = Some False \<and> link r = L_Idle \<and> ts_connect new = Always \<longrightarrow>
      held (on_cmd E (Settings new) r) = Some False \<and> link (on_cmd E (Settings new) r) = L_Connecting)
   \<and> (held r = Some True \<and> sessions r = [] \<and> ts_connect new = OnDemand \<and> ts_idle_timeout new = 0 \<longrightarrow>
      held (on_cmd E (Settings new) r) = Some True \<and> link (on_cmd E (Settings new) r) = L_Idle)"
  using assms
  by (cases "ts_connect (settings r)"; cases "ts_connect new") (auto simp: apply_settings_def Let_def)

theorem settings_change_ignores_hold_witness:
  "link (the (exec_acts ex_env [A_Cmd (Hold (Some False)), A_Cmd (Settings (ex_settings Always 0))] (ex_start OnDemand)))
     = L_Connecting"
proof -
  let ?r = "the (exec_acts ex_env [A_Cmd (Hold (Some False))] (ex_start OnDemand))"
  have h: "held ?r = Some False" "link ?r = L_Idle" "ts_connect (settings ?r) = OnDemand"
    by (simp_all add: ex_defs run_eval)
  have "the (exec_acts ex_env [A_Cmd (Hold (Some False)), A_Cmd (Settings (ex_settings Always 0))] (ex_start OnDemand))
      = on_cmd ex_env (Settings (ex_settings Always 0)) ?r"
    by simp
  moreover have "ts_connect (settings ?r) \<noteq> ts_connect (ex_settings Always 0)"
    using h(3) by (simp add: ex_settings_def)
  ultimately show ?thesis
    using settings_change_ignores_hold [of ?r "ex_settings Always 0" ex_env] h(1,2)
    by (simp add: ex_settings_def)
qed

section \<open>Retrying\<close>

text \<open>C16: the delay before retry \<open>n\<close> doubles from one second and stays at thirty from the sixth
  attempt on; it never decreases, and the shift and the multiplication cannot overflow.\<close>

theorem backoff_delay_schedule:
  "backoff_delay (Suc n) = min 30000 (1000 * 2 ^ n) \<and> backoff_delay (Suc n) \<le> backoff_delay (Suc (Suc n)) \<and>
   1000 \<le> backoff_delay n"
proof -
  have cap: "(1000 :: nat) * 2 ^ min n 16 < 2 ^ 64 * 1000" for n
  proof -
    have "(2 :: nat) ^ min n 16 \<le> 2 ^ 16" by (rule power_increasing) simp_all
    then show ?thesis by simp
  qed
  have del: "backoff_delay n = min 30000 (1000 * 2 ^ min (n - 1) 16)" for n
    using cap [of "n - 1"]
    by (simp add: backoff_delay_def duration_checked_mul_def BACKOFF_MIN_def BACKOFF_MAX_def min.commute)
  have eq: "backoff_delay (Suc n) = min 30000 (1000 * 2 ^ n)" for n
  proof (cases "n \<le> 16")
    case False
    then have "(2 :: nat) ^ 16 \<le> 2 ^ n" by (intro power_increasing) simp_all
    with False show ?thesis by (simp add: del min_def)
  qed (simp add: del min_absorb1)
  have "1000 \<le> backoff_delay n" by (simp add: del)
  moreover have "backoff_delay (Suc n) \<le> backoff_delay (Suc (Suc n))"
    unfolding eq by (rule min.mono) simp_all
  ultimately show ?thesis using eq by blast
qed

section \<open>Consistency\<close>

text \<open>C2: in every reachable state the writer exists exactly while the link is up, at most 32 frames
  wait and only while a link is coming up, the published TNC state is the one of the link
  (with the delay it waits), and the published session count is the number of sessions.\<close>

theorem bridge_state_consistent:
  assumes "reachable E wc ok r"
  shows "(writer_tx r \<noteq> None \<longleftrightarrow> link r = L_Connected) \<and> length (pending r) \<le> 32 \<and>
     (pending r \<noteq> [] \<longrightarrow> is_waiting (link r)) \<and> state_agrees r \<and>
     c_sessions (cnt r) = length (sessions r) \<and> distinct (map fst (sessions r))"
proof -
  have "map fst (roster r) = map fst (sessions r)" by (simp add: roster_def)
  then show ?thesis
    using reachable_link_inv [OF assms] reachable_session_inv [OF assms]
    by (simp add: link_inv_def session_inv_def UPLINK_QUEUE_FRAMES_def)
qed

theorem bridge_state_consistent_witness:
  "state_agrees (ex_start Always) \<and> state_tx (ex_start Always) = T_Connecting"
  using bridge_state_consistent [OF ex_start_reachable, of Always] by (simp add: ex_defs run_eval)

text \<open>a snapshot lists every session once, in the order the sessions were opened, with
  strictly growing sequence numbers.\<close>

theorem snapshot_in_opening_order:
  assumes "reachable E wc ok r"
  shows "sorted_wrt (<) (map si_seq (sn_sessions (take_snapshot r))) \<and>
     set (map si_id (sn_sessions (take_snapshot r))) = fst ` set (sessions r) \<and>
     length (sn_sessions (take_snapshot r)) = length (sessions r)"
proof -
  let ?infos = "map (\<lambda>(i, s). \<lparr>si_id = i, si_seq = s_seq s, si_since = s_since s\<rparr>) (sessions r)"
  have seqs: "map si_seq ?infos = map snd (roster r)" "map si_id ?infos = map fst (sessions r)"
    by (auto simp: roster_def)
  have "mset (map si_seq (sort_key si_seq ?infos)) = mset (map snd (roster r))"
    unfolding seqs(1) [symmetric] by (simp only: mset_map mset_sort)
  from mset_eq_imp_distinct_iff [OF this] have "distinct (map si_seq (sort_key si_seq ?infos))"
    using reachable_session_inv [OF assms] by (simp only: session_inv_def)
  moreover have "sorted (map si_seq (sort_key si_seq ?infos))" by (rule sorted_sort_key)
  moreover have "set (map si_id (sort_key si_seq ?infos)) = fst ` set (sessions r)"
    by force
  ultimately show ?thesis by (simp add: take_snapshot_def strict_sorted_iff)
qed

theorem snapshot_in_opening_order_witness:
  "length (sn_sessions (take_snapshot (the (exec_acts ex_env [ex_open] (ex_start OnDemand))))) = 1"
proof -
  let ?r = "the (exec_acts ex_env [ex_open] (ex_start OnDemand))"
  have r: "exec_acts ex_env [ex_open] (ex_start OnDemand) = Some ?r" and n: "length (sessions ?r) = 1"
    by (simp_all add: ex_defs run_eval)
  from snapshot_in_opening_order [OF exec_acts_reachable [OF r ex_start_reachable, where wc = fst]] n
  show ?thesis by (simp only:)
qed

text \<open>C18: a session id written as text reads back as itself exactly when the port's id has no slash;
  the peer may have any.\<close>

theorem session_id_roundtrip_iff:
  "parse_session_id (show_session_id s) = Some s \<longleftrightarrow> CHR ''/'' \<notin> set (sid_port s)"
proof (cases "CHR ''/'' \<in> set (sid_port s)")
  case True
  then obtain xs ys where p: "sid_port s = xs @ CHR ''/'' # ys" "CHR ''/'' \<notin> set xs"
    by (meson split_list_first)
  have "takeWhile (\<lambda>c. c \<noteq> CHR ''/'') (show_session_id s) = xs"
    using p by (auto simp: show_session_id_def takeWhile_append2 takeWhile_tail)
  moreover have "sid_port s \<noteq> xs" using p by (metis append_self_conv list.distinct(1))
  ultimately show ?thesis using True
    by (cases s) (auto simp: parse_session_id_def split: list.splits)
next
  case False
  then have "takeWhile (\<lambda>c. c \<noteq> CHR ''/'') (show_session_id s) = sid_port s"
    "dropWhile (\<lambda>c. c \<noteq> CHR ''/'') (show_session_id s) = CHR ''/'' # sid_peer s"
    by (auto simp: show_session_id_def takeWhile_append dropWhile_append)
  with False show ?thesis by (simp add: parse_session_id_def)
qed

end
