(* ===== verification/Rust_Text.thy ===== *)
theory Rust_Text
  imports Prelude
begin

text \<open>
  The string and number functions of the Rust standard library that the configuration code
  calls: character classes, \<open>trim\<close>, \<open>split_once\<close>, \<open>rsplit_once\<close>, \<open>strip_prefix\<close>, and integer
  parsing (\<open>str::parse\<close> and \<open>from_str_radix\<close>). Strings are UTF-8 bytes.
\<close>

definition code :: "char \<Rightarrow> nat" where "code c = of_char c"

text \<open>Between text and bytes: \<open>as_bytes\<close>, and a byte as a character of a text.\<close>

definition byte_char :: "u8 \<Rightarrow> char" where
  "byte_char b = char_of (unat b)"

definition as_bytes :: "string \<Rightarrow> bytes" where
  "as_bytes s = map (\<lambda>c. of_nat (code c)) s"

definition is_ascii_digit :: "char \<Rightarrow> bool" where
  "is_ascii_digit c \<longleftrightarrow> 48 \<le> code c \<and> code c \<le> 57"

definition is_ascii_lowercase :: "char \<Rightarrow> bool" where
  "is_ascii_lowercase c \<longleftrightarrow> 97 \<le> code c \<and> code c \<le> 122"

definition is_ascii_uppercase :: "char \<Rightarrow> bool" where
  "is_ascii_uppercase c \<longleftrightarrow> 65 \<le> code c \<and> code c \<le> 90"

text \<open>\<open>char::to_digit\<close> for a radix up to 16.\<close>

definition to_digit :: "nat \<Rightarrow> char \<Rightarrow> nat option" where
  "to_digit radix c =
     (let d = (if is_ascii_digit c then code c - 48
               else if is_ascii_lowercase c then code c - 87
               else if is_ascii_uppercase c then code c - 55
               else 99)
      in if d < radix then Some d else None)"

fun digits_value :: "nat \<Rightarrow> nat \<Rightarrow> string \<Rightarrow> nat option" where
  "digits_value radix acc [] = Some acc"
| "digits_value radix acc (c # cs) =
     (case to_digit radix c of None \<Rightarrow> None | Some d \<Rightarrow> digits_value radix (acc * radix + d) cs)"

text \<open>\<open>from_str_radix\<close> for an unsigned type with \<open>limit\<close> values: a leading plus sign is accepted,
  leading zeros too; an empty text, a lone sign, a bad digit and overflow are errors.\<close>

definition parse_unsigned :: "nat \<Rightarrow> nat \<Rightarrow> string \<Rightarrow> nat option" where
  "parse_unsigned radix limit s =
     (let ds = (case s of c # rest \<Rightarrow> if c = CHR ''+'' \<and> rest \<noteq> [] then rest else s | [] \<Rightarrow> s)
      in if ds = [] then None
         else case digits_value radix 0 ds of
                None \<Rightarrow> None
              | Some n \<Rightarrow> if n < limit then Some n else None)"

definition parse_u8 :: "string \<Rightarrow> u8 option" where
  "parse_u8 s = map_option of_nat (parse_unsigned 10 (2 ^ 8) s)"

definition parse_u8_hex :: "string \<Rightarrow> u8 option" where
  "parse_u8_hex s = map_option of_nat (parse_unsigned 16 (2 ^ 8) s)"

definition parse_u16 :: "string \<Rightarrow> u16 option" where
  "parse_u16 s = map_option of_nat (parse_unsigned 10 (2 ^ 16) s)"

definition parse_u64 :: "string \<Rightarrow> u64 option" where
  "parse_u64 s = map_option of_nat (parse_unsigned 10 (2 ^ 64) s)"

text \<open>\<open>str::trim\<close> removes Unicode white space. \<open>white_len\<close> is the number of bytes of the white space
  character a text starts with (0 if it starts with none): the ASCII ones, U+0085 and U+00A0 (two
  bytes), U+1680, U+2000 to U+200A, U+2028, U+2029, U+202F, U+205F and U+3000 (three bytes).\<close>

definition white_codes :: "nat list \<Rightarrow> nat" where
  "white_codes bs =
     (case bs of
        [] \<Rightarrow> 0
      | a # bs' \<Rightarrow>
          if a = 32 \<or> 9 \<le> a \<and> a \<le> 13 then 1
          else case bs' of
            [] \<Rightarrow> 0
          | b # bs'' \<Rightarrow>
              if a = 0xC2 \<and> (b = 0x85 \<or> b = 0xA0) then 2
              else case bs'' of
                [] \<Rightarrow> 0
              | c # _ \<Rightarrow>
                  if (a, b, c) = (0xE1, 0x9A, 0x80)
                   \<or> a = 0xE2 \<and> b = 0x80 \<and> (0x80 \<le> c \<and> c \<le> 0x8A \<or> c = 0xA8 \<or> c = 0xA9 \<or> c = 0xAF)
                   \<or> (a, b, c) = (0xE2, 0x81, 0x9F) \<or> (a, b, c) = (0xE3, 0x80, 0x80)
                  then 3 else 0)"

definition white_prefix :: "string \<Rightarrow> nat" where
  "white_prefix s = white_codes (map code (take 3 s))"

definition white_suffix :: "string \<Rightarrow> nat" where
  "white_suffix s =
     (let n = length s; w = (\<lambda>k. if k \<le> n \<and> white_codes (map code (drop (n - k) s)) = k then k else 0)
      in if w 1 = 1 then 1 else if w 2 = 2 then 2 else if w 3 = 3 then 3 else 0)"

function trim_start :: "string \<Rightarrow> string" where
  "trim_start s = (if white_prefix s = 0 \<or> s = [] then s else trim_start (drop (white_prefix s) s))"
  by pat_completeness auto
termination
  by (relation "measure length") auto

function trim_end :: "string \<Rightarrow> string" where
  "trim_end s = (if white_suffix s = 0 \<or> s = [] then s else trim_end (take (length s - white_suffix s) s))"
  by pat_completeness auto
termination
  by (relation "measure length") auto

declare trim_start.simps [simp del] trim_end.simps [simp del]

definition trim :: "string \<Rightarrow> string" where
  "trim s = trim_end (trim_start s)"

definition starts_with :: "string \<Rightarrow> string \<Rightarrow> bool" where
  "starts_with p s \<longleftrightarrow> take (length p) s = p"

definition strip_prefix :: "string \<Rightarrow> string \<Rightarrow> string option" where
  "strip_prefix p s = (if starts_with p s then Some (drop (length p) s) else None)"

definition split_once :: "char \<Rightarrow> string \<Rightarrow> (string \<times> string) option" where
  "split_once d s =
     (case dropWhile (\<lambda>c. c \<noteq> d) s of
        [] \<Rightarrow> None
      | _ # post \<Rightarrow> Some (takeWhile (\<lambda>c. c \<noteq> d) s, post))"

definition rsplit_once :: "char \<Rightarrow> string \<Rightarrow> (string \<times> string) option" where
  "rsplit_once d s = map_option (\<lambda>(a, b). (rev b, rev a)) (split_once d (rev s))"

section \<open>Lemmas\<close>

lemma code_less [simp]: "code c < 256"
  by (simp add: code_def)

lemma code_char_of [simp]: "(n :: nat) < 256 \<Longrightarrow> code (char_of n) = n"
  by (simp add: code_def)

lemma byte_char_of_nat [simp]: "byte_char (of_nat (code c)) = c"
  by (simp add: byte_char_def unat_of_nat code_def take_bit_nat_eq_self)

lemma code_byte_char [simp]: "code (byte_char b) = unat b"
proof -
  have "unat b < 256" by (rule order_less_le_trans [OF unsigned_less]) simp
  then show ?thesis by (simp add: byte_char_def)
qed

lemma map_byte_char_as_bytes [simp]: "map byte_char (as_bytes s) = s"
  by (simp add: as_bytes_def comp_def)

lemma as_bytes_simps [simp]: "as_bytes [] = []" "as_bytes (c # s) = of_nat (code c) # as_bytes s"
    "as_bytes (s @ t) = as_bytes s @ as_bytes t" "length (as_bytes s) = length s" "as_bytes s = [] \<longleftrightarrow> s = []"
  by (simp_all add: as_bytes_def)

lemma is_ascii_digit_char [simp]: "(n :: nat) < 10 \<Longrightarrow> is_ascii_digit (char_of (48 + n))"
  by (simp add: is_ascii_digit_def)

lemma to_digit_char [simp]: "(n :: nat) < 10 \<Longrightarrow> to_digit 10 (char_of (48 + n)) = Some n"
  by (simp add: to_digit_def Let_def)

lemma digits_value_append:
  "digits_value radix acc (xs @ ys) =
     (case digits_value radix acc xs of None \<Rightarrow> None | Some n \<Rightarrow> digits_value radix n ys)"
  by (induction radix acc xs rule: digits_value.induct) (auto split: option.splits)

lemma decimal_digits_not_Nil [simp]: "decimal_digits n \<noteq> []"
  by (subst decimal_digits.simps) simp

lemma show_nat_not_Nil [simp]: "show_nat n \<noteq> []"
  by (simp add: show_nat_def)

lemma decimal_digits_all: "c \<in> set (decimal_digits n) \<Longrightarrow> is_ascii_digit c"
proof (induction n rule: decimal_digits.induct)
  case (1 n)
  then show ?case by (subst (asm) (2) decimal_digits.simps) (auto split: if_splits)
qed

lemma digits_value_decimal: "digits_value 10 0 (decimal_digits n) = Some n"
proof (induction n rule: decimal_digits.induct)
  case (1 n)
  then show ?case
    by (cases "n < 10") (simp_all add: decimal_digits.simps [of n] digits_value_append)
qed

lemma parse_unsigned_show: "n < limit \<Longrightarrow> parse_unsigned 10 limit (show_nat n) = Some n"
proof -
  assume n: "n < limit"
  obtain c cs where d: "decimal_digits n = c # cs" by (cases "decimal_digits n") auto
  then have "c \<noteq> CHR ''+''" using decimal_digits_all [of c n] by (auto simp: is_ascii_digit_def code_def)
  with d n digits_value_decimal [of n] show ?thesis
    by (simp add: parse_unsigned_def show_nat_def)
qed

end
