(* ===== verification/Net_Addr.thy ===== *)
theory Net_Addr
  imports Rust_Text
begin

text \<open>
  \<open>IpAddr\<close> and \<open>SocketAddr\<close> of the Rust standard library as far as the sources use them: the
  parser behind \<open>str::parse\<close> (\<^verbatim>\<open>core::net::parser\<close>), the text form, equality, and the
  predicates \<open>is_loopback\<close>, \<open>is_unspecified\<close> and \<open>to_ipv4_mapped\<close>. An IPv4 address is its four
  octets, an IPv6 address its eight 16-bit segments.
\<close>

unbundle bit_operations_syntax

datatype ip_addr = V4 "u8 list" | V6 "u16 list"

text \<open>A socket address: the address, the port, and the scope id of an IPv6 one (0 for IPv4).\<close>

datatype socket_addr = Sock (sock_ip: ip_addr) (sock_port: u16) (sock_scope: u32)

fun is_loopback :: "ip_addr \<Rightarrow> bool" where
  "is_loopback (V4 os) = (os \<noteq> [] \<and> hd os = 127)"
| "is_loopback (V6 ss) = (ss = [0, 0, 0, 0, 0, 0, 0, 1])"

fun is_unspecified :: "ip_addr \<Rightarrow> bool" where
  "is_unspecified (V4 os) = (os = [0, 0, 0, 0])"
| "is_unspecified (V6 ss) = (ss = [0, 0, 0, 0, 0, 0, 0, 0])"

definition hi_byte :: "u16 \<Rightarrow> u8" where "hi_byte w = ucast (drop_bit 8 w)"
definition lo_byte :: "u16 \<Rightarrow> u8" where "lo_byte w = ucast w"

fun to_ipv4_mapped :: "ip_addr \<Rightarrow> ip_addr option" where
  "to_ipv4_mapped (V6 ss) =
     (if length ss = 8 \<and> take 6 ss = [0, 0, 0, 0, 0, 0xFFFF]
      then Some (V4 [hi_byte (ss ! 6), lo_byte (ss ! 6), hi_byte (ss ! 7), lo_byte (ss ! 7)])
      else None)"
| "to_ipv4_mapped (V4 _) = None"

section \<open>The parser\<close>

text \<open>A parser consumes a prefix of the text and returns the rest, or fails and consumes nothing.\<close>

definition read_char :: "char \<Rightarrow> string \<Rightarrow> string option" where
  "read_char c s = (case s of x # rest \<Rightarrow> if x = c then Some rest else None | [] \<Rightarrow> None)"

text \<open>\<open>read_number\<close>: all the digits that follow; at most \<open>max_digits\<close> of them if given; a leading zero
  of a longer number only where allowed; the value must fit.\<close>

definition read_number :: "nat \<Rightarrow> nat option \<Rightarrow> bool \<Rightarrow> nat \<Rightarrow> string \<Rightarrow> (nat \<times> string) option" where
  "read_number radix max_digits zero_prefix limit s =
     (let ds = takeWhile (\<lambda>c. to_digit radix c \<noteq> None) s in
      if ds = [] then None
      else if (case max_digits of None \<Rightarrow> False | Some m \<Rightarrow> length ds > m) then None
      else if \<not> zero_prefix \<and> hd ds = CHR ''0'' \<and> length ds > 1 then None
      else case digits_value radix 0 ds of
             None \<Rightarrow> None
           | Some n \<Rightarrow> if n < limit then Some (n, drop (length ds) s) else None)"

definition read_separator :: "char \<Rightarrow> nat \<Rightarrow> string \<Rightarrow> string option" where
  "read_separator sep i s = (if i > 0 then read_char sep s else Some s)"

definition read_octet :: "nat \<Rightarrow> string \<Rightarrow> (u8 \<times> string) option" where
  "read_octet i s =
     Option.bind (read_separator CHR ''.'' i s)
       (\<lambda>s. map_option (\<lambda>(n, rest). (of_nat n, rest)) (read_number 10 (Some 3) False 256 s))"

definition read_ipv4 :: "string \<Rightarrow> (u8 list \<times> string) option" where
  "read_ipv4 s =
     Option.bind (read_octet 0 s) (\<lambda>(a, s).
     Option.bind (read_octet 1 s) (\<lambda>(b, s).
     Option.bind (read_octet 2 s) (\<lambda>(c, s).
     map_option (\<lambda>(d, s). ([a, b, c, d], s)) (read_octet 3 s))))"

definition pair16 :: "u8 \<Rightarrow> u8 \<Rightarrow> u16" where
  "pair16 hi lo = push_bit 8 (ucast hi) OR ucast lo"

text \<open>\<open>read_groups\<close> with \<open>n\<close> places left of \<open>limit\<close>: the groups read, whether the last two came from an
  embedded IPv4 address, and the rest.\<close>

fun read_groups :: "nat \<Rightarrow> nat \<Rightarrow> u16 list \<Rightarrow> string \<Rightarrow> u16 list \<times> bool \<times> string" where
  "read_groups limit 0 acc s = (acc, False, s)"
| "read_groups limit (Suc n) acc s =
     (let i = length acc;
          v4 = (if i + 1 < limit
                then Option.bind (read_separator CHR '':'' i s) read_ipv4 else None)
      in case v4 of
           Some ([a, b, c, d], rest) \<Rightarrow> (acc @ [pair16 a b, pair16 c d], True, rest)
         | _ \<Rightarrow>
             (case Option.bind (read_separator CHR '':'' i s) (read_number 16 (Some 4) True (2 ^ 16)) of
                Some (g, rest) \<Rightarrow> read_groups limit n (acc @ [of_nat g]) rest
              | None \<Rightarrow> (acc, False, s)))"

definition read_ipv6 :: "string \<Rightarrow> (u16 list \<times> string) option" where
  "read_ipv6 s =
     (case read_groups 8 8 [] s of (head, head_v4, rest) \<Rightarrow>
        if length head = 8 then Some (head, rest)
        else if head_v4 then None
        else Option.bind (Option.bind (read_char CHR '':'' rest) (read_char CHR '':'')) (\<lambda>rest.
          (let limit = 8 - (length head + 1) in
           case read_groups limit limit [] rest of (tail, _, rest) \<Rightarrow>
             Some (head @ replicate (8 - length head - length tail) 0 @ tail, rest))))"

definition read_ip :: "string \<Rightarrow> (ip_addr \<times> string) option" where
  "read_ip s =
     (case read_ipv4 s of
        Some (os, rest) \<Rightarrow> Some (V4 os, rest)
      | None \<Rightarrow> map_option (\<lambda>(ss, rest). (V6 ss, rest)) (read_ipv6 s))"

definition read_port :: "string \<Rightarrow> (u16 \<times> string) option" where
  "read_port s =
     Option.bind (read_char CHR '':'' s) (\<lambda>s.
       map_option (\<lambda>(n, rest). (of_nat n, rest)) (read_number 10 None True (2 ^ 16) s))"

definition read_scope :: "string \<Rightarrow> u32 \<times> string" where
  "read_scope s =
     (case Option.bind (read_char CHR ''%'' s) (read_number 10 None True (2 ^ 32)) of
        Some (n, rest) \<Rightarrow> (of_nat n, rest)
      | None \<Rightarrow> (0, s))"

definition read_socket_v4 :: "string \<Rightarrow> (socket_addr \<times> string) option" where
  "read_socket_v4 s =
     Option.bind (read_ipv4 s) (\<lambda>(os, s).
       map_option (\<lambda>(p, rest). (Sock (V4 os) p 0, rest)) (read_port s))"

definition read_socket_v6 :: "string \<Rightarrow> (socket_addr \<times> string) option" where
  "read_socket_v6 s =
     Option.bind (read_char CHR ''['' s) (\<lambda>s.
     Option.bind (read_ipv6 s) (\<lambda>(ss, s).
       (case read_scope s of (scope, s) \<Rightarrow>
          Option.bind (read_char CHR '']'' s) (\<lambda>s.
            map_option (\<lambda>(p, rest). (Sock (V6 ss) p scope, rest)) (read_port s)))))"

text \<open>\<open>parse_with\<close>: the whole text must be consumed.\<close>

definition whole :: "('a \<times> string) option \<Rightarrow> 'a option" where
  "whole r = (case r of Some (x, []) \<Rightarrow> Some x | _ \<Rightarrow> None)"

definition parse_ip :: "string \<Rightarrow> ip_addr option" where
  "parse_ip s = whole (read_ip s)"

definition parse_socket_addr :: "string \<Rightarrow> socket_addr option" where
  "parse_socket_addr s =
     whole (case read_socket_v4 s of Some r \<Rightarrow> Some r | None \<Rightarrow> read_socket_v6 s)"

section \<open>The text form\<close>

fun hex_lower :: "nat \<Rightarrow> string" where
  "hex_lower n =
     (let d = (\<lambda>k. ''0123456789abcdef'' ! k) in
      if n < 16 then [d n] else hex_lower (n div 16) @ [d (n mod 16)])"

declare hex_lower.simps [simp del]

definition show_u8 :: "u8 \<Rightarrow> string" where "show_u8 b = show_nat (unat b)"

definition show_ipv4 :: "u8 list \<Rightarrow> string" where
  "show_ipv4 os = join_on CHR ''.'' (map show_u8 os)"

definition show_groups :: "u16 list \<Rightarrow> string" where
  "show_groups ss = join_on CHR '':'' (map (\<lambda>s. hex_lower (unat s)) ss)"

text \<open>The first longest run of zero segments, as start and length.\<close>

fun zero_run :: "nat \<Rightarrow> nat \<times> nat \<Rightarrow> nat \<times> nat \<Rightarrow> u16 list \<Rightarrow> nat \<times> nat" where
  "zero_run i cur best [] = best"
| "zero_run i (cs, cl) best (x # xs) =
     (if x = 0 then
        (let cur = (if cl = 0 then (i, 1) else (cs, cl + 1));
             best' = (if snd cur > snd best then cur else best)
         in zero_run (i + 1) cur best' xs)
      else zero_run (i + 1) (0, 0) best xs)"

definition show_ipv6 :: "u16 list \<Rightarrow> string" where
  "show_ipv6 ss =
     (case to_ipv4_mapped (V6 ss) of
        Some (V4 os) \<Rightarrow> ''::ffff:'' @ show_ipv4 os
      | _ \<Rightarrow>
          (case zero_run 0 (0, 0) (0, 0) ss of (start, len) \<Rightarrow>
             if len > 1 then show_groups (take start ss) @ ''::'' @ show_groups (drop (start + len) ss)
             else show_groups ss))"

fun show_ip :: "ip_addr \<Rightarrow> string" where
  "show_ip (V4 os) = show_ipv4 os"
| "show_ip (V6 ss) = show_ipv6 ss"

fun show_socket_addr :: "socket_addr \<Rightarrow> string" where
  "show_socket_addr (Sock (V4 os) p _) = show_ipv4 os @ '':'' @ show_nat (unat p)"
| "show_socket_addr (Sock (V6 ss) p scope) =
     ''['' @ show_ipv6 ss @ (if scope = 0 then [] else ''%'' @ show_nat (unat scope)) @ '']:'' @ show_nat (unat p)"

section \<open>Reading back what was shown\<close>

lemma takeWhile_digits:
  "(\<And>c. c \<in> set ds \<Longrightarrow> to_digit 10 c \<noteq> None) \<Longrightarrow> (rest = [] \<or> to_digit 10 (hd rest) = None) \<Longrightarrow>
   takeWhile (\<lambda>c. to_digit 10 c \<noteq> None) (ds @ rest) = ds"
  by (cases rest) (auto simp: takeWhile_append2)

lemma digit_to_digit: "is_ascii_digit c \<Longrightarrow> to_digit 10 c \<noteq> None"
  by (auto simp: to_digit_def Let_def is_ascii_digit_def)

lemma decimal_no_zero_prefix: "hd (decimal_digits n) = CHR ''0'' \<Longrightarrow> n = 0"
proof (induction n rule: decimal_digits.induct)
  case (1 n)
  show ?case
  proof (cases "n < 10")
    case True
    then have "char_of (48 + n) = CHR ''0''" using 1 by (simp add: decimal_digits.simps [of n])
    then have "code (char_of (48 + n)) = 48" by (simp add: code_def)
    with True show ?thesis by simp
  next
    case False
    with 1 have "n div 10 = 0" by (simp add: decimal_digits.simps [of n] hd_append)
    with False show ?thesis by simp
  qed
qed

lemma length_decimal_digits_less: "n < 1000 \<Longrightarrow> length (decimal_digits n) \<le> 3"
  by (simp add: decimal_digits.simps [of n] decimal_digits.simps [of "n div 10"]
      decimal_digits.simps [of "n div 10 div 10"])

lemma read_number_show:
  assumes "n < limit" and "rest = [] \<or> to_digit 10 (hd rest) = None"
    and "case md of None \<Rightarrow> True | Some m \<Rightarrow> length (decimal_digits n) \<le> m"
  shows "read_number 10 md zp limit (show_nat n @ rest) = Some (n, rest)"
proof -
  have tw: "takeWhile (\<lambda>c. to_digit 10 c \<noteq> None) (decimal_digits n @ rest) = decimal_digits n"
    using takeWhile_digits [OF _ assms(2)] digit_to_digit decimal_digits_all by blast
  have "\<not> (hd (decimal_digits n) = CHR ''0'' \<and> length (decimal_digits n) > 1)"
    using decimal_no_zero_prefix [of n] by (auto simp: decimal_digits.simps [of 0])
  with assms tw show ?thesis
    by (auto simp: read_number_def show_nat_def Let_def digits_value_decimal split: option.splits)
qed

lemma read_char_Cons [simp]: "read_char c (c # s) = Some s"
  by (simp add: read_char_def)

lemma read_octet_show:
  assumes "rest = [] \<or> to_digit 10 (hd rest) = None"
  shows "read_octet 0 (show_u8 b @ rest) = Some (b, rest)"
    and "0 < i \<Longrightarrow> read_octet i (CHR ''.'' # show_u8 b @ rest) = Some (b, rest)"
proof -
  have "unat b < 256" by (rule order_less_le_trans [OF unsigned_less]) simp
  then have "read_number 10 (Some 3) False 256 (show_u8 b @ rest) = Some (unat b, rest)"
    unfolding show_u8_def by (intro read_number_show assms) (simp_all add: length_decimal_digits_less)
  then show "read_octet 0 (show_u8 b @ rest) = Some (b, rest)"
    and "0 < i \<Longrightarrow> read_octet i (CHR ''.'' # show_u8 b @ rest) = Some (b, rest)"
    by (simp_all add: read_octet_def read_separator_def)
qed

lemma dot_no_digit [simp]: "to_digit 10 CHR ''.'' = None" "to_digit 10 CHR '':'' = None"
  by (simp_all add: to_digit_def is_ascii_digit_def is_ascii_lowercase_def is_ascii_uppercase_def code_def)

lemma read_ipv4_show:
  assumes "rest = [] \<or> to_digit 10 (hd rest) = None"
  shows "read_ipv4 (show_ipv4 [a, b, c, d] @ rest) = Some ([a, b, c, d], rest)"
  using assms by (simp add: read_ipv4_def show_ipv4_def read_octet_show)

lemma read_port_show: "read_port ('':'' @ show_nat (unat (p :: u16))) = Some (p, [])"
proof -
  have "unat p < 2 ^ 16" by (rule order_less_le_trans [OF unsigned_less]) simp
  then have "read_number 10 None True (2 ^ 16) (show_nat (unat p) @ []) = Some (unat p, [])"
    by (intro read_number_show) simp_all
  then show ?thesis by (simp add: read_port_def)
qed

lemma parse_socket_addr_show_v4:
  "parse_socket_addr (show_socket_addr (Sock (V4 [a, b, c, d]) p 0)) = Some (Sock (V4 [a, b, c, d]) p 0)"
  using read_port_show [of p]
  by (simp add: parse_socket_addr_def whole_def read_socket_v4_def read_ipv4_show)

lemma parse_ip_show_v4: "parse_ip (show_ip (V4 [a, b, c, d])) = Some (V4 [a, b, c, d])"
  using read_ipv4_show [of "[]"] by (simp add: parse_ip_def whole_def read_ip_def)

end
