(* ===== verification/Config_Values.thy ===== *)
theory Config_Values
  imports Net_Addr
begin

text \<open>
  The value types of \<^verbatim>\<open>src/config/resolve.rs\<close> and their parsers: adapter addresses, adapter
  values, \<open>tcp-server\<close> bindings, durations, ids, \<open>host:port\<close> pairs, and the table of TNC models.

  A message the sources build with \<open>format!\<close> is a constructor of \<open>msg\<close> that carries the
  interpolated values; the wording is not modelled.
\<close>

definition DEFAULT_LOG_LEVEL :: string where "DEFAULT_LOG_LEVEL = ''info''"
definition DEFAULT_CONTROL_GROUP :: string where "DEFAULT_CONTROL_GROUP = ''kiss-tnc-bridge''"
definition DEFAULT_BLE_MAX_CLIENTS :: u32 where "DEFAULT_BLE_MAX_CLIENTS = 1"
definition DEFAULT_SERIAL_BAUD :: u32 where "DEFAULT_SERIAL_BAUD = 9600"
definition MAX_ID_LEN :: nat where "MAX_ID_LEN = 15"

datatype value_err =
    Not_Mac string
  | Bad_Octet string string  \<comment> \<open>the text, the octet\<close>
  | Not_Tcp_Port string string  \<comment> \<open>the text, the port part\<close>
  | Not_Listen string
  | Not_Duration string
  | Not_Duration_Unit string
  | Id_Empty string  \<comment> \<open>what kind of id\<close>
  | Id_Too_Long string string  \<comment> \<open>what, the id\<close>
  | Id_Bad_Char string string
  | Not_Host_Port string
  | Not_Host_Port_Wrap string
  | Unknown_Model string

section \<open>Adapter addresses\<close>

datatype mac = Mac bytes

fun mac_octets :: "string \<Rightarrow> string list \<Rightarrow> value_err + bytes" where
  "mac_octets s [] = Inr []"
| "mac_octets s (p # ps) =
     (if length p \<noteq> 2 then Inl (Not_Mac s)
      else case parse_u8_hex p of
             None \<Rightarrow> Inl (Bad_Octet s p)
           | Some b \<Rightarrow> (case mac_octets s ps of Inl e \<Rightarrow> Inl e | Inr bs \<Rightarrow> Inr (b # bs)))"

definition parse_mac :: "string \<Rightarrow> value_err + mac" where
  "parse_mac s =
     (let parts = split_on CHR '':'' s in
      if length parts \<noteq> 6 then Inl (Not_Mac s)
      else map_sum id Mac (mac_octets s parts))"

fun show_mac :: "mac \<Rightarrow> string" where
  "show_mac (Mac bs) = join_on CHR '':'' (map hex2_upper bs)"

section \<open>Adapter values\<close>

datatype adapter_value = AV_Id string | AV_Mac mac | AV_Hci string

definition is_hci_name :: "string \<Rightarrow> bool" where
  "is_hci_name s =
     (case strip_prefix ''hci'' s of None \<Rightarrow> False | Some n \<Rightarrow> n \<noteq> [] \<and> list_all is_ascii_digit n)"

definition parse_adapter_value :: "string \<Rightarrow> adapter_value" where
  "parse_adapter_value s =
     (case parse_mac s of
        Inr m \<Rightarrow> AV_Mac m
      | Inl _ \<Rightarrow> if is_hci_name s then AV_Hci s else AV_Id s)"

datatype adapter_sel = Sel_Default | Sel_Mac mac | Sel_Hci string

fun show_adapter_sel :: "adapter_sel \<Rightarrow> string" where
  "show_adapter_sel Sel_Default = ''default adapter''"
| "show_adapter_sel (Sel_Mac m) = show_mac m"
| "show_adapter_sel (Sel_Hci h) = h"

section \<open>Bindings of a tcp-server\<close>

datatype listen = Addr socket_addr | Interface string u16

fun listen_port :: "listen \<Rightarrow> u16" where
  "listen_port (Addr a) = sock_port a"
| "listen_port (Interface _ p) = p"

fun listen_is_loopback :: "listen \<Rightarrow> bool" where
  "listen_is_loopback (Addr a) = is_loopback (sock_ip a)"
| "listen_is_loopback (Interface _ _) = False"

fun listen_is_unspecified :: "listen \<Rightarrow> bool" where
  "listen_is_unspecified (Addr a) = is_unspecified (sock_ip a)"
| "listen_is_unspecified (Interface _ _) = False"

definition conflicts_with :: "listen \<Rightarrow> listen \<Rightarrow> bool" where
  "conflicts_with self other =
     (if listen_port self \<noteq> listen_port other then False
      else case (self, other) of
        (Addr a, Addr b) \<Rightarrow>
          sock_ip a = sock_ip b \<or> is_unspecified (sock_ip a) \<or> is_unspecified (sock_ip b)
      | (Interface a _, Interface b _) \<Rightarrow> a = b
      | (Interface _ _, Addr a) \<Rightarrow> is_unspecified (sock_ip a)
      | (Addr a, Interface _ _) \<Rightarrow> is_unspecified (sock_ip a))"

definition localhost :: ip_addr where
  "localhost = V4 [127, 0, 0, 1]"

definition parse_listen :: "string \<Rightarrow> value_err + listen" where
  "parse_listen s =
     (case parse_u16 s of
        Some port \<Rightarrow> Inr (Addr (Sock localhost port 0))
      | None \<Rightarrow>
     (case parse_socket_addr s of
        Some addr \<Rightarrow> Inr (Addr addr)
      | None \<Rightarrow>
     (case rsplit_once CHR '':'' s of
        None \<Rightarrow> Inl (Not_Listen s)
      | Some (name, port) \<Rightarrow>
     (case parse_u16 port of
        None \<Rightarrow> Inl (Not_Tcp_Port s port)
      | Some port \<Rightarrow>
          if name = [] \<or> CHR '':'' \<in> set name \<or> CHR ''/'' \<in> set name then Inl (Not_Listen s)
          else case parse_ip name of
                 Some ip \<Rightarrow> Inr (Addr (Sock ip port 0))
               | None \<Rightarrow> Inr (Interface name port)))))"

fun show_listen :: "listen \<Rightarrow> string" where
  "show_listen (Addr a) = show_socket_addr a"
| "show_listen (Interface name p) = name @ '':'' @ show_nat (unat p)"

section \<open>Durations, ids, host and port\<close>

text \<open>The products wrap around at 64 bits, as they do in a release build.\<close>

definition parse_duration :: "string \<Rightarrow> value_err + millis" where
  "parse_duration t =
     (let s = trim t;
          num = takeWhile is_ascii_digit s;
          unit = trim (dropWhile is_ascii_digit s)
      in case parse_u64 num of
           None \<Rightarrow> Inl (Not_Duration s)
         | Some n \<Rightarrow>
             if unit = '''' \<or> unit = ''s'' then Inr (unat n * 1000)
             else if unit = ''ms'' then Inr (unat n)
             else if unit = ''m'' then Inr (unat (n * 60) * 1000)
             else if unit = ''h'' then Inr (unat (n * 3600) * 1000)
             else Inl (Not_Duration_Unit s))"

definition check_id :: "string \<Rightarrow> string \<Rightarrow> value_err + unit" where
  "check_id i what =
     (if i = [] then Inl (Id_Empty what)
      else if length i > MAX_ID_LEN then Inl (Id_Too_Long what i)
      else if \<not> list_all (\<lambda>b. is_ascii_lowercase b \<or> is_ascii_digit b \<or> b = CHR ''-'') i
      then Inl (Id_Bad_Char what i)
      else Inr ())"

definition parse_host_port :: "string \<Rightarrow> value_err + string \<times> u16" where
  "parse_host_port s =
     (case parse_socket_addr s of
        Some addr \<Rightarrow> Inr (show_ip (sock_ip addr), sock_port addr)
      | None \<Rightarrow>
     (case rsplit_once CHR '':'' s of
        None \<Rightarrow> Inl (Not_Host_Port s)
      | Some (host, port) \<Rightarrow>
     (case parse_u16 port of
        None \<Rightarrow> Inl (Not_Tcp_Port s port)
      | Some port \<Rightarrow>
          if host = [] \<or> CHR '':'' \<in> set host then Inl (Not_Host_Port_Wrap s)
          else Inr (host, port))))"

section \<open>TNC models\<close>

datatype tnc_model = Generic | ThD7x | TdH9

text \<open>Setting a radio up over Bluetooth Classic, Bluetooth LE and USB.\<close>

record radio_bluetooth =
  rb_name_prefix :: string
  rb_setup :: string
  rb_pairing_mode :: string
  rb_pairing :: string

record radio_ble =
  rl_name_prefix :: string
  rl_setup :: string

record radio_usb =
  ru_id :: "(u16 \<times> u16) option"
  ru_setup :: string

record radio_info =
  ri_name :: string
  ri_model :: string
  ri_bluetooth :: "radio_bluetooth option"
  ri_ble :: "radio_ble option"
  ri_usb :: "radio_usb option"

record model_info =
  mi_model :: tnc_model
  mi_names :: "string list"
  mi_summary :: string
  mi_radios :: "radio_info list"

definition radio_ha2 :: radio_info where
  "radio_ha2 = \<lparr>ri_name = ''Ailunce HA2'', ri_model = ''generic'', ri_bluetooth = None,
     ri_ble = Some \<lparr>rl_name_prefix = ''Ailunce HA2'',
       rl_setup =
         ''On the radio, turn Bluetooth on, and disconnect any phone app from it: while something '' @
         ''is connected, it doesn't advertise.''\<rparr>,
     ri_usb = None\<rparr>"

text \<open>The two Kenwood radios have the same instructions.\<close>

definition kenwood_bluetooth :: "string \<Rightarrow> radio_bluetooth" where
  "kenwood_bluetooth prefix = \<lparr>rb_name_prefix = prefix,
     rb_setup =
       ''On the radio, set Menu > Configuration > Interface > KISS (983) to Bluetooth, and turn '' @
       ''Bluetooth on.'',
     rb_pairing_mode = ''Menu > Bluetooth > Pairing Mode'',
     rb_pairing =
       ''The radio shows a six-digit number. Check that it matches, then press OK on the radio '' @
       ''within 30 seconds.''\<rparr>"

definition kenwood_usb :: "(u16 \<times> u16) option \<Rightarrow> radio_usb" where
  "kenwood_usb usb_id = \<lparr>ru_id = usb_id,
     ru_setup =
       ''On the radio, set Menu > Configuration > Interface > KISS (983) to USB, and connect its '' @
       ''USB cable to this computer.''\<rparr>"

definition radio_d75 :: radio_info where
  "radio_d75 = \<lparr>ri_name = ''Kenwood TH-D75'', ri_model = ''th-d75'',
     ri_bluetooth = Some (kenwood_bluetooth ''TH-D75''), ri_ble = None,
     ri_usb = Some (kenwood_usb (Some (0x2166, 0x9023)))\<rparr>"

definition radio_d74 :: radio_info where
  "radio_d74 = \<lparr>ri_name = ''Kenwood TH-D74'', ri_model = ''th-d74'',
     ri_bluetooth = Some (kenwood_bluetooth ''TH-D74''), ri_ble = None,
     ri_usb = Some (kenwood_usb None)\<rparr>"

definition radio_td_h9 :: radio_info where
  "radio_td_h9 = \<lparr>ri_name = ''TIDRADIO TD-H9'', ri_model = ''td-h9'', ri_bluetooth = None,
     ri_ble = Some \<lparr>rl_name_prefix = ''TD-H9'',
       rl_setup =
         ''On the radio, set Menu > Bluetooth > BT On/Off to On and BT Mode to Receiver, and Menu > '' @
         ''APRS > APRS Switch to On (with it off, the radio transmits but passes nothing it '' @
         ''receives to the bridge). Disconnect any phone app from it: while something is connected, '' @
         ''it doesn't advertise.''\<rparr>,
     ri_usb = None\<rparr>"

definition MODELS :: "model_info list" where
  "MODELS =
     [\<lparr>mi_model = Generic, mi_names = [''generic''],
       mi_summary = ''the default: any TNC that's always in KISS mode; nothing is sent to it'',
       mi_radios = [radio_ha2]\<rparr>,
      \<lparr>mi_model = ThD7x, mi_names = [''th-d74'', ''th-d75''],
       mi_summary =
         ''Kenwood TH-D74/D75: switched to KISS mode at every connect, checked for KISS on the '' @
         ''right interface (menu 983), reconnected if it stops answering, and with '' @
         ''exit_kiss_on_disconnect put back in the mode it was found in'',
       mi_radios = [radio_d75, radio_d74]\<rparr>,
      \<lparr>mi_model = TdH9, mi_names = [''td-h9''],
       mi_summary =
         ''TIDRADIO TD-H9: KISS over BLE on TIDRADIO's own GATT service (af00) instead of the BLE '' @
         ''KISS API's; otherwise like generic'',
       mi_radios = [radio_td_h9]\<rparr>]"

definition radios :: "radio_info list" where
  "radios = concat (map mi_radios MODELS)"

definition radio_by_bluetooth_name :: "string \<Rightarrow> radio_info option" where
  "radio_by_bluetooth_name name =
     find (\<lambda>r. (case ri_bluetooth r of None \<Rightarrow> False | Some b \<Rightarrow> starts_with (rb_name_prefix b) name)
             \<or> (case ri_ble r of None \<Rightarrow> False | Some b \<Rightarrow> starts_with (rl_name_prefix b) name)) radios"

definition radio_by_usb_id :: "u16 \<Rightarrow> u16 \<Rightarrow> radio_info option" where
  "radio_by_usb_id vendor product =
     find (\<lambda>r. Option.bind (ri_usb r) ru_id = Some (vendor, product)) radios"

text \<open>\<open>TncModel::info\<close> panics on a model that is not in the table; \<open>model_info_total\<close> below shows
  that there is none.\<close>

definition tnc_model_info :: "tnc_model \<Rightarrow> model_info option" where
  "tnc_model_info model = find (\<lambda>m. mi_model m = model) MODELS"

definition parse_tnc_model :: "string \<Rightarrow> value_err + tnc_model" where
  "parse_tnc_model s =
     (case find (\<lambda>m. s \<in> set (mi_names m)) MODELS of
        Some m \<Rightarrow> Inr (mi_model m)
      | None \<Rightarrow> Inl (Unknown_Model s))"

definition show_tnc_model :: "tnc_model \<Rightarrow> string option" where
  "show_tnc_model model = map_option (\<lambda>m. join_on CHR ''/'' (mi_names m)) (tnc_model_info model)"

section \<open>Adapter addresses round trip\<close>

lemma hex_digit_upper: "d < 16 \<Longrightarrow> to_digit 16 (hex_digits_upper ! d) = Some d \<and> hex_digits_upper ! d \<noteq> CHR ''+''"
proof -
  have "\<forall>d \<in> {0..<16 :: nat}. to_digit 16 (hex_digits_upper ! d) = Some d \<and> hex_digits_upper ! d \<noteq> CHR ''+''" by code_simp
  then show "d < 16 \<Longrightarrow> to_digit 16 (hex_digits_upper ! d) = Some d \<and> hex_digits_upper ! d \<noteq> CHR ''+''" by simp
qed

lemma parse_u8_hex_hex2: "parse_u8_hex (hex2_upper b) = Some b"
proof -
  have b: "unat b < 256" by (rule order_less_le_trans [OF unsigned_less]) simp
  then have "parse_unsigned 16 256 [hex_digits_upper ! (unat b div 16), hex_digits_upper ! (unat b mod 16)] = Some (unat b)"
    using hex_digit_upper [of "unat b div 16"] hex_digit_upper [of "unat b mod 16"]
    by (simp add: parse_unsigned_def Let_def)
  then show ?thesis by (simp add: parse_u8_hex_def hex2_upper_def)
qed

lemma length_hex2_upper [simp]: "length (hex2_upper b) = 2"
  by (simp add: hex2_upper_def)

lemma hex2_upper_no_colon: "CHR '':'' \<notin> set (hex2_upper b)"
proof -
  have "\<forall>n \<in> {0..<16 :: nat}. hex_digits_upper ! n \<noteq> CHR '':''" by code_simp
  moreover have "unat b < 256" by (rule order_less_le_trans [OF unsigned_less]) simp
  ultimately show ?thesis by (auto simp: hex2_upper_def)
qed

lemma mac_octets_hex2: "mac_octets s (map hex2_upper bs) = Inr bs"
  by (induction bs) (simp_all add: parse_u8_hex_hex2)

lemma parse_mac_length: "parse_mac s = Inr (Mac bs) \<Longrightarrow> length bs = 6"
proof -
  have "mac_octets s ps = Inr bs \<Longrightarrow> length bs = length ps" for ps
    by (induction ps arbitrary: bs) (auto split: if_splits option.splits sum.splits)
  then show "parse_mac s = Inr (Mac bs) \<Longrightarrow> length bs = 6"
    by (cases "mac_octets s (split_on CHR '':'' s)") (auto simp: parse_mac_def Let_def split: if_splits)
qed

text \<open>C24: printing a six-octet adapter address and parsing it gives the address back, and every text the
  parser accepts yields such an address; so parsing is onto the addresses that can be printed.\<close>

theorem mac_roundtrip:
  "parse_mac (show_mac (Mac bs)) = Inr (Mac bs) \<longleftrightarrow> length bs = 6"
proof
  assume "parse_mac (show_mac (Mac bs)) = Inr (Mac bs)"
  then show "length bs = 6" by (rule parse_mac_length)
next
  assume "length bs = 6"
  moreover from this have "split_on CHR '':'' (show_mac (Mac bs)) = map hex2_upper bs"
    using hex2_upper_no_colon by (auto intro!: split_join_on)
  ultimately show "parse_mac (show_mac (Mac bs)) = Inr (Mac bs)"
    by (simp add: parse_mac_def mac_octets_hex2)
qed

text \<open>Octets are read with \<open>from_str_radix\<close>, which takes a sign: \<open>+5\<close> passes as an octet.\<close>

lemma mac_accepts_sign: "parse_mac ''+5:00:00:00:00:0a'' = Inr (Mac [5, 0, 0, 0, 0, 10])"
  by code_simp

section \<open>Listener conflicts\<close>

text \<open>What a listener occupies on a host whose interface \<open>n\<close> has the addresses \<open>host n\<close>: pairs of
  address and port, where the unspecified address stands for every address.\<close>

fun occupies :: "(string \<Rightarrow> ip_addr set) \<Rightarrow> listen \<Rightarrow> (ip_addr \<times> u16) set" where
  "occupies host (Addr (Sock ip p _)) = (if is_unspecified ip then UNIV \<times> {p} else {(ip, p)})"
| "occupies host (Interface n p) = host n \<times> {p}"

lemma occupies_port: "(ip, p) \<in> occupies host l \<Longrightarrow> p = listen_port l"
  by (cases "(host, l)" rule: occupies.cases) (auto split: if_splits)

lemma no_conflict_host:
  assumes "\<not> conflicts_with a b"
  shows "\<exists>host. (\<forall>n. host n \<noteq> {}) \<and> occupies host a \<inter> occupies host b = {}"
proof (cases "listen_port a = listen_port b")
  case False
  then have "occupies host a \<inter> occupies host b = {}" for host
    by (auto dest: occupies_port)
  then show ?thesis by (intro exI [of _ "\<lambda>_. {V4 []}"]) simp
next
  case ports: True
  have fresh: "\<exists>x. x \<noteq> ip" for ip :: ip_addr
    by (intro exI [of _ "if ip = V4 [] then V6 [] else V4 []"]) simp
  show ?thesis
  proof (cases a; cases b)
    fix x y assume "a = Addr x" "b = Addr y"
    with assms ports show ?thesis
      by (cases x; cases y) (auto simp: conflicts_with_def intro!: exI [of _ "\<lambda>_. {V4 []}"])
  next
    fix x n p assume ab: "a = Addr x" "b = Interface n p"
    obtain ip where "ip \<noteq> sock_ip x" using fresh by blast
    with ab assms ports show ?thesis
      by (cases x) (auto simp: conflicts_with_def intro!: exI [of _ "\<lambda>_. {ip}"])
  next
    fix x n p assume ab: "a = Interface n p" "b = Addr x"
    obtain ip where "ip \<noteq> sock_ip x" using fresh by blast
    with ab assms ports show ?thesis
      by (cases x) (auto simp: conflicts_with_def intro!: exI [of _ "\<lambda>_. {ip}"])
  next
    fix n p m q assume "a = Interface n p" "b = Interface m q"
    with assms ports show ?thesis
      by (auto simp: conflicts_with_def split: if_splits intro!: exI [of _ "\<lambda>k. if k = n then {V4 []} else {V6 []}"])
  qed
qed

lemma conflict_overlap:
  assumes "conflicts_with a b" and "\<forall>n. host n \<noteq> {}"
  shows "occupies host a \<inter> occupies host b \<noteq> {}"
  using assms
  by (cases "(host, a)" rule: occupies.cases; cases "(host, b)" rule: occupies.cases)
    (auto simp: conflicts_with_def split: if_splits)



lemma conflicts_with_sym: "conflicts_with a b = conflicts_with b a"
  by (cases a; cases b) (auto simp: conflicts_with_def)

section \<open>Durations\<close>

text \<open>Text that starts and ends with a visible ASCII character is not changed by \<open>trim\<close>.\<close>

definition visible :: "char \<Rightarrow> bool" where "visible c \<longleftrightarrow> 32 < code c \<and> code c < 127"

lemma trim_visible:
  assumes "s = [] \<or> visible (hd s) \<and> visible (last s)"
  shows "trim s = s"
proof (cases "s = []")
  case True
  then show ?thesis by (simp add: trim_def trim_start.simps trim_end.simps)
next
  case False
  with assms have v: "visible (hd s)" "visible (last s)" by auto
  from False obtain c cs where s: "s = c # cs" by (cases s) auto
  with v have "white_prefix s = 0"
    by (auto simp: white_prefix_def white_codes_def visible_def split: list.splits)
  then have st: "trim_start s = s" by (subst trim_start.simps) simp
  have "white_codes (map code (drop (length s - k) s)) = k \<Longrightarrow> k = 0" if "k \<le> length s" "k \<le> 3" for k
  proof -
    assume w: "white_codes (map code (drop (length s - k) s)) = k"
    define t where "t = drop (length s - k) s"
    have "length t = k" using that by (simp add: t_def)
    moreover have "k \<noteq> 0 \<Longrightarrow> last t = last s" using that by (simp add: t_def)
    ultimately show "k = 0" using w v(2) that(2) unfolding t_def [symmetric]
      by (cases t; cases "tl t"; cases "tl (tl t)"; cases "tl (tl (tl t))")
        (auto simp: white_codes_def visible_def split: if_splits)
  qed
  from this [of 1] this [of 2] this [of 3] have "white_suffix s = 0"
    unfolding white_suffix_def Let_def by auto
  then have "trim_end s = s" by (subst trim_end.simps) simp
  with st show ?thesis by (simp add: trim_def)
qed

lemma digit_visible: "is_ascii_digit c \<Longrightarrow> visible c"
  by (simp add: is_ascii_digit_def visible_def)

lemma split_digits:
  "unit = [] \<or> \<not> is_ascii_digit (hd unit) \<Longrightarrow>
   takeWhile is_ascii_digit (decimal_digits n @ unit) = decimal_digits n \<and>
   dropWhile is_ascii_digit (decimal_digits n @ unit) = unit"
  using decimal_digits_all [of _ n]
  by (cases unit) (auto simp: takeWhile_append2 dropWhile_append2 takeWhile_eq_all_conv dropWhile_eq_Nil_conv)

text \<open>The factor of a unit, in milliseconds, and whether the source multiplies seconds (and so can
  overflow).\<close>

fun unit_seconds :: "string \<Rightarrow> nat option" where
  "unit_seconds u = (if u = '''' \<or> u = ''s'' then Some 1 else if u = ''m'' then Some 60
     else if u = ''h'' then Some 3600 else None)"

lemma parse_duration_show:
  assumes "n < 2 ^ 64" and u: "unit \<in> {'''', ''s'', ''ms'', ''m'', ''h''}"
  shows "parse_duration (show_nat n @ unit) =
    Inr (if unit = ''ms'' then n else (n * the (unit_seconds unit) mod 2 ^ 64) * 1000)"
proof -
  have hd: "visible (hd (decimal_digits n @ unit))"
    using decimal_digits_all [of "hd (decimal_digits n)" n] by (simp add: digit_visible)
  have "visible (last (decimal_digits n @ unit))"
    using u decimal_digits_all [of "last (decimal_digits n)" n]
    by (auto simp: digit_visible last_append) (simp_all add: visible_def code_def)
  with hd have "trim (show_nat n @ unit) = show_nat n @ unit"
    by (intro trim_visible) (simp add: show_nat_def)
  moreover have "trim unit = unit"
    using u by (intro trim_visible) (auto simp: visible_def code_def)
  moreover have "parse_u64 (show_nat n) = Some (of_nat n)"
    using assms(1) by (simp add: parse_u64_def parse_unsigned_show)
  moreover have "takeWhile is_ascii_digit (show_nat n @ unit) = show_nat n \<and>
      dropWhile is_ascii_digit (show_nat n @ unit) = unit"
    unfolding show_nat_def using u by (intro split_digits) (auto simp: is_ascii_digit_def code_def)
  moreover have "unat (of_nat k :: u64) = k mod 2 ^ 64" for k
    by (simp add: unat_of_nat take_bit_eq_mod)
  moreover have "unat (of_nat n * c :: u64) = n * unat c mod 2 ^ 64" for c
    using assms(1) by (simp add: unat_word_ariths unat_of_nat take_bit_eq_mod)
  ultimately show ?thesis
    using assms by (auto simp: parse_duration_def Let_def)
qed

text \<open>C23: a number of seconds, minutes or hours is read exactly as long as the seconds fit in 64 bits;
  beyond that the multiplication wraps around and the duration is another one.\<close>

theorem parse_duration_exact_iff:
  assumes "n < 2 ^ 64" and "unit_seconds unit = Some k"
  shows "parse_duration (show_nat n @ unit) = Inr (n * k * 1000) \<longleftrightarrow> n * k < 2 ^ 64"
proof -
  have "unit \<in> {'''', ''s'', ''ms'', ''m'', ''h''}" "unit \<noteq> ''ms''"
    using assms(2) by (auto split: if_splits)
  then have "parse_duration (show_nat n @ unit) = Inr ((n * k mod 2 ^ 64) * 1000)"
    using parse_duration_show [OF assms(1), of unit] assms(2) by simp
  moreover have "(x :: nat) mod 2 ^ 64 = x \<longleftrightarrow> x < 2 ^ 64" for x
    using mod_less_divisor [of "2 ^ 64" x] by (auto simp del: mod_less_divisor)
  ultimately show ?thesis by simp
qed

theorem parse_duration_exact_iff_witness:
  "parse_duration ''90s'' = Inr 90000 \<and>
   parse_duration ''307445734561825861m'' \<noteq> Inr (307445734561825861 * 60 * 1000)"
proof
  have "show_nat 90 = ''90''" by code_simp
  then show "parse_duration ''90s'' = Inr 90000"
    using parse_duration_exact_iff [of 90 "''s''" 1] by simp
next
  have "show_nat 307445734561825861 = ''307445734561825861''"
    by (simp add: show_nat_def decimal_digits.simps char_of_def bit_simps)
  then show "parse_duration ''307445734561825861m'' \<noteq> Inr (307445734561825861 * 60 * 1000)"
    using parse_duration_exact_iff [of 307445734561825861 "''m''" 60] by simp
qed

section \<open>Listener texts and models\<close>

lemma digits_value_bad: "c \<in> set s \<Longrightarrow> to_digit r c = None \<Longrightarrow> digits_value r acc s = None"
  by (induction r acc s rule: digits_value.induct) (auto split: option.splits)

lemma parse_unsigned_bad: "c \<in> set (tl s) \<Longrightarrow> to_digit r c = None \<Longrightarrow> parse_unsigned r k s = None"
  by (cases s) (auto simp: parse_unsigned_def Let_def digits_value_bad split: option.splits)

lemma parse_listen_v4:
  "parse_listen (show_listen (Addr (Sock (V4 [a, b, c, d]) p 0))) = Inr (Addr (Sock (V4 [a, b, c, d]) p 0))"
proof -
  let ?s = "show_socket_addr (Sock (V4 [a, b, c, d]) p 0)"
  have "CHR ''.'' \<in> set (tl ?s)"
    by (auto simp: show_ipv4_def show_u8_def show_nat_def)
  then have "parse_u16 ?s = None"
    unfolding parse_u16_def using parse_unsigned_bad [of "CHR ''.''" ?s 10] by simp
  then show ?thesis using parse_socket_addr_show_v4 [of a b c d p] by (simp add: parse_listen_def)
qed

lemma parse_listen_port: "parse_listen (show_nat (unat p)) = Inr (Addr (Sock localhost p 0))"
proof -
  have "unat p < 2 ^ 16" by (rule order_less_le_trans [OF unsigned_less]) simp
  then show ?thesis by (simp add: parse_listen_def parse_u16_def parse_unsigned_show)
qed

lemma model_info_total: "\<exists>i. tnc_model_info m = Some i \<and> mi_model i = m"
  by (cases m) (simp_all add: tnc_model_info_def MODELS_def)

text \<open>The model table is unambiguous: a text names a model iff it is among the names listed for that
  model, and every radio in the table has a model that can be written in a configuration.\<close>

theorem model_names_unambiguous:
  "parse_tnc_model s = Inr m \<longleftrightarrow> (\<exists>i. tnc_model_info m = Some i \<and> s \<in> set (mi_names i))"
  by (cases m) (auto simp: parse_tnc_model_def tnc_model_info_def MODELS_def)

lemma radios_have_models: "r \<in> set radios \<Longrightarrow> \<exists>m. parse_tnc_model (ri_model r) = Inr m"
  by (auto simp: radios_def MODELS_def radio_ha2_def radio_d75_def radio_d74_def radio_td_h9_def
      parse_tnc_model_def)

end
