(* ===== verification/Config_Resolve.thy ===== *)
theory Config_Resolve
  imports Config_Values Config_Model
begin

text \<open>
  The effective configuration and its resolution, the second half of
  \<^verbatim>\<open>src/config/resolve.rs\<close>, with \<open>Source\<close> and \<open>Problem\<close> of \<^verbatim>\<open>src/config/mod.rs\<close>. Every value error
  is collected, in the order the source finds them: a step returns the problems it adds and its
  value. \<open>IpNet\<close> of the \<open>ipnet\<close> crate is a type variable; its parser and its conversion from an
  address are the parameters \<open>parse_net\<close> and \<open>net_of_ip\<close>.
\<close>

section \<open>Sources and problems\<close>

datatype source = Static string | Dynamic  \<comment> \<open>a static source has the path of its file\<close>

fun is_static :: "source \<Rightarrow> bool" where
  "is_static (Static _) = True"
| "is_static Dynamic = False"

text \<open>What a problem is about. \<open>Obj_Bridge_Name\<close> is a bridge that has no id.\<close>

datatype object =
    Obj_None
  | Obj_Global_Adapter
  | Obj_Adapter string
  | Obj_Tnc string
  | Obj_Bridge string
  | Obj_Bridge_Name string
  | Obj_Port object string
  | Obj_Path string

text \<open>The messages of resolution, of \<open>validate\<close>, of loading and of \<open>set_aside_collisions\<close>.\<close>

datatype msg =
    Value value_err
  | In_Field string value_err  \<comment> \<open>the field, its value error\<close>
  | Static_Refers_To_Dynamic string string  \<comment> \<open>what kind of object, its id\<close>
  | Unknown_Adapter string
  | Bridge_Needs_Id
  | Name_Empty
  | Public_Name_Empty
  | Max_Clients_Zero
  | Bad_Allow string
  | Tnc_No_Section string string
  | Tnc_Undefined string
  | Bad_Channel u8
  | Serial_Path_Relative string
  | Baud_Zero
  | Tnc_No_Transport
  | Adapter_Id_Shape
  | Duplicate_Id source
  | Duplicate_Mac mac string source
  | Duplicate_Address mac adapter_sel string source
  | Duplicate_Path string string source
  | Duplicate_Name string string source
  | Duplicate_Port
  | Needs_One_Tnc nat
  | Needs_App
  | Same_Public_Name string string
  | Same_Tnc string string string
  | Same_Listen listen string string listen
  | Same_Ble_Adapter adapter_sel string string
  | Warn_Ble_Name string
  | Warn_Unstable_Path string string
  | Warn_Path_Absent string string
  | Warn_Open_Listen listen
  | Warn_Announce_Loopback
  | Warn_Interface_Absent string
  | Warn_None_Enabled
  | Warn_No_Bridges
  | Warn_Set_Aside_Id string
  | Warn_Set_Aside_Name string
  | Warn_Legacy_Conf
  | Parse_Error string
  | Global_Not_Here
  | Cant_Read_File string
  | Cant_Read_Dir string
  | Note_Dynamic_Not_Read string string
  | Note_State_Unreadable string string
  | Note_State_Not_Read string string

record problem =
  pr_source :: "source option"
  pr_object :: object
  pr_message :: msg

definition new_problem :: "source option \<Rightarrow> object \<Rightarrow> msg \<Rightarrow> problem" where
  "new_problem s ob m = \<lparr>pr_source = s, pr_object = ob, pr_message = m\<rparr>"

section \<open>The effective configuration\<close>

record global =
  g_log_level :: string
  g_adapter :: adapter_sel

record control =
  c_group :: string

record adapter =
  a_id :: string
  a_mac :: mac
  a_source :: source

record spp =
  spp_address :: mac
  spp_adapter :: adapter_sel
  spp_channel :: "u8 option"

record ble =
  ble_address :: mac
  ble_adapter :: adapter_sel

record serial_device =
  ser_dev_path :: string
  ser_dev_baud :: u32

record tnc =
  t_id :: string
  t_name :: string
  t_model :: tnc_model
  t_spp :: "spp option"
  t_ble :: "ble option"
  t_serial :: "serial_device option"
  t_source :: source

text \<open>The last fields of the TNC ports: connect, idle\_timeout, exit\_kiss\_on\_disconnect.\<close>

datatype 'net port_kind =
    TcpClient (tc_host: string) (tc_port: u16) connect_policy millis
  | TcpServer (ts_listen: listen) (ts_max: "u32 option") (ts_allow: "'net list") (ts_announce: bool)
  | BleServer (bs_adapter: adapter_sel) (bs_max: u32)
  | SppClient string tnc_model spp connect_policy millis bool
  | BleClient string tnc_model ble connect_policy millis bool
  | Serial string tnc_model serial_device connect_policy millis bool

record 'net port =
  p_id :: string
  p_role :: role
  p_kind :: "'net port_kind"

record 'net bridge =
  b_id :: string
  b_name :: string
  b_public_name :: string
  b_enabled :: bool
  b_enabled_override :: "bool option"
  b_app_params :: app_params
  b_ports :: "'net port list"
  b_source :: source

record 'net config =
  cfg_global :: global
  cfg_control :: control
  cfg_adapters :: "adapter list"
  cfg_tncs :: "tnc list"
  cfg_bridges :: "'net bridge list"

definition adapter_sel_of :: "'net config \<Rightarrow> string \<Rightarrow> adapter_sel option" where
  "adapter_sel_of cfg v =
     (case parse_adapter_value v of
        AV_Mac m \<Rightarrow> Some (Sel_Mac m)
      | AV_Hci h \<Rightarrow> Some (Sel_Hci h)
      | AV_Id i \<Rightarrow> map_option (\<lambda>a. Sel_Mac (a_mac a)) (find (\<lambda>a. a_id a = i) (cfg_adapters cfg)))"

definition cfg_tnc :: "'net config \<Rightarrow> string \<Rightarrow> tnc option" where
  "cfg_tnc cfg i = find (\<lambda>t. t_id t = i) (cfg_tncs cfg)"

definition describe_adapter_in :: "'net config \<Rightarrow> adapter_sel \<Rightarrow> string" where
  "describe_adapter_in cfg sel =
     (case sel of
        Sel_Mac m \<Rightarrow>
          (case find (\<lambda>a. a_mac a = m) (cfg_adapters cfg) of
             Some a \<Rightarrow> a_id a @ '' ('' @ show_mac m @ '')''
           | None \<Rightarrow> show_adapter_sel sel)
      | _ \<Rightarrow> show_adapter_sel sel)"

definition tnc_ports :: "'net bridge \<Rightarrow> 'net port list" where
  "tnc_ports b = filter (\<lambda>p. p_role p = Role_Tnc) (b_ports b)"

definition app_ports :: "'net bridge \<Rightarrow> 'net port list" where
  "app_ports b = filter (\<lambda>p. p_role p = Role_App) (b_ports b)"

datatype incomplete_reason = No_Tnc_Port | Many_Tnc_Ports nat | No_App_Port

definition incomplete :: "'net bridge \<Rightarrow> incomplete_reason list" where
  "incomplete b =
     (let n = length (tnc_ports b) in
      (if n = 0 then [No_Tnc_Port] else if n = 1 then [] else [Many_Tnc_Ports n])
      @ (if app_ports b = [] then [No_App_Port] else []))"

definition bridge_port :: "'net bridge \<Rightarrow> string \<Rightarrow> 'net port option" where
  "bridge_port b i = find (\<lambda>p. p_id p = i) (b_ports b)"

definition type_name :: "'net port \<Rightarrow> string" where
  "type_name p =
     (case p_kind p of
        TcpClient _ _ _ _ \<Rightarrow> ''tcp-client''
      | TcpServer _ _ _ _ \<Rightarrow> ''tcp-server''
      | BleServer _ _ \<Rightarrow> ''ble-server''
      | SppClient _ _ _ _ _ _ \<Rightarrow> ''spp-client''
      | BleClient _ _ _ _ _ _ \<Rightarrow> ''ble-client''
      | Serial _ _ _ _ _ _ \<Rightarrow> ''serial'')"

definition tnc_id :: "'net port \<Rightarrow> string option" where
  "tnc_id p =
     (case p_kind p of
        SppClient t _ _ _ _ _ \<Rightarrow> Some t
      | BleClient t _ _ _ _ _ \<Rightarrow> Some t
      | Serial t _ _ _ _ _ \<Rightarrow> Some t
      | _ \<Rightarrow> None)"

definition port_connect_policy :: "'net port \<Rightarrow> (connect_policy \<times> millis) option" where
  "port_connect_policy p =
     (case p_kind p of
        TcpClient _ _ c i \<Rightarrow> Some (c, i)
      | SppClient _ _ _ c i _ \<Rightarrow> Some (c, i)
      | BleClient _ _ _ c i _ \<Rightarrow> Some (c, i)
      | Serial _ _ _ c i _ \<Rightarrow> Some (c, i)
      | TcpServer _ _ _ _ \<Rightarrow> None
      | BleServer _ _ \<Rightarrow> None)"

section \<open>Resolution\<close>

definition resolve_adapter :: "adapter_def \<Rightarrow> source \<Rightarrow> problem + adapter" where
  "resolve_adapter d src =
     (let ob = Obj_Adapter (ad_id d) in
      case check_id (ad_id d) ''adapter'' of
        Inl e \<Rightarrow> Inl (new_problem (Some src) ob (Value e))
      | Inr _ \<Rightarrow>
          if is_hci_name (ad_id d) \<or> \<not> isl (parse_mac (ad_id d))
          then Inl (new_problem (Some src) ob Adapter_Id_Shape)
          else case parse_mac (ad_mac d) of
                 Inl e \<Rightarrow> Inl (new_problem (Some src) ob (In_Field ''mac'' e))
               | Inr m \<Rightarrow> Inr \<lparr>a_id = ad_id d, a_mac = m, a_source = src\<rparr>)"

text \<open>The map of adapter ids: a later adapter with the same id replaces an earlier one.\<close>

definition adapter_ids :: "adapter list \<Rightarrow> string \<rightharpoonup> mac \<times> source" where
  "adapter_ids as = map_of (rev (map (\<lambda>a. (a_id a, (a_mac a, a_source a))) as))"

definition resolve_adapter_value ::
  "(string \<rightharpoonup> mac \<times> source) \<Rightarrow> string \<Rightarrow> source \<Rightarrow> object \<Rightarrow> problem list \<times> adapter_sel" where
  "resolve_adapter_value ids v src ob =
     (case parse_adapter_value v of
        AV_Mac m \<Rightarrow> ([], Sel_Mac m)
      | AV_Hci h \<Rightarrow> ([], Sel_Hci h)
      | AV_Id i \<Rightarrow>
          (case ids i of
             Some (m, defined) \<Rightarrow>
               ((if is_static src \<and> \<not> is_static defined
                 then [new_problem (Some src) ob (Static_Refers_To_Dynamic ''adapter'' i)] else []),
                Sel_Mac m)
           | None \<Rightarrow> ([new_problem (Some src) ob (Unknown_Adapter i)], Sel_Default)))"

text \<open>An optional adapter of a section: its own, or the fallback to \<open>[global] adapter\<close>.\<close>

definition adapter_or_global ::
  "(string \<rightharpoonup> mac \<times> source) \<Rightarrow> adapter_sel \<Rightarrow> string option \<Rightarrow> source \<Rightarrow> object \<Rightarrow> problem list \<times> adapter_sel" where
  "adapter_or_global ids global_sel v src ob =
     (case v of Some a \<Rightarrow> resolve_adapter_value ids a src ob | None \<Rightarrow> ([], global_sel))"

definition resolve_idle_timeout :: "string option \<Rightarrow> source \<Rightarrow> object \<Rightarrow> problem list \<times> millis" where
  "resolve_idle_timeout v src ob =
     (case v of
        None \<Rightarrow> ([], 0)
      | Some s \<Rightarrow>
          (case parse_duration s of
             Inr d \<Rightarrow> ([], d)
           | Inl e \<Rightarrow> ([new_problem (Some src) ob (In_Field ''idle_timeout'' e)], 0)))"

definition check_tnc_visible :: "tnc option \<Rightarrow> string \<Rightarrow> source \<Rightarrow> object \<Rightarrow> problem list" where
  "check_tnc_visible found i src ob =
     (case found of
        Some t \<Rightarrow>
          (if is_static src \<and> \<not> is_static (t_source t)
           then [new_problem (Some src) ob (Static_Refers_To_Dynamic ''tnc'' i)] else [])
      | None \<Rightarrow> [])"

definition tnc_reference_error :: "string \<Rightarrow> bool \<Rightarrow> string \<Rightarrow> msg" where
  "tnc_reference_error t defined sect = (if defined then Tnc_No_Section t sect else Tnc_Undefined t)"

definition resolve_tnc_model :: "string option \<Rightarrow> msg list \<times> tnc_model" where
  "resolve_tnc_model m =
     (case m of
        None \<Rightarrow> ([], Generic)
      | Some s \<Rightarrow> (case parse_tnc_model s of Inr x \<Rightarrow> ([], x) | Inl e \<Rightarrow> ([Value e], Generic)))"

definition resolve_address :: "string \<Rightarrow> string \<Rightarrow> msg list \<times> mac" where
  "resolve_address field s =
     (case parse_mac s of Inr a \<Rightarrow> ([], a) | Inl e \<Rightarrow> ([In_Field field e], Mac [0, 0, 0, 0, 0, 0]))"

definition resolve_spp :: "spp_def option \<Rightarrow> adapter_sel option \<Rightarrow> msg list \<times> spp option" where
  "resolve_spp d sel =
     (case d of
        None \<Rightarrow> ([], None)
      | Some s \<Rightarrow>
          (case resolve_address ''spp.address'' (sd_address s) of (es, a) \<Rightarrow>
             (es @ (case sd_channel s of
                      Some ch \<Rightarrow> if 1 \<le> ch \<and> ch \<le> 30 then [] else [Bad_Channel ch]
                    | None \<Rightarrow> []),
              Some \<lparr>spp_address = a, spp_adapter = (case sel of Some x \<Rightarrow> x | None \<Rightarrow> Sel_Default),
                    spp_channel = sd_channel s\<rparr>)))"

definition resolve_ble :: "ble_def option \<Rightarrow> adapter_sel option \<Rightarrow> msg list \<times> ble option" where
  "resolve_ble d sel =
     (case d of
        None \<Rightarrow> ([], None)
      | Some s \<Rightarrow>
          (case resolve_address ''ble.address'' (bd_address s) of (es, a) \<Rightarrow>
             (es, Some \<lparr>ble_address = a,
                        ble_adapter = (case sel of Some x \<Rightarrow> x | None \<Rightarrow> Sel_Default)\<rparr>)))"

definition resolve_serial :: "serial_def option \<Rightarrow> msg list \<times> serial_device option" where
  "resolve_serial d =
     (case d of
        None \<Rightarrow> ([], None)
      | Some s \<Rightarrow>
          (let baud = (case ser_baud s of Some x \<Rightarrow> x | None \<Rightarrow> DEFAULT_SERIAL_BAUD) in
           ((if starts_with ''/'' (ser_path s) then [] else [Serial_Path_Relative (ser_path s)])
            @ (if baud = 0 then [Baud_Zero] else []),
            Some \<lparr>ser_dev_path = ser_path s, ser_dev_baud = baud\<rparr>)))"

definition resolve_tnc ::
  "tnc_def \<Rightarrow> source \<Rightarrow> adapter_sel option \<Rightarrow> adapter_sel option \<Rightarrow> tnc \<times> problem list" where
  "resolve_tnc d src spp_sel ble_sel =
     (let name = (case td_name d of Some n \<Rightarrow> n | None \<Rightarrow> td_id d);
          e_id = (case check_id (td_id d) ''tnc'' of Inl e \<Rightarrow> [Value e] | Inr _ \<Rightarrow> []);
          e_name = (if trim name = [] then [Name_Empty] else []);
          (e_model, model) = resolve_tnc_model (td_model d);
          (e_spp, spp) = resolve_spp (td_spp d) spp_sel;
          (e_ble, ble) = resolve_ble (td_ble d) ble_sel;
          (e_ser, serial) = resolve_serial (td_serial d);
          e_none = (if spp = None \<and> ble = None \<and> serial = None then [Tnc_No_Transport] else [])
      in (\<lparr>t_id = td_id d, t_name = name, t_model = model, t_spp = spp, t_ble = ble, t_serial = serial,
           t_source = src\<rparr>,
          map (new_problem (Some src) (Obj_Tnc (td_id d)))
            (e_id @ e_name @ e_model @ e_spp @ e_ble @ e_ser @ e_none)))"

text \<open>One \<open>[[tnc]]\<close> of the loop in \<open>resolve\<close>: its adapters first, then the TNC.\<close>

definition resolve_tnc_entry ::
  "(string \<rightharpoonup> mac \<times> source) \<Rightarrow> adapter_sel \<Rightarrow> source \<Rightarrow> tnc_def \<Rightarrow> problem list \<times> tnc" where
  "resolve_tnc_entry ids global_sel src d =
     (let ob = Obj_Tnc (td_id d);
          (e1, spp_sel) = (case td_spp d of
             None \<Rightarrow> ([], None)
           | Some s \<Rightarrow> map_prod id Some (adapter_or_global ids global_sel (sd_adapter s) src ob));
          (e2, ble_sel) = (case td_ble d of
             None \<Rightarrow> ([], None)
           | Some s \<Rightarrow> map_prod id Some (adapter_or_global ids global_sel (bd_adapter s) src ob));
          (t, e3) = resolve_tnc d src spp_sel ble_sel
      in (e1 @ e2 @ e3, t))"

text \<open>\<open>unwrap_or\<close>.\<close>

definition or_default :: "'a \<Rightarrow> 'a option \<Rightarrow> 'a" where
  "or_default d v = (case v of Some x \<Rightarrow> x | None \<Rightarrow> d)"

text \<open>The three port types that name a \<open>[[tnc]]\<close> differ in the section they need (\<open>get\<close>) and the kind
  they build; without the section the port is left out (\<open>continue\<close>).\<close>

definition resolve_tnc_port ::
  "string \<Rightarrow> (tnc \<Rightarrow> 'd option) \<Rightarrow> (string \<Rightarrow> tnc_model \<Rightarrow> 'd \<Rightarrow> connect_policy \<Rightarrow> millis \<Rightarrow> bool \<Rightarrow> 'net port_kind)
   \<Rightarrow> tnc list \<Rightarrow> tnc_port_def \<Rightarrow> source \<Rightarrow> object \<Rightarrow> problem list \<times> 'net port_kind option" where
  "resolve_tnc_port sect get mk tncs d src ob =
     (let (e1, idle) = resolve_idle_timeout (tp_idle_timeout d) src ob;
          found = find (\<lambda>t. t_id t = tp_tnc d) tncs;
          e2 = check_tnc_visible found (tp_tnc d) src ob;
          bad = new_problem (Some src) ob (tnc_reference_error (tp_tnc d) (found \<noteq> None) sect)
      in case found of
           None \<Rightarrow> (e1 @ e2 @ [bad], None)
         | Some t \<Rightarrow>
             (case get t of
                None \<Rightarrow> (e1 @ e2 @ [bad], None)
              | Some x \<Rightarrow>
                  (e1 @ e2, Some (mk (t_id t) (t_model t) x (or_default default_connect_policy (tp_connect d)) idle
                               (or_default False (tp_exit_kiss d))))))"

definition parse_allow :: "(string \<Rightarrow> 'net option) \<Rightarrow> (ip_addr \<Rightarrow> 'net) \<Rightarrow> string \<Rightarrow> 'net option" where
  "parse_allow parse_net net_of_ip a =
     (case parse_net a of Some n \<Rightarrow> Some n | None \<Rightarrow> map_option net_of_ip (parse_ip a))"

definition resolve_allow ::
  "(string \<Rightarrow> 'net option) \<Rightarrow> (ip_addr \<Rightarrow> 'net) \<Rightarrow> string list option \<Rightarrow> source \<Rightarrow> object \<Rightarrow> problem list \<times> 'net list" where
  "resolve_allow parse_net net_of_ip allow src ob =
     (let as = or_default [] allow in
      (map (\<lambda>a. new_problem (Some src) ob (Bad_Allow a)) (filter (\<lambda>a. parse_allow parse_net net_of_ip a = None) as),
       List.map_filter (parse_allow parse_net net_of_ip) as))"

fun resolve_kind ::
  "(string \<Rightarrow> 'net option) \<Rightarrow> (ip_addr \<Rightarrow> 'net) \<Rightarrow> (string \<rightharpoonup> mac \<times> source) \<Rightarrow> adapter_sel \<Rightarrow> tnc list
   \<Rightarrow> source \<Rightarrow> object \<Rightarrow> port_def \<Rightarrow> problem list \<times> 'net port_kind option" where
  "resolve_kind parse_net net_of_ip ids global_sel tncs src ob (TcpClientDef _ _ address connect idle_timeout) =
     (let (e1, host, port) = (case parse_host_port address of
             Inr (h, p) \<Rightarrow> ([], h, p)
           | Inl e \<Rightarrow> ([new_problem (Some src) ob (In_Field ''address'' e)], [], 0));
          (e2, idle) = resolve_idle_timeout idle_timeout src ob
      in (e1 @ e2, Some (TcpClient host port (or_default default_connect_policy connect) idle)))"
| "resolve_kind parse_net net_of_ip ids global_sel tncs src ob (TcpServerDef _ _ listen max_clients allow announce) =
     (let (e1, l) = (case parse_listen listen of
             Inr l \<Rightarrow> ([], l)
           | Inl e \<Rightarrow> ([new_problem (Some src) ob (In_Field ''listen'' e)], Addr (Sock localhost 0 0)));
          e2 = (if max_clients = Some 0 then [new_problem (Some src) ob Max_Clients_Zero] else []);
          (e3, nets) = resolve_allow parse_net net_of_ip allow src ob
      in (e1 @ e2 @ e3, Some (TcpServer l max_clients nets (or_default (\<not> listen_is_loopback l) announce))))"
| "resolve_kind parse_net net_of_ip ids global_sel tncs src ob (BleServerDef _ _ adapter max_clients) =
     (let (e1, sel) = adapter_or_global ids global_sel adapter src ob;
          mx = or_default DEFAULT_BLE_MAX_CLIENTS max_clients;
          e2 = (if mx = 0 then [new_problem (Some src) ob Max_Clients_Zero] else [])
      in (e1 @ e2, Some (BleServer sel mx)))"
| "resolve_kind parse_net net_of_ip ids global_sel tncs src ob (SppClientDef _ _ d) =
     resolve_tnc_port ''spp'' t_spp SppClient tncs d src ob"
| "resolve_kind parse_net net_of_ip ids global_sel tncs src ob (BleClientDef _ _ d) =
     resolve_tnc_port ''ble'' t_ble BleClient tncs d src ob"
| "resolve_kind parse_net net_of_ip ids global_sel tncs src ob (SerialDef _ _ d) =
     resolve_tnc_port ''serial'' t_serial Serial tncs d src ob"

text \<open>The loop over the ports of a bridge; \<open>counts\<close> numbers the ports of each type from 0.\<close>

fun resolve_ports ::
  "(string \<Rightarrow> 'net option) \<Rightarrow> (ip_addr \<Rightarrow> 'net) \<Rightarrow> (string \<rightharpoonup> mac \<times> source) \<Rightarrow> adapter_sel \<Rightarrow> tnc list
   \<Rightarrow> source \<Rightarrow> object \<Rightarrow> (string \<Rightarrow> nat) \<Rightarrow> port_def list \<Rightarrow> problem list \<times> 'net port list" where
  "resolve_ports parse_net net_of_ip ids global_sel tncs src ob counts [] = ([], [])"
| "resolve_ports parse_net net_of_ip ids global_sel tncs src ob counts (d # ds) =
     (let n = counts (pd_type_name d);
          pid = (case pd_id d of Some i \<Rightarrow> i | None \<Rightarrow> pd_type_name d @ show_nat n);
          pob = Obj_Port ob pid;
          e1 = (case check_id pid ''port'' of Inl e \<Rightarrow> [new_problem (Some src) pob (Value e)] | Inr _ \<Rightarrow> []);
          (e2, kind) = resolve_kind parse_net net_of_ip ids global_sel tncs src pob d;
          (e3, ps) = resolve_ports parse_net net_of_ip ids global_sel tncs src ob
                       (counts(pd_type_name d := n + 1)) ds
      in (e1 @ e2 @ e3,
          case kind of
            None \<Rightarrow> ps
          | Some k \<Rightarrow> \<lparr>p_id = pid, p_role = or_default (pd_default_role d) (pd_role d), p_kind = k\<rparr> # ps))"

definition resolve_bridge ::
  "(string \<Rightarrow> 'net option) \<Rightarrow> (ip_addr \<Rightarrow> 'net) \<Rightarrow> (string \<rightharpoonup> mac \<times> source) \<Rightarrow> adapter_sel \<Rightarrow> tnc list
   \<Rightarrow> source \<Rightarrow> bridge_def \<Rightarrow> problem list \<times> 'net bridge option" where
  "resolve_bridge parse_net net_of_ip ids global_sel tncs src d =
     (case brd_id d of
        None \<Rightarrow> ([new_problem (Some src) (Obj_Bridge_Name (brd_name d)) Bridge_Needs_Id], None)
      | Some i \<Rightarrow>
          (let ob = Obj_Bridge i;
               e1 = (case check_id i ''bridge'' of Inl e \<Rightarrow> [new_problem (Some src) ob (Value e)] | Inr _ \<Rightarrow> []);
               e2 = (if trim (brd_name d) = [] then [new_problem (Some src) ob Name_Empty] else []);
               e3 = (case brd_public_name d of
                       Some n \<Rightarrow> if trim n = [] then [new_problem (Some src) ob Public_Name_Empty] else []
                     | None \<Rightarrow> []);
               (e4, ports) = resolve_ports parse_net net_of_ip ids global_sel tncs src ob (\<lambda>_. 0) (brd_ports d)
           in (e1 @ e2 @ e3 @ e4,
               Some \<lparr>b_id = i, b_name = brd_name d,
                     b_public_name = or_default (brd_name d) (brd_public_name d),
                     b_enabled = or_default True (brd_enabled d), b_enabled_override = None,
                     b_app_params = or_default default_app_params (brd_app_params d),
                     b_ports = ports, b_source = src\<rparr>)))"

text \<open>\<open>[global]\<close> and \<open>[control]\<close>: the last file that sets a value wins.\<close>

fun resolve_globals ::
  "(source \<times> config_file) list \<Rightarrow> string \<times> (source \<times> string) option \<times> string
   \<Rightarrow> string \<times> (source \<times> string) option \<times> string" where
  "resolve_globals [] acc = acc"
| "resolve_globals ((src, f) # fs) (log_level, adapter, grp) =
     resolve_globals fs
       (case cf_global f of
          None \<Rightarrow> log_level
        | Some g \<Rightarrow> or_default log_level (gs_log_level g),
        case cf_global f of
          None \<Rightarrow> adapter
        | Some g \<Rightarrow> (case gs_adapter g of Some a \<Rightarrow> Some (src, a) | None \<Rightarrow> adapter),
        case cf_control f of
          None \<Rightarrow> grp
        | Some c \<Rightarrow> or_default grp (cs_group c))"

text \<open>The definitions of one kind in all the files, each with its source, in order.\<close>

definition defs_of :: "(config_file \<Rightarrow> 'd list) \<Rightarrow> (source \<times> config_file) list \<Rightarrow> (source \<times> 'd) list" where
  "defs_of get fs = concat (map (\<lambda>(src, f). map (Pair src) (get f)) fs)"

definition resolve_adapters :: "(source \<times> config_file) list \<Rightarrow> problem list \<times> adapter list" where
  "resolve_adapters fs =
     (let rs = map (\<lambda>(src, d). resolve_adapter d src) (defs_of cf_adapter fs) in
      (List.map_filter (case_sum Some (\<lambda>_. None)) rs, List.map_filter (case_sum (\<lambda>_. None) Some) rs))"

definition resolve ::
  "(string \<Rightarrow> 'net option) \<Rightarrow> (ip_addr \<Rightarrow> 'net) \<Rightarrow> (source \<times> config_file) list \<Rightarrow> problem list + 'net config" where
  "resolve parse_net net_of_ip files =
     (let (log_level, global_adapter, control_group) =
            resolve_globals files (DEFAULT_LOG_LEVEL, None, DEFAULT_CONTROL_GROUP);
          (e1, adapters) = resolve_adapters files;
          ids = adapter_ids adapters;
          (e2, global_sel) = (case global_adapter of
             Some (src, v) \<Rightarrow> resolve_adapter_value ids v src Obj_Global_Adapter
           | None \<Rightarrow> ([], Sel_Default));
          rt = map (\<lambda>(src, d). resolve_tnc_entry ids global_sel src d) (defs_of cf_tnc files);
          tncs = map snd rt;
          rb = map (\<lambda>(src, d). resolve_bridge parse_net net_of_ip ids global_sel tncs src d) (defs_of cf_bridge files);
          errors = e1 @ e2 @ concat (map fst rt) @ concat (map fst rb)
      in if errors = []
         then Inr \<lparr>cfg_global = \<lparr>g_log_level = log_level, g_adapter = global_sel\<rparr>,
                   cfg_control = \<lparr>c_group = control_group\<rparr>,
                   cfg_adapters = adapters, cfg_tncs = tncs,
                   cfg_bridges = List.map_filter snd rb\<rparr>
         else Inl errors)"

end
