(* ===== verification/Config_Validate.thy ===== *)
theory Config_Validate
  imports Config_Resolve
begin

text \<open>
  \<^verbatim>\<open>src/config/validate.rs\<close>: structural rules, resource conflicts among enabled bridges, and warnings.
  The maps of what was seen so far are maps from keys to where the key was first or last defined,
  as \<open>HashMap::insert\<close> returns and replaces it. What the host has is a pair of parameters:
  \<open>path_exists\<close> and libc's \<open>if_nametoindex\<close>.
\<close>

definition MAX_BLE_NAME_BYTES :: nat where "MAX_BLE_NAME_BYTES = 29"

record report =
  rp_errors :: "problem list"
  rp_warnings :: "problem list"

definition report_is_ok :: "report \<Rightarrow> bool" where
  "report_is_ok r \<longleftrightarrow> rp_errors r = []"

section \<open>Duplicate definitions\<close>

text \<open>\<open>insert\<close> of a seen map: the problem if the key was there.\<close>

definition if_seen :: "'v option \<Rightarrow> ('v \<Rightarrow> problem) \<Rightarrow> problem list" where
  "if_seen prev mk = (case prev of Some v \<Rightarrow> [mk v] | None \<Rightarrow> [])"

fun adapter_errors ::
  "(string \<rightharpoonup> source) \<Rightarrow> (mac \<rightharpoonup> string \<times> source) \<Rightarrow> adapter list \<Rightarrow> problem list" where
  "adapter_errors ids macs [] = []"
| "adapter_errors ids macs (a # as) =
     (let err = new_problem (Some (a_source a)) (Obj_Adapter (a_id a)) in
      if_seen (ids (a_id a)) (\<lambda>first. err (Duplicate_Id first))
      @ if_seen (macs (a_mac a)) (\<lambda>(i, first). err (Duplicate_Mac (a_mac a) i first))
      @ adapter_errors (ids(a_id a \<mapsto> a_source a)) (macs(a_mac a \<mapsto> (a_id a, a_source a))) as)"

fun tnc_errors ::
  "(string \<rightharpoonup> source) \<Rightarrow> (mac \<times> adapter_sel \<rightharpoonup> string \<times> source) \<Rightarrow> (mac \<times> adapter_sel \<rightharpoonup> string \<times> source)
   \<Rightarrow> (string \<rightharpoonup> string \<times> source) \<Rightarrow> tnc list \<Rightarrow> problem list" where
  "tnc_errors ids spps bles paths [] = []"
| "tnc_errors ids spps bles paths (t # ts) =
     (let err = new_problem (Some (t_source t)) (Obj_Tnc (t_id t));
          here = (t_id t, t_source t);
          (e2, spps') = (case t_spp t of
             None \<Rightarrow> ([], spps)
           | Some s \<Rightarrow>
               (if_seen (spps (spp_address s, spp_adapter s))
                  (\<lambda>(i, first). err (Duplicate_Address (spp_address s) (spp_adapter s) i first)),
                spps((spp_address s, spp_adapter s) \<mapsto> here)));
          (e3, bles') = (case t_ble t of
             None \<Rightarrow> ([], bles)
           | Some s \<Rightarrow>
               (if_seen (bles (ble_address s, ble_adapter s))
                  (\<lambda>(i, first). err (Duplicate_Address (ble_address s) (ble_adapter s) i first)),
                bles((ble_address s, ble_adapter s) \<mapsto> here)));
          (e4, paths') = (case t_serial t of
             None \<Rightarrow> ([], paths)
           | Some s \<Rightarrow>
               (if_seen (paths (ser_dev_path s)) (\<lambda>(i, first). err (Duplicate_Path (ser_dev_path s) i first)),
                paths(ser_dev_path s \<mapsto> here)))
      in if_seen (ids (t_id t)) (\<lambda>first. err (Duplicate_Id first)) @ e2 @ e3 @ e4
         @ tnc_errors (ids(t_id t \<mapsto> t_source t)) spps' bles' paths' ts)"

section \<open>The structure of each bridge\<close>

fun port_errors :: "source \<Rightarrow> object \<Rightarrow> string set \<Rightarrow> 'net port list \<Rightarrow> problem list" where
  "port_errors src ob seen [] = []"
| "port_errors src ob seen (p # ps) =
     (if p_id p \<in> seen then [new_problem (Some src) (Obj_Port ob (p_id p)) Duplicate_Port] else [])
     @ port_errors src ob (insert (p_id p) seen) ps"

definition structure_errors :: "'net bridge \<Rightarrow> problem list" where
  "structure_errors b =
     (let err = new_problem (Some (b_source b)) (Obj_Bridge (b_id b));
          n = length (tnc_ports b)
      in (if b_enabled b \<and> n \<noteq> 1 then [err (Needs_One_Tnc n)] else [])
         @ (if b_enabled b \<and> length (app_ports b) = 0 then [err Needs_App] else []))"

fun bridge_errors ::
  "(string \<rightharpoonup> source) \<Rightarrow> (string \<rightharpoonup> string \<times> source) \<Rightarrow> 'net bridge list \<Rightarrow> problem list" where
  "bridge_errors ids names [] = []"
| "bridge_errors ids names (b # bs) =
     (let err = new_problem (Some (b_source b)) (Obj_Bridge (b_id b)) in
      if_seen (ids (b_id b)) (\<lambda>first. err (Duplicate_Id first))
      @ if_seen (names (b_name b)) (\<lambda>(i, first). err (Duplicate_Name (b_name b) i first))
      @ port_errors (b_source b) (Obj_Bridge (b_id b)) {} (b_ports b)
      @ structure_errors b
      @ bridge_errors (ids(b_id b \<mapsto> b_source b)) (names(b_name b \<mapsto> (b_id b, b_source b))) bs)"

section \<open>Warnings\<close>

definition is_stable_serial_path :: "string \<Rightarrow> bool" where
  "is_stable_serial_path path \<longleftrightarrow>
     starts_with ''/dev/serial/by-id/'' path \<or> starts_with ''/dev/serial/by-path/'' path"

text \<open>\<open>CString::new\<close> refuses a name with a NUL byte.\<close>

definition interface_exists :: "(string \<Rightarrow> nat) \<Rightarrow> string \<Rightarrow> bool" where
  "interface_exists if_nametoindex name =
     (if char_of (0 :: nat) \<in> set name then False else if_nametoindex name \<noteq> 0)"

definition serial_warnings ::
  "(string \<Rightarrow> bool) \<Rightarrow> bool \<Rightarrow> 'net bridge \<Rightarrow> (msg \<Rightarrow> problem) \<Rightarrow> 'net port_kind \<Rightarrow> problem list" where
  "serial_warnings path_exists host_checks b warn k =
     (case k of
        Serial t _ ser _ _ _ \<Rightarrow>
          if b_enabled b then
            (if \<not> is_stable_serial_path (ser_dev_path ser) then [warn (Warn_Unstable_Path t (ser_dev_path ser))] else [])
            @ (if host_checks \<and> \<not> path_exists (ser_dev_path ser) then [warn (Warn_Path_Absent t (ser_dev_path ser))] else [])
          else []
      | _ \<Rightarrow> [])"

definition server_warnings ::
  "(string \<Rightarrow> nat) \<Rightarrow> bool \<Rightarrow> 'net bridge \<Rightarrow> (msg \<Rightarrow> problem) \<Rightarrow> 'net port_kind \<Rightarrow> problem list" where
  "server_warnings if_nametoindex host_checks b warn k =
     (case k of
        TcpServer l _ allow announce \<Rightarrow>
          (if listen_is_unspecified l \<and> allow = [] then [warn (Warn_Open_Listen l)] else [])
          @ (if announce \<and> listen_is_loopback l then [warn Warn_Announce_Loopback] else [])
          @ (case l of
               Interface name _ \<Rightarrow>
                 if host_checks \<and> b_enabled b \<and> \<not> interface_exists if_nametoindex name
                 then [warn (Warn_Interface_Absent name)] else []
             | Addr _ \<Rightarrow> [])
      | _ \<Rightarrow> [])"

definition is_ble_server :: "'net port \<Rightarrow> bool" where
  "is_ble_server p = (case p_kind p of BleServer _ _ \<Rightarrow> True | _ \<Rightarrow> False)"

definition bridge_warnings ::
  "(string \<Rightarrow> bool) \<Rightarrow> (string \<Rightarrow> nat) \<Rightarrow> bool \<Rightarrow> 'net bridge \<Rightarrow> problem list" where
  "bridge_warnings path_exists if_nametoindex host_checks b =
     (if list_ex is_ble_server (b_ports b) \<and> length (b_public_name b) > MAX_BLE_NAME_BYTES
      then [new_problem (Some (b_source b)) (Obj_Bridge (b_id b)) (Warn_Ble_Name (b_public_name b))] else [])
     @ concat (map (\<lambda>p.
         let warn = new_problem (Some (b_source b)) (Obj_Port (Obj_Bridge (b_id b)) (p_id p)) in
         serial_warnings path_exists host_checks b warn (p_kind p)
         @ server_warnings if_nametoindex host_checks b warn (p_kind p)) (b_ports b))"

section \<open>Conflicts among enabled bridges\<close>

definition port_conflicts :: "'net bridge \<Rightarrow> 'net bridge \<Rightarrow> 'net port \<Rightarrow> 'net port \<Rightarrow> problem list" where
  "port_conflicts a b pa pb =
     (let err = new_problem (Some (b_source b)) (Obj_Port (Obj_Bridge (b_id b)) (p_id pb)) in
      (case (tnc_id pa, tnc_id pb) of
         (Some ta, Some tb) \<Rightarrow> if ta = tb then [err (Same_Tnc tb (b_id a) (p_id pa))] else []
       | _ \<Rightarrow> [])
      @ (case (p_kind pa, p_kind pb) of
           (TcpServer la _ _ _, TcpServer lb _ _ _) \<Rightarrow>
             if conflicts_with la lb then [err (Same_Listen lb (b_id a) (p_id pa) la)] else []
         | (BleServer aa _, BleServer ab _) \<Rightarrow>
             if aa = ab then [err (Same_Ble_Adapter ab (b_id a) (p_id pa))] else []
         | _ \<Rightarrow> []))"

definition bridge_conflicts :: "'net bridge \<Rightarrow> 'net bridge \<Rightarrow> problem list" where
  "bridge_conflicts a b =
     (if b_public_name a = b_public_name b
      then [new_problem (Some (b_source b)) (Obj_Bridge (b_id b)) (Same_Public_Name (b_public_name b) (b_id a))] else [])
     @ concat (map (\<lambda>pa. concat (map (port_conflicts a b pa) (b_ports b))) (b_ports a))"

fun conflict_errors :: "'net bridge list \<Rightarrow> problem list" where
  "conflict_errors [] = []"
| "conflict_errors (a # bs) = concat (map (bridge_conflicts a) bs) @ conflict_errors bs"

definition enabled_bridges :: "'net config \<Rightarrow> 'net bridge list" where
  "enabled_bridges cfg = filter b_enabled (cfg_bridges cfg)"

definition validate ::
  "(string \<Rightarrow> bool) \<Rightarrow> (string \<Rightarrow> nat) \<Rightarrow> 'net config \<Rightarrow> bool \<Rightarrow> report" where
  "validate path_exists if_nametoindex cfg host_checks =
     \<lparr>rp_errors =
        adapter_errors Map.empty Map.empty (cfg_adapters cfg)
        @ tnc_errors Map.empty Map.empty Map.empty Map.empty (cfg_tncs cfg)
        @ bridge_errors Map.empty Map.empty (cfg_bridges cfg)
        @ conflict_errors (enabled_bridges cfg),
      rp_warnings =
        concat (map (bridge_warnings path_exists if_nametoindex host_checks) (cfg_bridges cfg))
        @ (if cfg_bridges cfg \<noteq> [] \<and> enabled_bridges cfg = []
           then [new_problem None Obj_None Warn_None_Enabled] else [])
        @ (if cfg_bridges cfg = [] then [new_problem None Obj_None Warn_No_Bridges] else [])\<rparr>"

section \<open>What a configuration without errors satisfies\<close>

definition spp_keys :: "tnc list \<Rightarrow> (mac \<times> adapter_sel) list" where
  "spp_keys ts = List.map_filter (\<lambda>t. map_option (\<lambda>s. (spp_address s, spp_adapter s)) (t_spp t)) ts"

definition ble_keys :: "tnc list \<Rightarrow> (mac \<times> adapter_sel) list" where
  "ble_keys ts = List.map_filter (\<lambda>t. map_option (\<lambda>s. (ble_address s, ble_adapter s)) (t_ble t)) ts"

definition path_keys :: "tnc list \<Rightarrow> string list" where
  "path_keys ts = List.map_filter (\<lambda>t. map_option ser_dev_path (t_serial t)) ts"

definition complete_bridge :: "'net bridge \<Rightarrow> bool" where
  "complete_bridge b \<longleftrightarrow> (\<exists>!i. i < length (b_ports b) \<and> p_role (b_ports b ! i) = Role_Tnc)
     \<and> (\<exists>p \<in> set (b_ports b). p_role p = Role_App)"

text \<open>Two ports that can run at the same time: no TNC, socket or BLE adapter in common.\<close>

definition ports_compatible :: "'net port \<Rightarrow> 'net port \<Rightarrow> bool" where
  "ports_compatible p q \<longleftrightarrow>
     (tnc_id p = None \<or> tnc_id p \<noteq> tnc_id q)
     \<and> (\<forall>l mx al an l' mx' al' an'. p_kind p = TcpServer l mx al an \<and> p_kind q = TcpServer l' mx' al' an'
          \<longrightarrow> \<not> conflicts_with l l')
     \<and> (\<forall>s mx mx'. \<not> (p_kind p = BleServer s mx \<and> p_kind q = BleServer s mx'))"

definition bridges_compatible :: "'net bridge \<Rightarrow> 'net bridge \<Rightarrow> bool" where
  "bridges_compatible a b \<longleftrightarrow> b_public_name a \<noteq> b_public_name b
     \<and> (\<forall>p \<in> set (b_ports a). \<forall>q \<in> set (b_ports b). ports_compatible p q)"

definition config_consistent :: "'net config \<Rightarrow> bool" where
  "config_consistent cfg \<longleftrightarrow>
     distinct (map a_id (cfg_adapters cfg)) \<and> distinct (map a_mac (cfg_adapters cfg))
     \<and> distinct (map t_id (cfg_tncs cfg)) \<and> distinct (spp_keys (cfg_tncs cfg))
     \<and> distinct (ble_keys (cfg_tncs cfg)) \<and> distinct (path_keys (cfg_tncs cfg))
     \<and> distinct (map b_id (cfg_bridges cfg)) \<and> distinct (map b_name (cfg_bridges cfg))
     \<and> (\<forall>b \<in> set (cfg_bridges cfg). distinct (map p_id (b_ports b)) \<and> (b_enabled b \<longrightarrow> complete_bridge b))
     \<and> sorted_wrt bridges_compatible (enabled_bridges cfg)"

lemma incomplete_Nil: "incomplete b = [] \<longleftrightarrow> complete_bridge b"
proof -
  have "length (tnc_ports b) = 1 \<longleftrightarrow> (\<exists>!i. i < length (b_ports b) \<and> p_role (b_ports b ! i) = Role_Tnc)"
    by (simp add: tnc_ports_def length_filter_conv_card card_1_singleton_iff Ex1_def set_eq_iff) metis
  then show ?thesis
    by (auto simp: incomplete_def complete_bridge_def app_ports_def filter_empty_conv Let_def)
qed

lemma if_seen_Nil [simp]: "if_seen v mk = [] \<longleftrightarrow> v = None"
  by (simp add: if_seen_def split: option.splits)

lemma adapter_errors_Nil:
  "adapter_errors ids macs as = [] \<longleftrightarrow>
     distinct (map a_id as) \<and> distinct (map a_mac as) \<and> a_id ` set as \<inter> dom ids = {} \<and> a_mac ` set as \<inter> dom macs = {}"
  by (induction as arbitrary: ids macs) (auto simp: Let_def)

lemma keys_Cons [simp]:
  "spp_keys (t # ts) = (case t_spp t of None \<Rightarrow> spp_keys ts | Some s \<Rightarrow> (spp_address s, spp_adapter s) # spp_keys ts)"
  "ble_keys (t # ts) = (case t_ble t of None \<Rightarrow> ble_keys ts | Some s \<Rightarrow> (ble_address s, ble_adapter s) # ble_keys ts)"
  "path_keys (t # ts) = (case t_serial t of None \<Rightarrow> path_keys ts | Some s \<Rightarrow> ser_dev_path s # path_keys ts)"
  "spp_keys [] = []" "ble_keys [] = []" "path_keys [] = []"
  by (auto simp: spp_keys_def ble_keys_def path_keys_def map_filter_simps split: option.splits)

lemma not_Some_pair: "(\<forall>a b. v \<noteq> Some (a, b)) \<longleftrightarrow> v = None"
  by (cases v) auto

lemma tnc_errors_Nil:
  "tnc_errors ids spps bles paths ts = [] \<longleftrightarrow>
     distinct (map t_id ts) \<and> distinct (spp_keys ts) \<and> distinct (ble_keys ts) \<and> distinct (path_keys ts)
     \<and> t_id ` set ts \<inter> dom ids = {} \<and> set (spp_keys ts) \<inter> dom spps = {} \<and> set (ble_keys ts) \<inter> dom bles = {}
     \<and> set (path_keys ts) \<inter> dom paths = {}"
proof (induction ts arbitrary: ids spps bles paths)
  case Nil
  then show ?case by simp
next
  case (Cons t ts)
  then show ?case
    by (cases "t_spp t"; cases "t_ble t"; cases "t_serial t") (simp_all add: Let_def domIff conj_ac not_Some_pair)
qed

lemma port_errors_Nil:
  "port_errors src ob seen ps = [] \<longleftrightarrow> distinct (map p_id ps) \<and> p_id ` set ps \<inter> seen = {}"
  by (induction ps arbitrary: seen) auto

lemma structure_errors_Nil: "structure_errors b = [] \<longleftrightarrow> (b_enabled b \<longrightarrow> incomplete b = [])"
  by (auto simp: structure_errors_def incomplete_def Let_def)

lemma bridge_errors_Nil:
  "bridge_errors ids names bs = [] \<longleftrightarrow>
     distinct (map b_id bs) \<and> distinct (map b_name bs) \<and> b_id ` set bs \<inter> dom ids = {} \<and> b_name ` set bs \<inter> dom names = {}
     \<and> (\<forall>b \<in> set bs. distinct (map p_id (b_ports b)) \<and> (b_enabled b \<longrightarrow> incomplete b = []))"
  by (induction bs arbitrary: ids names) (auto simp: Let_def port_errors_Nil structure_errors_Nil)

lemma port_conflicts_Nil: "port_conflicts a b p q = [] \<longleftrightarrow> ports_compatible p q"
  by (cases "p_kind p"; cases "p_kind q")
    (auto simp: port_conflicts_def ports_compatible_def tnc_id_def Let_def)

lemma bridge_conflicts_Nil: "bridge_conflicts a b = [] \<longleftrightarrow> bridges_compatible a b"
  by (auto simp: bridge_conflicts_def bridges_compatible_def port_conflicts_Nil)

lemma conflict_errors_Nil: "conflict_errors bs = [] \<longleftrightarrow> sorted_wrt bridges_compatible bs"
  by (induction bs) (auto simp: bridge_conflicts_Nil)

lemma validate_errors_Nil:
  "rp_errors (validate path_exists if_nametoindex cfg host_checks) = [] \<longleftrightarrow> config_consistent cfg"
  by (simp add: validate_def config_consistent_def adapter_errors_Nil tnc_errors_Nil
      bridge_errors_Nil conflict_errors_Nil incomplete_Nil conj_ac)

text \<open>C6: \<open>validate\<close> reports no error iff the configuration is consistent: ids, MACs, addresses, paths and
  names are unique, every enabled bridge is complete, and no two enabled bridges share a public
  name, a TNC, a listening socket or a BLE adapter. Errors do not depend on the host.\<close>

theorem validate_ok_iff:
  "report_is_ok (validate path_exists if_nametoindex cfg host_checks) \<longleftrightarrow> config_consistent cfg"
  by (simp add: report_is_ok_def validate_errors_Nil)

text \<open>The check of listeners compares different bridges only: two \<open>tcp-server\<close> ports of one bridge may
  name the same socket without an error.\<close>

definition twin_port :: "string \<Rightarrow> unit port" where
  "twin_port i = \<lparr>p_id = i, p_role = Role_App, p_kind = TcpServer (Addr (Sock localhost 8001 0)) None [] False\<rparr>"

definition twin_config :: "unit config" where
  "twin_config = \<lparr>cfg_global = \<lparr>g_log_level = ''info'', g_adapter = Sel_Default\<rparr>,
     cfg_control = \<lparr>c_group = ''kiss-tnc-bridge''\<rparr>, cfg_adapters = [], cfg_tncs = [],
     cfg_bridges = [\<lparr>b_id = ''ktbr0'', b_name = ''a'', b_public_name = ''a'', b_enabled = True,
       b_enabled_override = None, b_app_params = Params_Pass,
       b_ports = [\<lparr>p_id = ''t'', p_role = Role_Tnc, p_kind = TcpClient ''h'' 8002 Always 0\<rparr>,
                  twin_port ''x'', twin_port ''y''],
       b_source = Dynamic\<rparr>]\<rparr>"

lemma validate_misses_conflict_within_bridge:
  "report_is_ok (validate path_exists if_nametoindex twin_config host_checks)"
  by (simp add: report_is_ok_def validate_def twin_config_def twin_port_def enabled_bridges_def
      structure_errors_def tnc_ports_def app_ports_def if_seen_def Let_def)

end
