(* ===== verification/Config_Resolve_Props.thy ===== *)
theory Config_Resolve_Props
  imports Config_Resolve
begin

text \<open>
  What resolution promises when it succeeds: every object of the effective configuration is well
  formed, ports carry the settings of the TNC they name, static objects rest on static ones only,
  and the objects correspond one to one, in order, to the definitions in the files.
\<close>

section \<open>Well-formed objects\<close>

definition good_id :: "string \<Rightarrow> bool" where
  "good_id i \<longleftrightarrow> i \<noteq> [] \<and> length i \<le> 15 \<and>
     (\<forall>c \<in> set i. is_ascii_lowercase c \<or> is_ascii_digit c \<or> c = CHR ''-'')"

lemma check_id_iff: "check_id i what = Inr () \<longleftrightarrow> good_id i"
  by (auto simp: check_id_def good_id_def MAX_ID_LEN_def list_all_iff)

lemma check_id_Inr: "check_id i what = Inr u \<longleftrightarrow> good_id i"
  using check_id_iff [of i what] by simp

definition adapter_wf :: "adapter \<Rightarrow> bool" where
  "adapter_wf a \<longleftrightarrow> good_id (a_id a) \<and> parse_adapter_value (a_id a) = AV_Id (a_id a)"

definition tnc_wf :: "tnc \<Rightarrow> bool" where
  "tnc_wf t \<longleftrightarrow> good_id (t_id t) \<and> trim (t_name t) \<noteq> []
     \<and> (t_spp t \<noteq> None \<or> t_ble t \<noteq> None \<or> t_serial t \<noteq> None)
     \<and> (\<forall>s c. t_spp t = Some s \<and> spp_channel s = Some c \<longrightarrow> 1 \<le> c \<and> c \<le> 30)
     \<and> (\<forall>s. t_serial t = Some s \<longrightarrow> starts_with ''/'' (ser_dev_path s) \<and> ser_dev_baud s \<noteq> 0)"

text \<open>A port that names a TNC carries that TNC's model and section; a static one names a static TNC.\<close>

definition tnc_copied :: "tnc list \<Rightarrow> source \<Rightarrow> string \<Rightarrow> tnc_model \<Rightarrow> (tnc \<Rightarrow> 'd option) \<Rightarrow> 'd \<Rightarrow> bool" where
  "tnc_copied tncs src i m get x \<longleftrightarrow>
     (\<exists>t. find (\<lambda>t. t_id t = i) tncs = Some t \<and> t_model t = m \<and> get t = Some x
        \<and> (is_static src \<longrightarrow> is_static (t_source t)))"

fun kind_wf :: "tnc list \<Rightarrow> source \<Rightarrow> 'net port_kind \<Rightarrow> bool" where
  "kind_wf tncs src (TcpClient host _ _ _) = (host \<noteq> [])"
| "kind_wf tncs src (TcpServer _ mx _ _) = (mx \<noteq> Some 0)"
| "kind_wf tncs src (BleServer _ mx) = (mx \<noteq> 0)"
| "kind_wf tncs src (SppClient i m x _ _ _) = tnc_copied tncs src i m t_spp x"
| "kind_wf tncs src (BleClient i m x _ _ _) = tnc_copied tncs src i m t_ble x"
| "kind_wf tncs src (Serial i m x _ _ _) = tnc_copied tncs src i m t_serial x"

definition bridge_wf :: "tnc list \<Rightarrow> 'net bridge \<Rightarrow> bool" where
  "bridge_wf tncs b \<longleftrightarrow> good_id (b_id b) \<and> trim (b_name b) \<noteq> [] \<and> trim (b_public_name b) \<noteq> []
     \<and> (\<forall>p \<in> set (b_ports b). good_id (p_id p) \<and> kind_wf tncs (b_source b) (p_kind p))"

definition config_wf :: "'net config \<Rightarrow> bool" where
  "config_wf cfg \<longleftrightarrow> (\<forall>a \<in> set (cfg_adapters cfg). adapter_wf a) \<and> (\<forall>t \<in> set (cfg_tncs cfg). tnc_wf t)
     \<and> (\<forall>b \<in> set (cfg_bridges cfg). bridge_wf (cfg_tncs cfg) b)"

section \<open>Each step of resolution\<close>

lemma resolve_adapter_wf: "resolve_adapter d src = Inr a \<Longrightarrow> adapter_wf a"
  by (auto simp: resolve_adapter_def adapter_wf_def check_id_Inr parse_adapter_value_def Let_def
      split: sum.splits if_splits)

lemma resolve_spp_wf:
  "resolve_spp d sel = ([], Some s) \<Longrightarrow> spp_channel s = Some c \<Longrightarrow> 1 \<le> c \<and> c \<le> 30"
  by (auto simp: resolve_spp_def split: option.splits prod.splits if_splits)

lemma resolve_serial_wf:
  "resolve_serial d = ([], Some s) \<Longrightarrow> starts_with ''/'' (ser_dev_path s) \<and> ser_dev_baud s \<noteq> 0"
  by (auto simp: resolve_serial_def Let_def split: option.splits if_splits)

lemma resolve_tnc_wf:
  assumes "resolve_tnc d src s1 s2 = (t, [])" shows "tnc_wf t"
  using assms
  by (auto simp: resolve_tnc_def tnc_wf_def Let_def check_id_Inr split: prod.splits sum.splits if_splits
      dest: resolve_spp_wf resolve_serial_wf)

lemma resolve_tnc_entry_wf: "resolve_tnc_entry ids g src d = ([], t) \<Longrightarrow> tnc_wf t"
  by (auto simp: resolve_tnc_entry_def Let_def split: prod.splits intro: resolve_tnc_wf)

lemma resolve_tnc_port_wf:
  assumes "resolve_tnc_port sect get mk tncs d src ob = ([], k)"
  obtains i m x c idle e where "k = Some (mk i m x c idle e)" and "tnc_copied tncs src i m get x"
proof -
  obtain t where t: "find (\<lambda>t. t_id t = tp_tnc d) tncs = Some t"
    using assms by (auto simp: resolve_tnc_port_def Let_def split: option.splits prod.splits)
  then have "t_id t = tp_tnc d" by (auto simp: find_Some_iff)
  with assms t that show ?thesis
    by (auto simp: resolve_tnc_port_def tnc_copied_def check_tnc_visible_def Let_def
        split: option.splits prod.splits if_splits)
qed

lemma hex_lower_not_Nil [simp]: "hex_lower n \<noteq> []"
  by (subst hex_lower.simps) (simp add: Let_def)

lemma join_on_not_Nil: "x \<noteq> [] \<Longrightarrow> join_on d (x # xs) \<noteq> []"
  by (cases xs) auto

lemma show_ip_not_Nil:
  "os \<noteq> [] \<Longrightarrow> show_ip (V4 os) \<noteq> []" "ss \<noteq> [] \<Longrightarrow> show_ip (V6 ss) \<noteq> []"
  by (cases os; simp add: show_ipv4_def show_u8_def join_on_not_Nil)
    (cases ss; auto simp: show_ipv6_def show_groups_def join_on_not_Nil split: option.splits prod.splits ip_addr.splits)

lemma read_ipv4_not_Nil: "read_ipv4 s = Some (os, r) \<Longrightarrow> os \<noteq> []"
  by (auto simp: read_ipv4_def split: bind_splits)

lemma read_ipv6_not_Nil: "read_ipv6 s = Some (ss, r) \<Longrightarrow> ss \<noteq> []"
  by (auto simp: read_ipv6_def Let_def split: prod.splits if_splits bind_splits)

lemma parse_socket_addr_show:
  assumes "parse_socket_addr s = Some a" shows "show_ip (sock_ip a) \<noteq> []"
proof -
  from assms obtain r where "read_socket_v4 s = Some (a, r) \<or> read_socket_v6 s = Some (a, r)"
    by (auto simp: parse_socket_addr_def whole_def split: option.splits prod.splits list.splits)
  then show ?thesis
    by (auto simp: read_socket_v4_def read_socket_v6_def show_ip_not_Nil dest!: read_ipv4_not_Nil read_ipv6_not_Nil
        split: bind_splits prod.splits simp del: show_ip.simps)
qed

lemma parse_host_port_host: "parse_host_port s = Inr (h, p) \<Longrightarrow> h \<noteq> []"
  by (auto simp: parse_host_port_def parse_socket_addr_show split: option.splits if_splits)

lemma resolve_kind_wf:
  assumes "resolve_kind parse_net net_of_ip ids g tncs src ob d = ([], k)"
  obtains k' where "k = Some k'" and "kind_wf tncs src k'"
    and "\<And>i r. type_name \<lparr>p_id = i, p_role = r, p_kind = k'\<rparr> = pd_type_name d"
proof (cases d)
  case (TcpClientDef x1 x2 x3 x4 x5)
  with assms that show ?thesis
    by (auto simp: type_name_def Let_def split: sum.splits prod.splits dest: parse_host_port_host)
next
  case (TcpServerDef x1 x2 x3 x4 x5 x6)
  with assms that show ?thesis
    by (auto simp: type_name_def Let_def split: sum.splits prod.splits if_splits)
next
  case (BleServerDef x1 x2 x3 x4)
  with assms that show ?thesis
    by (auto simp: type_name_def Let_def split: prod.splits if_splits)
qed (use assms that in \<open>auto elim!: resolve_tnc_port_wf simp: type_name_def\<close>)

text \<open>The port of the effective configuration that belongs to a port definition.\<close>

definition port_of_def :: "port_def \<Rightarrow> 'net port \<Rightarrow> bool" where
  "port_of_def d p \<longleftrightarrow> type_name p = pd_type_name d \<and> p_role p = or_default (pd_default_role d) (pd_role d)
     \<and> (case pd_id d of Some i \<Rightarrow> p_id p = i | None \<Rightarrow> \<exists>n. p_id p = pd_type_name d @ show_nat n)"

lemma resolve_ports_wf:
  assumes "resolve_ports parse_net net_of_ip ids g tncs src ob counts ds = ([], ps)"
  shows "(\<forall>p \<in> set ps. good_id (p_id p) \<and> kind_wf tncs src (p_kind p)) \<and> list_all2 port_of_def ds ps"
  using assms
proof (induction ds arbitrary: counts ps)
  case Nil
  then show ?case by simp
next
  case (Cons d ds)
  then obtain k ps' pid where
    k: "resolve_kind parse_net net_of_ip ids g tncs src (Obj_Port ob pid) d = ([], k)"
    and pid: "pid = (case pd_id d of Some i \<Rightarrow> i | None \<Rightarrow> pd_type_name d @ show_nat (counts (pd_type_name d)))"
    and gid: "good_id pid"
    and rest: "resolve_ports parse_net net_of_ip ids g tncs src ob
       (counts(pd_type_name d := counts (pd_type_name d) + 1)) ds = ([], ps')"
    and ps: "ps = (case k of None \<Rightarrow> ps'
       | Some k \<Rightarrow> \<lparr>p_id = pid, p_role = or_default (pd_default_role d) (pd_role d), p_kind = k\<rparr> # ps')"
    by (auto simp: Let_def check_id_Inr split: prod.splits sum.splits)
  from k obtain k' where "k = Some k'" "kind_wf tncs src k'"
    "\<And>i r. type_name \<lparr>p_id = i, p_role = r, p_kind = k'\<rparr> = pd_type_name d"
    by (rule resolve_kind_wf) blast
  with Cons.IH [OF rest] ps gid pid show ?case
    by (auto simp: port_of_def_def split: option.splits)
qed

text \<open>The bridge of the effective configuration that belongs to a bridge definition.\<close>

definition bridge_of_def :: "source \<times> bridge_def \<Rightarrow> 'net bridge \<Rightarrow> bool" where
  "bridge_of_def sd b \<longleftrightarrow> b_source b = fst sd \<and> brd_id (snd sd) = Some (b_id b) \<and> b_name b = brd_name (snd sd)
     \<and> b_public_name b = or_default (brd_name (snd sd)) (brd_public_name (snd sd))
     \<and> b_enabled b = or_default True (brd_enabled (snd sd)) \<and> b_enabled_override b = None
     \<and> list_all2 port_of_def (brd_ports (snd sd)) (b_ports b)"

lemma resolve_bridge_wf:
  assumes "resolve_bridge parse_net net_of_ip ids g tncs src d = ([], ob)"
  shows "\<exists>b. ob = Some b \<and> bridge_wf tncs b \<and> bridge_of_def (src, d) b"
proof (cases "brd_id d")
  case None
  with assms show ?thesis by (simp add: resolve_bridge_def)
next
  case (Some i)
  obtain es ps where rp: "resolve_ports parse_net net_of_ip ids g tncs src (Obj_Bridge i) (\<lambda>_. 0) (brd_ports d) = (es, ps)"
    by fastforce
  with assms Some have "es = []" "good_id i" "trim (brd_name d) \<noteq> []"
    and "brd_public_name d = Some n \<Longrightarrow> trim n \<noteq> []" for n
    by (auto simp: resolve_bridge_def Let_def check_id_Inr split: sum.splits if_splits option.splits)
  with assms Some rp resolve_ports_wf [of parse_net net_of_ip ids g tncs src "Obj_Bridge i" "\<lambda>_. 0" "brd_ports d" ps]
  show ?thesis
    by (auto simp: resolve_bridge_def bridge_wf_def bridge_of_def_def Let_def or_default_def
        split: option.splits sum.splits if_splits)
qed

section \<open>The whole of resolution\<close>

lemma map_filter_all2:
  "(\<And>x. x \<in> set xs \<Longrightarrow> \<exists>y. g x = Some y \<and> R x y) \<Longrightarrow> list_all2 R xs (List.map_filter g xs)"
proof (induction xs)
  case (Cons x xs)
  then obtain y where "g x = Some y" "R x y" by auto
  with Cons show ?case by (simp add: map_filter_simps)
qed (simp add: map_filter_simps)

lemma map_filter_map: "List.map_filter f (map g xs) = List.map_filter (f \<circ> g) xs"
  by (simp add: List.map_filter_def filter_map comp_def)

lemma resolve_Inr:
  assumes "resolve parse_net net_of_ip files = Inr cfg"
  obtains ids g where
    "fst (resolve_adapters files) = []" and "cfg_adapters cfg = snd (resolve_adapters files)"
    and "\<And>src d. (src, d) \<in> set (defs_of cf_tnc files) \<Longrightarrow> fst (resolve_tnc_entry ids g src d) = []"
    and "cfg_tncs cfg = map (\<lambda>(src, d). snd (resolve_tnc_entry ids g src d)) (defs_of cf_tnc files)"
    and "\<And>src d. (src, d) \<in> set (defs_of cf_bridge files) \<Longrightarrow>
          fst (resolve_bridge parse_net net_of_ip ids g (cfg_tncs cfg) src d) = []"
    and "cfg_bridges cfg = List.map_filter
          (\<lambda>(src, d). snd (resolve_bridge parse_net net_of_ip ids g (cfg_tncs cfg) src d)) (defs_of cf_bridge files)"
proof -
  obtain lg ga cg where gl: "resolve_globals files (DEFAULT_LOG_LEVEL, None, DEFAULT_CONTROL_GROUP) = (lg, ga, cg)"
    by (metis prod_cases3)
  obtain e1 as where ra: "resolve_adapters files = (e1, as)" by fastforce
  obtain e2 g where gs: "(case ga of Some (src, v) \<Rightarrow> resolve_adapter_value (adapter_ids as) v src Obj_Global_Adapter
      | None \<Rightarrow> ([], Sel_Default)) = (e2, g)" by fastforce
  define ts where "ts = map (\<lambda>(src, d). snd (resolve_tnc_entry (adapter_ids as) g src d)) (defs_of cf_tnc files)"
  have ts: "map snd (map (\<lambda>(src, d). resolve_tnc_entry (adapter_ids as) g src d) (defs_of cf_tnc files)) = ts"
    by (simp add: ts_def comp_def case_prod_beta')
  have ok: "e1 = [] \<and> e2 = []
      \<and> concat (map fst (map (\<lambda>(src, d). resolve_tnc_entry (adapter_ids as) g src d) (defs_of cf_tnc files))) = []
      \<and> concat (map fst (map (\<lambda>(src, d). resolve_bridge parse_net net_of_ip (adapter_ids as) g ts src d)
          (defs_of cf_bridge files))) = []
      \<and> cfg = \<lparr>cfg_global = \<lparr>g_log_level = lg, g_adapter = g\<rparr>, cfg_control = \<lparr>c_group = cg\<rparr>,
          cfg_adapters = as, cfg_tncs = ts, cfg_bridges = List.map_filter snd
            (map (\<lambda>(src, d). resolve_bridge parse_net net_of_ip (adapter_ids as) g ts src d) (defs_of cf_bridge files))\<rparr>"
    using assms unfolding resolve_def gl ra
    by (simp only: Let_def prod.case gs ts append_is_Nil_conv split: if_splits) simp_all
  show ?thesis
  proof (rule that [where ids = "adapter_ids as" and g = g])
    show "cfg_tncs cfg = map (\<lambda>(src, d). snd (resolve_tnc_entry (adapter_ids as) g src d)) (defs_of cf_tnc files)"
      using ok by (simp add: ts_def)
  qed (use ok ra in \<open>auto simp: map_filter_map comp_def case_prod_beta'\<close>)
qed

lemma resolve_config_wf:
  assumes "resolve parse_net net_of_ip files = Inr cfg"
  shows "config_wf cfg"
proof -
  obtain ids g where
    a: "fst (resolve_adapters files) = []" "cfg_adapters cfg = snd (resolve_adapters files)"
    and t: "\<And>src d. (src, d) \<in> set (defs_of cf_tnc files) \<Longrightarrow> fst (resolve_tnc_entry ids g src d) = []"
    "cfg_tncs cfg = map (\<lambda>(src, d). snd (resolve_tnc_entry ids g src d)) (defs_of cf_tnc files)"
    and b: "\<And>src d. (src, d) \<in> set (defs_of cf_bridge files) \<Longrightarrow>
          fst (resolve_bridge parse_net net_of_ip ids g (cfg_tncs cfg) src d) = []"
    "cfg_bridges cfg = List.map_filter
          (\<lambda>(src, d). snd (resolve_bridge parse_net net_of_ip ids g (cfg_tncs cfg) src d)) (defs_of cf_bridge files)"
    using resolve_Inr [OF assms] by blast
  have "adapter_wf x" if "x \<in> set (cfg_adapters cfg)" for x
    using that a(2) by (auto simp: resolve_adapters_def Let_def List.map_filter_def split: sum.splits
        dest!: resolve_adapter_wf)
  moreover have "tnc_wf x" if "x \<in> set (cfg_tncs cfg)" for x
    using that t by (force intro: resolve_tnc_entry_wf simp: prod_eq_iff)
  moreover have "bridge_wf (cfg_tncs cfg) x" if "x \<in> set (cfg_bridges cfg)" for x
  proof -
    from that b obtain src d where "(src, d) \<in> set (defs_of cf_bridge files)"
      "resolve_bridge parse_net net_of_ip ids g (cfg_tncs cfg) src d = ([], Some x)"
      by (force simp: List.map_filter_def prod_eq_iff)
    then show ?thesis using resolve_bridge_wf by fastforce
  qed
  ultimately show ?thesis by (simp add: config_wf_def)
qed

lemma resolve_bridge_list:
  assumes "resolve parse_net net_of_ip files = Inr cfg"
  shows "list_all2 bridge_of_def (defs_of cf_bridge files) (cfg_bridges cfg)"
proof -
  obtain ids g where
    b: "\<And>src d. (src, d) \<in> set (defs_of cf_bridge files) \<Longrightarrow>
          fst (resolve_bridge parse_net net_of_ip ids g (cfg_tncs cfg) src d) = []"
    "cfg_bridges cfg = List.map_filter
          (\<lambda>(src, d). snd (resolve_bridge parse_net net_of_ip ids g (cfg_tncs cfg) src d)) (defs_of cf_bridge files)"
    by (rule resolve_Inr [OF assms]) (rule that)
  show ?thesis unfolding b(2)
  proof (rule map_filter_all2)
    fix sd assume "sd \<in> set (defs_of cf_bridge files)"
    moreover obtain src d where sd: "sd = (src, d)" by fastforce
    moreover obtain r where r: "resolve_bridge parse_net net_of_ip ids g (cfg_tncs cfg) src d = (fst r, snd r)"
      by (metis prod.collapse)
    ultimately have "resolve_bridge parse_net net_of_ip ids g (cfg_tncs cfg) src d = ([], snd r)"
      using b(1) [of src d] by (simp add: prod_eq_iff)
    from resolve_bridge_wf [OF this] r sd
    show "\<exists>y. (case sd of (src, d) \<Rightarrow> snd (resolve_bridge parse_net net_of_ip ids g (cfg_tncs cfg) src d)) = Some y
        \<and> bridge_of_def sd y"
      by auto
  qed
qed


section \<open>An example\<close>

text \<open>A main file with an adapter, a TNC over SPP and a bridge between it and a TCP server.\<close>

definition ex_main :: config_file where
  "ex_main = \<lparr>cf_global = None, cf_control = None,
     cf_adapter = [\<lparr>ad_id = ''builtin'', ad_mac = ''B8:27:EB:12:34:56''\<rparr>],
     cf_tnc = [\<lparr>td_id = ''d75'', td_name = None, td_model = Some ''th-d75'',
        td_spp = Some \<lparr>sd_address = ''00:11:22:33:44:55'', sd_adapter = Some ''builtin'', sd_channel = Some 2\<rparr>,
        td_ble = None, td_serial = None\<rparr>],
     cf_bridge = [\<lparr>brd_id = Some ''ktbr0'', brd_name = ''Field'', brd_enabled = None, brd_public_name = None,
        brd_app_params = None, brd_ports =
          [SppClientDef None None \<lparr>tp_tnc = ''d75'', tp_connect = None, tp_idle_timeout = Some ''90s'', tp_exit_kiss = None\<rparr>,
           TcpServerDef None None ''8001'' None None None]\<rparr>]\<rparr>"

definition ex_files :: "(source \<times> config_file) list" where
  "ex_files = [(Static ''main'', ex_main)]"

definition ex_config :: "ip_addr config" where
  "ex_config = \<lparr>cfg_global = \<lparr>g_log_level = ''info'', g_adapter = Sel_Default\<rparr>,
     cfg_control = \<lparr>c_group = ''kiss-tnc-bridge''\<rparr>,
     cfg_adapters = [\<lparr>a_id = ''builtin'', a_mac = Mac [0xB8, 0x27, 0xEB, 0x12, 0x34, 0x56], a_source = Static ''main''\<rparr>],
     cfg_tncs = [\<lparr>t_id = ''d75'', t_name = ''d75'', t_model = ThD7x,
        t_spp = Some \<lparr>spp_address = Mac [0, 0x11, 0x22, 0x33, 0x44, 0x55],
          spp_adapter = Sel_Mac (Mac [0xB8, 0x27, 0xEB, 0x12, 0x34, 0x56]), spp_channel = Some 2\<rparr>,
        t_ble = None, t_serial = None, t_source = Static ''main''\<rparr>],
     cfg_bridges = [\<lparr>b_id = ''ktbr0'', b_name = ''Field'', b_public_name = ''Field'', b_enabled = True,
        b_enabled_override = None, b_app_params = Params_Pass, b_ports =
          [\<lparr>p_id = ''spp-client0'', p_role = Role_Tnc, p_kind = SppClient ''d75'' ThD7x
              \<lparr>spp_address = Mac [0, 0x11, 0x22, 0x33, 0x44, 0x55],
               spp_adapter = Sel_Mac (Mac [0xB8, 0x27, 0xEB, 0x12, 0x34, 0x56]), spp_channel = Some 2\<rparr>
              OnDemand 90000 False\<rparr>,
           \<lparr>p_id = ''tcp-server0'', p_role = Role_App,
             p_kind = TcpServer (Addr (Sock localhost 8001 0)) None [] False\<rparr>],
        b_source = Static ''main''\<rparr>]\<rparr>"

lemma ex_values:
  "parse_mac ''B8:27:EB:12:34:56'' = Inr (Mac [0xB8, 0x27, 0xEB, 0x12, 0x34, 0x56])"
  "parse_mac ''00:11:22:33:44:55'' = Inr (Mac [0, 0x11, 0x22, 0x33, 0x44, 0x55])"
  "parse_mac ''builtin'' = Inl (Not_Mac ''builtin'')"
  "is_hci_name ''builtin'' = False"
  "trim ''Field'' = ''Field''" "trim ''d75'' = ''d75''"
  "check_id ''builtin'' ''adapter'' = Inr ()" "check_id ''d75'' ''tnc'' = Inr ()"
  "check_id ''ktbr0'' ''bridge'' = Inr ()" "check_id ''spp-client0'' ''port'' = Inr ()"
  "check_id ''tcp-server0'' ''port'' = Inr ()"
  "show_nat 0 = ''0''"
  by code_simp+

lemma ex_duration: "parse_duration ''90s'' = Inr 90000"
proof -
  have "show_nat 90 = ''90''" by code_simp
  then show ?thesis using parse_duration_show [of 90 "''s''"] by simp
qed

lemma ex_listen: "parse_listen ''8001'' = Inr (Addr (Sock localhost 8001 0))"
proof -
  have "show_nat 8001 = ''8001''" by (simp add: show_nat_def decimal_digits.simps char_of_def bit_simps)
  then show ?thesis using parse_listen_port [of 8001] by simp
qed

lemmas ex_resolve_simps = ex_values ex_duration ex_listen ex_files_def ex_main_def ex_config_def resolve_def
  resolve_adapters_def resolve_adapter_def defs_of_def resolve_tnc_entry_def resolve_tnc_def resolve_spp_def
  resolve_ble_def resolve_serial_def resolve_address_def resolve_tnc_model_def parse_tnc_model_def MODELS_def
  adapter_or_global_def resolve_adapter_value_def parse_adapter_value_def adapter_ids_def resolve_bridge_def
  resolve_tnc_port_def resolve_idle_timeout_def check_tnc_visible_def or_default_def resolve_allow_def
  List.map_filter_def DEFAULT_LOG_LEVEL_def DEFAULT_CONTROL_GROUP_def default_connect_policy_def
  default_app_params_def Let_def localhost_def

lemma ex_resolves: "resolve parse_ip id ex_files = Inr ex_config"
  by (simp add: ex_resolve_simps)


end
