(* ===== verification/Config_State.thy ===== *)
theory Config_State
  imports Prelude "HOL-Library.Finite_Map"
begin

text \<open>
  \<^verbatim>\<open>src/config/state.rs\<close>: the runtime state in \<open>state.toml\<close> (public names adjusted after a collision,
  enable overrides of static bridges) and its store. TOML reading and writing (serde) and the file
  itself are parameters.
\<close>

record bridge_state =
  bst_enabled :: "bool option"
  bst_public_name :: "string option"
  bst_public_name_configured :: "string option"

definition default_bridge_state :: bridge_state where
  "default_bridge_state = \<lparr>bst_enabled = None, bst_public_name = None, bst_public_name_configured = None\<rparr>"

text \<open>\<open>State\<close>: a map from bridge ids (its order matters only to the serializer).\<close>

type_synonym state = "(string, bridge_state) fmap"

definition bst_is_empty :: "bridge_state \<Rightarrow> bool" where
  "bst_is_empty b \<longleftrightarrow> b = default_bridge_state"

text \<open>\<open>entry(..).or_default()\<close> and \<open>retain(|_, b| !b.is_empty())\<close>.\<close>

definition or_default_entry :: "state \<Rightarrow> string \<Rightarrow> bridge_state" where
  "or_default_entry st i = (case fmlookup st i of Some b \<Rightarrow> b | None \<Rightarrow> default_bridge_state)"

definition retain_nonempty :: "state \<Rightarrow> state" where
  "retain_nonempty st = fmfilter (\<lambda>i. case fmlookup st i of Some b \<Rightarrow> \<not> bst_is_empty b | None \<Rightarrow> False) st"

definition adjusted_public_name :: "state \<Rightarrow> string \<Rightarrow> string \<Rightarrow> string option" where
  "adjusted_public_name st bridge configured =
     (case fmlookup st bridge of
        None \<Rightarrow> None
      | Some b \<Rightarrow>
          (case (bst_public_name b, bst_public_name_configured b) of
             (Some name, Some from) \<Rightarrow> if from = configured then Some name else None
           | _ \<Rightarrow> None))"

definition set_adjusted_public_name :: "state \<Rightarrow> string \<Rightarrow> string \<Rightarrow> string \<Rightarrow> state" where
  "set_adjusted_public_name st bridge configured name =
     fmupd bridge ((or_default_entry st bridge)
          \<lparr>bst_public_name := Some name, bst_public_name_configured := Some configured\<rparr>) st"

definition enabled_override :: "state \<Rightarrow> string \<Rightarrow> bool option" where
  "enabled_override st bridge = Option.bind (fmlookup st bridge) bst_enabled"

definition set_enabled_override :: "state \<Rightarrow> string \<Rightarrow> bool option \<Rightarrow> state" where
  "set_enabled_override st bridge en =
     retain_nonempty (fmupd bridge ((or_default_entry st bridge)\<lparr>bst_enabled := en\<rparr>) st)"

definition clear_adjusted_public_name :: "state \<Rightarrow> string \<Rightarrow> state" where
  "clear_adjusted_public_name st bridge =
     retain_nonempty
       (case fmlookup st bridge of
          Some b \<Rightarrow> fmupd bridge (b\<lparr>bst_public_name := None, bst_public_name_configured := None\<rparr>) st
        | None \<Rightarrow> st)"

section \<open>The store\<close>

datatype read_error = Not_Found | Read_Failed string

record state_store =
  ss_path :: string
  ss_state :: state

datatype open_problem = Unreadable string string | Cant_Read string string  \<comment> \<open>path, error\<close>

definition state_open ::
  "(string \<Rightarrow> read_error + string) \<Rightarrow> (string \<Rightarrow> string + state) \<Rightarrow> string \<Rightarrow> state_store \<times> open_problem option" where
  "state_open read_file parse_state path =
     (let (st, problem) =
        (case read_file path of
           Inr text \<Rightarrow>
             (case parse_state text of
                Inr s \<Rightarrow> (s, None)
              | Inl e \<Rightarrow> (fmempty, Some (Unreadable path e)))
         | Inl Not_Found \<Rightarrow> (fmempty, None)
         | Inl (Read_Failed e) \<Rightarrow> (fmempty, Some (Cant_Read path e)))
      in (\<lparr>ss_path = path, ss_state = st\<rparr>, problem))"

text \<open>\<open>update\<close>: the result, the store, and what was written to the file, if anything. \<open>to_toml\<close>
  serializes; \<open>write_atomic\<close> writes, or gives the error and leaves the old file.\<close>

definition state_update ::
  "(state \<Rightarrow> string + string) \<Rightarrow> (string \<Rightarrow> string \<Rightarrow> string option) \<Rightarrow> string
   \<Rightarrow> (state \<Rightarrow> state) \<Rightarrow> state_store \<Rightarrow> (string + unit) \<times> state_store \<times> string option" where
  "state_update to_toml write_atomic header f s =
     (let next_st = f (ss_state s) in
      if next_st = ss_state s then (Inr (), s, None)
      else case to_toml next_st of
             Inl e \<Rightarrow> (Inl e, s, None)
           | Inr body \<Rightarrow>
               (case write_atomic (ss_path s) (header @ body) of
                  Some e \<Rightarrow> (Inl e, s, None)
                | None \<Rightarrow> (Inr (), s\<lparr>ss_state := next_st\<rparr>, Some (header @ body))))"

section \<open>Laws of the state\<close>

text \<open>A store of optional values under keys: what is read after a write.\<close>

locale slot_store =
  fixes get_slot :: "'s \<Rightarrow> 'k \<Rightarrow> 'v option"
    and set_slot :: "'s \<Rightarrow> 'k \<Rightarrow> 'v option \<Rightarrow> 's"
  assumes get_set: "get_slot (set_slot s k v) k' = (if k' = k then v else get_slot s k')"
begin

lemma last_write_wins:
  "get_slot (fold (\<lambda>(k, v) s. set_slot s k v) ws s) k =
     (case map_of (rev ws) k of Some v \<Rightarrow> v | None \<Rightarrow> get_slot s k)"
  by (induction ws arbitrary: s) (auto simp: get_set map_add_def split: option.splits prod.splits)

lemma set_idem_read: "get_slot (set_slot (set_slot s k v) k v') k' = get_slot (set_slot s k v') k'"
  by (simp add: get_set)

end

lemma lookup_retain [simp]:
  "fmlookup (retain_nonempty st) i = (case fmlookup st i of Some b \<Rightarrow> if bst_is_empty b then None else Some b | None \<Rightarrow> None)"
  by (simp add: retain_nonempty_def split: option.splits)

lemma bst_is_empty_iff:
  "bst_is_empty b \<longleftrightarrow> bst_enabled b = None \<and> bst_public_name b = None \<and> bst_public_name_configured b = None"
  by (cases b) (auto simp: bst_is_empty_def default_bridge_state_def)

lemmas state_defs = enabled_override_def set_enabled_override_def adjusted_public_name_def
  set_adjusted_public_name_def clear_adjusted_public_name_def or_default_entry_def bst_is_empty_iff
  default_bridge_state_def

interpretation ov: slot_store enabled_override set_enabled_override
  by unfold_locales (auto simp: state_defs split: option.splits)

lemma override_keeps_names:
  "adjusted_public_name (set_enabled_override st b e) b' c = adjusted_public_name st b' c"
  by (auto simp: state_defs split: option.splits)

lemma names_keep_override:
  "enabled_override (set_adjusted_public_name st b c n) b' = enabled_override st b'"
  "enabled_override (clear_adjusted_public_name st b) b' = enabled_override st b'"
  by (auto simp: state_defs split: option.splits)

lemma adjusted_after_set:
  "adjusted_public_name (set_adjusted_public_name st b c n) b' c' =
     (if b' = b then if c' = c then Some n else None else adjusted_public_name st b' c')"
  "adjusted_public_name (clear_adjusted_public_name st b) b' c =
     (if b' = b then None else adjusted_public_name st b' c)"
  by (auto simp: state_defs split: option.splits)

text \<open>No entry of the state is empty: the invariant that keeps \<open>state.toml\<close> free of leftovers.\<close>

definition no_leftovers :: "state \<Rightarrow> bool" where
  "no_leftovers st \<longleftrightarrow> fmpred (\<lambda>_ b. \<not> bst_is_empty b) st"

text \<open>overrides and adjusted names are independent: after any sequence of overrides the last one for a
  bridge is in force and every adjusted name is as before, an adjusted name applies only while the
  configured name is the one it was made from, and neither kind of change leaves an empty entry.\<close>

theorem state_last_override_wins:
  "enabled_override (fold (\<lambda>(b, e) st. set_enabled_override st b e) ws st) b =
     (case map_of (rev ws) b of Some e \<Rightarrow> e | None \<Rightarrow> enabled_override st b)
   \<and> adjusted_public_name (fold (\<lambda>(b, e) st. set_enabled_override st b e) ws st) b c = adjusted_public_name st b c
   \<and> no_leftovers (set_enabled_override st b e) \<and> no_leftovers (clear_adjusted_public_name st b)"
proof (intro conjI)
  show "adjusted_public_name (fold (\<lambda>(b, e) st. set_enabled_override st b e) ws st) b c = adjusted_public_name st b c"
    by (induction ws arbitrary: st) (auto simp: override_keeps_names)
  show "enabled_override (fold (\<lambda>(b, e) st. set_enabled_override st b e) ws st) b =
     (case map_of (rev ws) b of Some e \<Rightarrow> e | None \<Rightarrow> enabled_override st b)"
    by (rule ov.last_write_wins)
qed (auto simp: no_leftovers_def fmpred_iff set_enabled_override_def
      clear_adjusted_public_name_def split: option.splits if_splits)

text \<open>A failed or unnecessary write leaves the store as it was; a successful one stores the new state.\<close>

lemma state_update_result:
  "state_update to_toml write_atomic header f s = (r, s', w) \<Longrightarrow>
     (case r of Inr _ \<Rightarrow> ss_state s' = f (ss_state s) | Inl _ \<Rightarrow> s' = s \<and> w = None) \<and> ss_path s' = ss_path s"
  by (auto simp: state_update_def Let_def split: if_splits sum.splits option.splits)

end
