(* ===== verification/Config_Build.thy ===== *)
theory Config_Build
  imports Config_Validate Config_Resolve_Props Config_State "HOL-Library.List_Lexorder" "HOL-Library.Char_ord"
begin

text \<open>
  \<^verbatim>\<open>src/config/load.rs\<close> and \<^verbatim>\<open>src/config/mod.rs\<close>: reading the static files, \<open>dynamic.toml\<close> and
  \<open>state.toml\<close>, setting dynamic objects aside that collide with static ones, applying the enable
  overrides, and building the effective configuration. The file system is the record \<open>host\<close> of
  what its calls return; the TOML parsers (serde) are the parameters \<open>parse_toml\<close> and \<open>parse_state\<close>.
\<close>

record host =
  h_read :: "string \<Rightarrow> read_error + string"
  h_is_dir :: "string \<Rightarrow> bool"
  h_read_dir :: "string \<Rightarrow> string + string option list"  \<comment> \<open>file names; \<open>None\<close> for an entry that fails\<close>
  h_is_file :: "string \<Rightarrow> bool"
  h_exists :: "string \<Rightarrow> bool"
  h_if_nametoindex :: "string \<Rightarrow> nat"

type_synonym toml_parser = "string \<Rightarrow> string + config_file"

definition MAIN_FILE_NAME :: string where "MAIN_FILE_NAME = ''kiss-tnc-bridge.toml''"
definition CONF_D :: string where "CONF_D = ''conf.d''"
definition DYNAMIC_FILE_NAME :: string where "DYNAMIC_FILE_NAME = ''dynamic.toml''"
definition STATE_FILE_NAME :: string where "STATE_FILE_NAME = ''state.toml''"
definition LEGACY_CONF :: string where "LEGACY_CONF = ''/etc/kiss-tnc-bridge.conf''"

section \<open>Paths\<close>

text \<open>\<open>Path::parent\<close> and \<open>Path::join\<close>, for paths without repeated or trailing slashes.\<close>

definition path_parent :: "string \<Rightarrow> string option" where
  "path_parent p =
     (if p = [] \<or> p = ''/'' then None
      else case rsplit_once CHR ''/'' p of
             None \<Rightarrow> Some []
           | Some (d, _) \<Rightarrow> Some (if d = [] then ''/'' else d))"

definition path_join :: "string \<Rightarrow> string \<Rightarrow> string" where
  "path_join d n = (if d = [] then n else if last d = CHR ''/'' then d @ n else d @ ''/'' @ n)"

text \<open>A name with the extension \<open>toml\<close>: a dot with something before it and \<open>toml\<close> after it.\<close>

definition is_toml_name :: "string \<Rightarrow> bool" where
  "is_toml_name n =
     (case rsplit_once CHR ''.'' n of Some (stem, ext) \<Rightarrow> stem \<noteq> [] \<and> ext = ''toml'' | None \<Rightarrow> False)"

section \<open>Loading (src/config/load.rs)\<close>

record loaded =
  ld_main_file :: string
  ld_conf_d :: string
  ld_files :: "(source \<times> config_file) list"
  ld_legacy_conf_present :: bool

definition read_error_text :: "read_error \<Rightarrow> string" where
  "read_error_text e = (case e of Not_Found \<Rightarrow> ''not found'' | Read_Failed t \<Rightarrow> t)"

text \<open>\<open>parse_str\<close>: the parser with the end of its message trimmed.\<close>

definition parse_str :: "toml_parser \<Rightarrow> toml_parser" where
  "parse_str parse_toml text = map_sum trim_end id (parse_toml text)"

definition parse_file :: "host \<Rightarrow> toml_parser \<Rightarrow> string \<Rightarrow> problem + config_file" where
  "parse_file h parse_toml path =
     (case h_read h path of
        Inl e \<Rightarrow> Inl (new_problem (Some (Static path)) Obj_None (Cant_Read_File (read_error_text e)))
      | Inr text \<Rightarrow>
          (case parse_str parse_toml text of
             Inl e \<Rightarrow> Inl (new_problem (Some (Static path)) Obj_None (Parse_Error e))
           | Inr f \<Rightarrow> Inr f))"

definition has_global :: "config_file \<Rightarrow> bool" where
  "has_global f \<longleftrightarrow> cf_global f \<noteq> None \<or> cf_control f \<noteq> None"

fun load_conf_d :: "host \<Rightarrow> toml_parser \<Rightarrow> string list \<Rightarrow> problem + (source \<times> config_file) list" where
  "load_conf_d h parse_toml [] = Inr []"
| "load_conf_d h parse_toml (path # paths) =
     (case parse_file h parse_toml path of
        Inl e \<Rightarrow> Inl e
      | Inr f \<Rightarrow>
          if has_global f then Inl (new_problem (Some (Static path)) Obj_None Global_Not_Here)
          else case load_conf_d h parse_toml paths of
                 Inl e \<Rightarrow> Inl e
               | Inr fs \<Rightarrow> Inr ((Static path, f) # fs))"

text \<open>The file names of \<open>conf.d\<close> that are read, in order. Names are sorted as bytes.\<close>

definition conf_d_entries :: "host \<Rightarrow> string \<Rightarrow> string option list \<Rightarrow> string list" where
  "conf_d_entries h dir names =
     map (path_join dir)
       (sort (filter (\<lambda>n. is_toml_name n \<and> \<not> starts_with ''.'' n \<and> h_is_file h (path_join dir n))
               (List.map_filter id names)))"

definition load :: "host \<Rightarrow> toml_parser \<Rightarrow> string \<Rightarrow> problem + loaded" where
  "load h parse_toml main_file =
     (let conf_d = (case path_parent main_file of Some d \<Rightarrow> path_join d CONF_D | None \<Rightarrow> CONF_D) in
      case parse_file h parse_toml main_file of
        Inl e \<Rightarrow> Inl e
      | Inr main \<Rightarrow>
          (case (if h_is_dir h conf_d
                 then case h_read_dir h conf_d of
                        Inl e \<Rightarrow> Inl (new_problem None (Obj_Path conf_d) (Cant_Read_Dir e))
                      | Inr names \<Rightarrow> load_conf_d h parse_toml (conf_d_entries h conf_d names)
                 else Inr []) of
             Inl e \<Rightarrow> Inl e
           | Inr fs \<Rightarrow>
               Inr \<lparr>ld_main_file = main_file, ld_conf_d = conf_d, ld_files = (Static main_file, main) # fs,
                    ld_legacy_conf_present = h_exists h LEGACY_CONF\<rparr>))"

record dynamic_file =
  dy_path :: string
  dy_text :: string

definition load_dynamic :: "host \<Rightarrow> string \<Rightarrow> string + dynamic_file option" where
  "load_dynamic h state_dir =
     (let path = path_join state_dir DYNAMIC_FILE_NAME in
      case h_read h path of
        Inr t \<Rightarrow> Inr (Some \<lparr>dy_path = path, dy_text = t\<rparr>)
      | Inl Not_Found \<Rightarrow> Inr None
      | Inl (Read_Failed e) \<Rightarrow> Inl e)"

definition parse_dynamic :: "toml_parser \<Rightarrow> string \<Rightarrow> problem + config_file" where
  "parse_dynamic parse_toml text =
     (case parse_str parse_toml text of
        Inl e \<Rightarrow> Inl (new_problem (Some Dynamic) Obj_None (Parse_Error e))
      | Inr f \<Rightarrow>
          if has_global f then Inl (new_problem (Some Dynamic) Obj_None Global_Not_Here) else Inr f)"

section \<open>Building (src/config/mod.rs)\<close>

record sources =
  so_statics :: "(source \<times> config_file) list"
  so_dynamic :: "dynamic_file option"
  so_state :: state
  so_legacy_conf_present :: bool
  so_notes :: "problem list"

definition read_state_file ::
  "host \<Rightarrow> (string \<Rightarrow> string + state) \<Rightarrow> string \<Rightarrow> state \<times> problem list" where
  "read_state_file h parse_state path =
     (case h_read h path of
        Inr text \<Rightarrow>
          (case parse_state text of
             Inr s \<Rightarrow> (s, [])
           | Inl e \<Rightarrow> (fmempty, [new_problem None Obj_None (Note_State_Unreadable path (trim_end e))]))
      | Inl Not_Found \<Rightarrow> (fmempty, [])
      | Inl (Read_Failed e) \<Rightarrow> (fmempty, [new_problem None Obj_None (Note_State_Not_Read path e)]))"

definition read_sources ::
  "host \<Rightarrow> toml_parser \<Rightarrow> (string \<Rightarrow> string + state) \<Rightarrow> string \<Rightarrow> string option \<Rightarrow> problem list + sources" where
  "read_sources h parse_toml parse_state main_file state_dir =
     (case load h parse_toml main_file of
        Inl p \<Rightarrow> Inl [p]
      | Inr l \<Rightarrow>
          (let (dyn, st, notes) =
             (case state_dir of
                None \<Rightarrow> (None, fmempty, [])
              | Some dir \<Rightarrow>
                  (let (d, n1) = (case load_dynamic h dir of
                          Inr d \<Rightarrow> (d, [])
                        | Inl e \<Rightarrow> (None, [new_problem None Obj_None
                                     (Note_Dynamic_Not_Read (path_join dir DYNAMIC_FILE_NAME) e)]));
                       (s, n2) = read_state_file h parse_state (path_join dir STATE_FILE_NAME)
                   in (d, s, n1 @ n2)))
           in Inr \<lparr>so_statics = ld_files l, so_dynamic = dyn, so_state = st,
                   so_legacy_conf_present = ld_legacy_conf_present l, so_notes = notes\<rparr>))"

text \<open>\<open>set_aside_collisions\<close>: what is kept of the dynamic file, and a warning for each object left out.\<close>

definition bridge_clash :: "string list \<Rightarrow> string list \<Rightarrow> bridge_def \<Rightarrow> msg option" where
  "bridge_clash ids names b =
     (let i = or_default [] (brd_id b) in
      if i \<in> set ids then Some (Warn_Set_Aside_Id ''bridge'')
      else if brd_name b \<in> set names then Some (Warn_Set_Aside_Name (brd_name b))
      else None)"

definition set_aside_collisions ::
  "(source \<times> config_file) list \<Rightarrow> config_file \<Rightarrow> config_file \<times> problem list" where
  "set_aside_collisions statics dyn =
     (let fs = map snd statics;
          adapter_ids = concat (map (\<lambda>f. map ad_id (cf_adapter f)) fs);
          tnc_ids = concat (map (\<lambda>f. map td_id (cf_tnc f)) fs);
          bridge_ids = concat (map (\<lambda>f. List.map_filter brd_id (cf_bridge f)) fs);
          bridge_names = concat (map (\<lambda>f. map brd_name (cf_bridge f)) fs);
          warn = (\<lambda>ob m. new_problem (Some Dynamic) ob m)
      in (dyn\<lparr>cf_adapter := filter (\<lambda>a. ad_id a \<notin> set adapter_ids) (cf_adapter dyn),
              cf_tnc := filter (\<lambda>t. td_id t \<notin> set tnc_ids) (cf_tnc dyn),
              cf_bridge := filter (\<lambda>b. bridge_clash bridge_ids bridge_names b = None) (cf_bridge dyn)\<rparr>,
          map (\<lambda>a. warn (Obj_Adapter (ad_id a)) (Warn_Set_Aside_Id ''adapter''))
            (filter (\<lambda>a. ad_id a \<in> set adapter_ids) (cf_adapter dyn))
          @ map (\<lambda>t. warn (Obj_Tnc (td_id t)) (Warn_Set_Aside_Id ''tnc''))
            (filter (\<lambda>t. td_id t \<in> set tnc_ids) (cf_tnc dyn))
          @ List.map_filter (\<lambda>b. map_option (warn (Obj_Bridge
                (if or_default [] (brd_id b) = [] then brd_name b else or_default [] (brd_id b))))
              (bridge_clash bridge_ids bridge_names b)) (cf_bridge dyn)))"

definition apply_override :: "state \<Rightarrow> 'net bridge \<Rightarrow> 'net bridge" where
  "apply_override st b =
     (if is_static (b_source b)
      then case enabled_override st (b_id b) of
             Some en \<Rightarrow> b\<lparr>b_enabled_override := Some en, b_enabled := en\<rparr>
           | None \<Rightarrow> b
      else b)"

definition apply_overrides :: "'net config \<Rightarrow> state \<Rightarrow> 'net config" where
  "apply_overrides cfg st = cfg\<lparr>cfg_bridges := map (apply_override st) (cfg_bridges cfg)\<rparr>"

definition build ::
  "host \<Rightarrow> toml_parser \<Rightarrow> (string \<Rightarrow> 'net option) \<Rightarrow> (ip_addr \<Rightarrow> 'net) \<Rightarrow> sources \<Rightarrow> bool
   \<Rightarrow> problem list + 'net config \<times> report" where
  "build h parse_toml parse_net net_of_ip so host_checks =
     (case (case so_dynamic so of
              None \<Rightarrow> Inr (so_statics so, [])
            | Some d \<Rightarrow>
                (case parse_dynamic parse_toml (dy_text d) of
                   Inl p \<Rightarrow> Inl [p]
                 | Inr parsed \<Rightarrow>
                     (case set_aside_collisions (so_statics so) parsed of (kept, warnings) \<Rightarrow>
                        Inr (so_statics so @ [(Dynamic, kept)], warnings)))) of
        Inl es \<Rightarrow> Inl es
      | Inr (files, set_aside) \<Rightarrow>
          (case resolve parse_net net_of_ip files of
             Inl es \<Rightarrow> Inl es
           | Inr cfg \<Rightarrow>
               (let cfg = apply_overrides cfg (so_state so);
                    r = validate (h_exists h) (h_if_nametoindex h) cfg host_checks;
                    r = r\<lparr>rp_warnings := rp_warnings r @ set_aside @ so_notes so
                           @ (if so_legacy_conf_present so then [new_problem None Obj_None Warn_Legacy_Conf] else [])\<rparr>
                in if rp_errors r = [] then Inr (cfg, r) else Inl (rp_errors r))))"

definition load_all ::
  "host \<Rightarrow> toml_parser \<Rightarrow> (string \<Rightarrow> string + state) \<Rightarrow> (string \<Rightarrow> 'net option) \<Rightarrow> (ip_addr \<Rightarrow> 'net)
   \<Rightarrow> string \<Rightarrow> string option \<Rightarrow> bool \<Rightarrow> problem list + 'net config \<times> report" where
  "load_all h parse_toml parse_state parse_net net_of_ip main_file state_dir host_checks =
     (case read_sources h parse_toml parse_state main_file state_dir of
        Inl es \<Rightarrow> Inl es
      | Inr so \<Rightarrow> build h parse_toml parse_net net_of_ip so host_checks)"

section \<open>Properties\<close>

lemma apply_override_simps [simp]:
  "b_id (apply_override st b) = b_id b" "b_name (apply_override st b) = b_name b"
  "b_public_name (apply_override st b) = b_public_name b" "b_ports (apply_override st b) = b_ports b"
  "b_source (apply_override st b) = b_source b" "b_app_params (apply_override st b) = b_app_params b"
  by (auto simp: apply_override_def split: option.splits)

lemma apply_overrides_simps [simp]:
  "cfg_global (apply_overrides cfg st) = cfg_global cfg" "cfg_control (apply_overrides cfg st) = cfg_control cfg"
  "cfg_adapters (apply_overrides cfg st) = cfg_adapters cfg" "cfg_tncs (apply_overrides cfg st) = cfg_tncs cfg"
  "cfg_bridges (apply_overrides cfg st) = map (apply_override st) (cfg_bridges cfg)"
  by (simp_all add: apply_overrides_def)

lemma config_wf_apply_overrides: "config_wf (apply_overrides cfg st) = config_wf cfg"
  by (simp add: config_wf_def bridge_wf_def)

text \<open>The files that are resolved: the static ones, then what is kept of the dynamic one.\<close>

definition build_files :: "toml_parser \<Rightarrow> sources \<Rightarrow> (source \<times> config_file) list" where
  "build_files parse_toml so = so_statics so @
     (case so_dynamic so of
        None \<Rightarrow> []
      | Some d \<Rightarrow>
          (case parse_dynamic parse_toml (dy_text d) of
             Inl _ \<Rightarrow> []
           | Inr parsed \<Rightarrow> [(Dynamic, fst (set_aside_collisions (so_statics so) parsed))]))"

lemma build_Inr:
  assumes "build h parse_toml parse_net net_of_ip so host_checks = Inr (cfg, r)"
  obtains cfg0 where "resolve parse_net net_of_ip (build_files parse_toml so) = Inr cfg0"
    and "cfg = apply_overrides cfg0 (so_state so)"
    and "config_consistent cfg" and "report_is_ok r"
  using assms
  by (auto simp: build_def build_files_def report_is_ok_def validate_errors_Nil Let_def
      split: option.splits sum.splits prod.splits if_splits)

text \<open>C5: a configuration that \<open>build\<close> returns is well formed and consistent, and its report has no
  errors: the daemon never runs with duplicate ids, incomplete enabled bridges, or two enabled bridges
  that share a TNC, a socket or a BLE adapter, whatever the files and overrides hold.\<close>

theorem build_sound:
  assumes "build h parse_toml parse_net net_of_ip so host_checks = Inr (cfg, r)"
  shows "config_wf cfg \<and> config_consistent cfg \<and> report_is_ok r"
  using build_Inr [OF assms] resolve_config_wf config_wf_apply_overrides by metis

lemma defs_of_append: "defs_of get (fs @ gs) = defs_of get fs @ defs_of get gs"
  by (simp add: defs_of_def)

lemma set_defs_of: "(src, d) \<in> set (defs_of get fs) \<longleftrightarrow> (\<exists>f. (src, f) \<in> set fs \<and> d \<in> set (get f))"
  by (force simp: defs_of_def)

text \<open>What is kept of the dynamic file has neither an id nor, for bridges, a name of a static object.\<close>

lemma kept_no_clash:
  assumes "b \<in> set (cf_bridge (fst (set_aside_collisions statics dyn)))"
    and "(src, d) \<in> set (defs_of cf_bridge statics)"
  shows "brd_name b \<noteq> brd_name d \<and> (brd_id d = Some i \<longrightarrow> brd_id b \<noteq> Some i)"
  using assms
  by (force simp: set_aside_collisions_def bridge_clash_def or_default_def Let_def set_defs_of List.map_filter_def
      split: if_splits option.splits)

lemma build_bridges:
  assumes "build h parse_toml parse_net net_of_ip so host_checks = Inr (cfg, r)"
  obtains bs where "list_all2 bridge_of_def (defs_of cf_bridge (build_files parse_toml so)) bs"
    and "cfg_bridges cfg = map (apply_override (so_state so)) bs"
  using build_Inr [OF assms] resolve_bridge_list by (metis apply_overrides_simps(5))

lemma all2_bridge_keys:
  "list_all2 bridge_of_def sds bs \<Longrightarrow>
     map (\<lambda>b. (b_source b, Some (b_id b), b_name b)) bs = map (\<lambda>(src, d). (src, brd_id d, brd_name d)) sds"
  by (induction rule: list_all2_induct) (auto simp: bridge_of_def_def)

lemma all2_sources: "list_all2 bridge_of_def sds bs \<Longrightarrow> map b_source bs = map fst sds"
  by (induction rule: list_all2_induct) (auto simp: bridge_of_def_def)

lemma all2_override: "list_all2 bridge_of_def sds bs \<Longrightarrow> b \<in> set bs \<Longrightarrow> b_enabled_override b = None"
  by (induction rule: list_all2_induct) (auto simp: bridge_of_def_def)

lemma build_files_split:
  obtains ds where "defs_of cf_bridge (build_files parse_toml so) = defs_of cf_bridge (so_statics so) @ ds"
    and "\<forall>sd \<in> set ds. fst sd = Dynamic"
  by (rule that [of "defs_of cf_bridge (drop (length (so_statics so)) (build_files parse_toml so))"])
    (auto simp: build_files_def defs_of_append defs_of_def split: option.splits sum.splits)


section \<open>An example\<close>

text \<open>The example file as the only static source, with an override that disables its bridge and a
  dynamic file whose only bridge has the same id.\<close>

definition ex_dynamic :: config_file where
  "ex_dynamic = \<lparr>cf_global = None, cf_control = None, cf_adapter = [], cf_tnc = [],
     cf_bridge = [\<lparr>brd_id = Some ''ktbr0'', brd_name = ''Other'', brd_enabled = None, brd_public_name = None,
        brd_app_params = None, brd_ports = []\<rparr>]\<rparr>"

definition ex_sources :: sources where
  "ex_sources = \<lparr>so_statics = ex_files, so_dynamic = Some \<lparr>dy_path = ''dynamic.toml'', dy_text = []\<rparr>,
     so_state = set_enabled_override fmempty ''ktbr0'' (Some False),
     so_legacy_conf_present = False, so_notes = []\<rparr>"

definition ex_host :: host where
  "ex_host = \<lparr>h_read = (\<lambda>_. Inl Not_Found), h_is_dir = (\<lambda>_. False), h_read_dir = (\<lambda>_. Inr []),
     h_is_file = (\<lambda>_. False), h_exists = (\<lambda>_. False), h_if_nametoindex = (\<lambda>_. 0)\<rparr>"

definition ex_built :: "ip_addr config \<times> report" where
  "ex_built = (apply_overrides ex_config (so_state ex_sources),
     \<lparr>rp_errors = [], rp_warnings =
        [new_problem None Obj_None Warn_None_Enabled,
         new_problem (Some Dynamic) (Obj_Bridge ''ktbr0'') (Warn_Set_Aside_Id ''bridge'')]\<rparr>)"

lemma ex_override: "enabled_override (set_enabled_override fmempty ''ktbr0'' (Some False)) ''ktbr0'' = Some False"
  by (simp add: ov.get_set)

lemma ex_resolves_dynamic:
  "resolve parse_ip id (ex_files @ [(Dynamic, ex_dynamic\<lparr>cf_bridge := []\<rparr>)]) = Inr ex_config"
  by (simp add: ex_resolve_simps ex_dynamic_def)

lemma ex_builds: "build ex_host (\<lambda>_. Inr ex_dynamic) parse_ip id ex_sources False = Inr ex_built"
proof -
  have "set_aside_collisions ex_files ex_dynamic =
      (ex_dynamic\<lparr>cf_bridge := []\<rparr>, [new_problem (Some Dynamic) (Obj_Bridge ''ktbr0'') (Warn_Set_Aside_Id ''bridge'')])"
    by (simp add: set_aside_collisions_def ex_files_def ex_main_def ex_dynamic_def bridge_clash_def or_default_def
        map_filter_simps Let_def)
  moreover have "parse_dynamic (\<lambda>_. Inr ex_dynamic) [] = Inr ex_dynamic"
    by (simp add: parse_dynamic_def parse_str_def has_global_def ex_dynamic_def)
  moreover have "validate (h_exists ex_host) (h_if_nametoindex ex_host) (fst ex_built) False =
      \<lparr>rp_errors = [], rp_warnings = [new_problem None Obj_None Warn_None_Enabled]\<rparr>"
    by (simp add: validate_def ex_built_def ex_config_def ex_sources_def apply_overrides_def apply_override_def
        ex_override enabled_bridges_def structure_errors_def bridge_warnings_def serial_warnings_def
        server_warnings_def is_ble_server_def if_seen_def localhost_def Let_def)
  ultimately show ?thesis
    using ex_resolves_dynamic by (simp add: build_def ex_sources_def ex_built_def)
qed

theorem build_sound_witness:
  "config_wf (fst ex_built) \<and> config_consistent (fst ex_built) \<and> report_is_ok (snd ex_built)"
  using build_sound [of ex_host "\<lambda>_. Inr ex_dynamic" parse_ip id ex_sources False "fst ex_built" "snd ex_built"]
    ex_builds by simp


end
