(* ===== verification/Listen_Port.thy ===== *)
theory Listen_Port
  imports Config_Resolve
begin

text \<open>
  \<^verbatim>\<open>src/port/listen.rs\<close>: which peers may connect. \<open>net_contains\<close> is \<open>IpNet::contains\<close> of the
  \<open>ipnet\<close> crate. Binding sockets is operating system work and not modelled.
\<close>

definition peer_ip :: "ip_addr \<Rightarrow> ip_addr" where
  "peer_ip peer =
     (case peer of V6 _ \<Rightarrow> or_default peer (to_ipv4_mapped peer) | V4 _ \<Rightarrow> peer)"

definition allowed :: "('net \<Rightarrow> ip_addr \<Rightarrow> bool) \<Rightarrow> 'net list \<Rightarrow> ip_addr \<Rightarrow> bool" where
  "allowed net_contains allow peer =
     (if allow = [] then True else list_ex (\<lambda>net. net_contains net (peer_ip peer)) allow)"

lemma allowed_mapped:
  "allowed nc al (V6 [0, 0, 0, 0, 0, 0xFFFF, pair16 a b, pair16 c d]) = allowed nc al (V4 [a, b, c, d])"
proof -
  have "\<not> bit (y :: u8) (8 + n)" for y n using bit_imp_le_length [of y "8 + n"] by auto
  then have "hi_byte (pair16 x y) = x" "lo_byte (pair16 x y) = y" for x y :: u8
    by (auto simp: hi_byte_def lo_byte_def pair16_def intro!: bit_word_eqI simp: bit_simps)
  then show ?thesis by (simp add: allowed_def peer_ip_def or_default_def)
qed

end
