(* ===== verification/Btree_Map.thy ===== *)
theory Btree_Map
  imports Prelude "HOL-Library.List_Lexorder" "HOL-Library.Char_ord"
begin

text \<open>
  \<open>BTreeMap<String, V>\<close> as an association list in strictly ascending order of its keys (strings
  compare as bytes), which is the order the sources iterate in.
\<close>

fun btree_insert :: "'k :: linorder \<Rightarrow> 'v \<Rightarrow> ('k \<times> 'v) list \<Rightarrow> ('k \<times> 'v) list" where
  "btree_insert k v [] = [(k, v)]"
| "btree_insert k v ((k', v') # m) =
     (if k < k' then (k, v) # (k', v') # m
      else if k = k' then (k, v) # m
      else (k', v') # btree_insert k v m)"

text \<open>\<open>collect()\<close>: a later pair replaces an earlier one with the same key.\<close>

definition btree_collect :: "('k :: linorder \<times> 'v) list \<Rightarrow> ('k \<times> 'v) list" where
  "btree_collect kvs = foldl (\<lambda>m (k, v). btree_insert k v m) [] kvs"

definition btree_ok :: "('k :: linorder \<times> 'v) list \<Rightarrow> bool" where
  "btree_ok m \<longleftrightarrow> sorted_wrt (<) (map fst m)"

lemma set_btree_insert_keys: "set (map fst (btree_insert k v m)) = insert k (set (map fst m))"
  by (induction k v m rule: btree_insert.induct) (simp_all del: set_map, auto)

lemma btree_ok_insert: "btree_ok m \<Longrightarrow> btree_ok (btree_insert k v m)"
proof (induction m)
  case Nil
  then show ?case by (simp add: btree_ok_def)
next
  case (Cons p m)
  then have "btree_ok (btree_insert k v m)" by (simp add: btree_ok_def)
  moreover have "set (map fst (btree_insert k v m)) = insert k (set (map fst m))"
    by (rule set_btree_insert_keys)
  ultimately show ?case using Cons.prems
    by (cases p) (auto simp: btree_ok_def not_less_iff_gr_or_eq simp del: set_map dest: less_trans)
qed

lemma btree_ok_delete: "btree_ok m \<Longrightarrow> btree_ok (AList.delete k m)"
  by (simp add: btree_ok_def AList.delete_eq sorted_wrt_map sorted_wrt_filter)

lemma btree_insert_same: "btree_ok m \<Longrightarrow> map_of m k = Some v \<Longrightarrow> btree_insert k v m = m"
proof (induction m)
  case (Cons p m)
  have "fst p < k" if "fst p \<noteq> k"
    using Cons.prems that map_of_SomeD [of m k v] by (cases p) (force simp: btree_ok_def)
  with Cons show ?case by (cases p) (auto simp: btree_ok_def)
qed simp

lemma map_of_btree_insert: "btree_ok m \<Longrightarrow> map_of (btree_insert k v m) = (map_of m)(k \<mapsto> v)"
  by (induction m) (auto simp: btree_ok_def fun_eq_iff)

lemma btree_collect_snoc: "btree_collect (kvs @ [(k, v)]) = btree_insert k v (btree_collect kvs)"
  by (simp add: btree_collect_def)

lemma btree_ok_collect: "btree_ok (btree_collect kvs)"
  by (induction kvs rule: rev_induct) (auto simp: btree_collect_snoc btree_ok_insert, simp add: btree_ok_def btree_collect_def)

lemma map_of_btree_collect: "map_of (btree_collect kvs) = map_of (rev kvs)"
proof (induction kvs rule: rev_induct)
  case Nil
  then show ?case by (simp add: btree_collect_def)
next
  case (snoc kv kvs)
  then show ?case by (cases kv) (simp add: btree_collect_snoc map_of_btree_insert btree_ok_collect)
qed

lemma btree_ok_distinct: "btree_ok m \<Longrightarrow> distinct (map fst m)"
  by (simp add: btree_ok_def strict_sorted_iff)

lemma in_btree_iff: "btree_ok m \<Longrightarrow> (k, v) \<in> set m \<longleftrightarrow> map_of m k = Some v"
  using btree_ok_distinct [of m] by simp

end
