(* ===== verification/Reconcile.thy ===== *)
theory Reconcile
  imports Bridge Config_Resolve Listen_Port Btree_Map
begin

text \<open>
  \<^verbatim>\<open>src/reconcile.rs\<close>: what applying a new configuration over the running one would do, port by
  port, and whether anybody would notice. \<open>net_contains\<close> is \<open>IpNet::contains\<close>.
\<close>

section \<open>What the plan knows and what it says\<close>

record session_view =
  sv_id :: session_id
  sv_seq :: nat

record bridge_view =
  bv_tnc_active :: bool
  bv_sessions :: "session_view list"

record runtime =
  rt_bridges :: "(string \<times> bridge_view) list"
  rt_adapter_mac :: "(adapter_sel \<Rightarrow> mac option) option"

definition same_adapter :: "runtime \<Rightarrow> adapter_sel \<Rightarrow> adapter_sel \<Rightarrow> bool" where
  "same_adapter rt a b =
     (if a = b then True
      else case rt_adapter_mac rt of
             Some f \<Rightarrow> (case (f a, f b) of (Some x, Some y) \<Rightarrow> x = y | _ \<Rightarrow> False)
           | None \<Rightarrow> False)"

definition sessions_of :: "runtime \<Rightarrow> string \<Rightarrow> string \<Rightarrow> session_view list" where
  "sessions_of rt bridge port =
     (case map_of (rt_bridges rt) bridge of
        Some b \<Rightarrow> filter (\<lambda>s. sid_port (sv_id s) = port) (bv_sessions b)
      | None \<Rightarrow> [])"

definition tnc_active :: "runtime \<Rightarrow> string \<Rightarrow> bool" where
  "tnc_active rt bridge = (case map_of (rt_bridges rt) bridge of Some b \<Rightarrow> bv_tnc_active b | None \<Rightarrow> False)"

datatype action = Unchanged | Updated | Restarted | Started | Stopped

record port_plan =
  pp_id :: string
  pp_action :: action
  pp_changes :: "string list"
  pp_disconnects :: "session_id list"
  pp_drops_tnc_link :: bool

record bridge_plan =
  bp_id :: string
  bp_action :: action
  bp_changes :: "string list"
  bp_ports :: "port_plan list"
  bp_stops_in_use :: bool

record plan =
  pl_global :: "string list"
  pl_bridges :: "bridge_plan list"

definition is_noop :: "plan \<Rightarrow> bool" where
  "is_noop pl \<longleftrightarrow> pl_global pl = [] \<and> list_all (\<lambda>b. bp_action b = Unchanged) (pl_bridges pl)"

definition plan_disconnects :: "plan \<Rightarrow> session_id list" where
  "plan_disconnects pl = concat (map (\<lambda>b. concat (map pp_disconnects (bp_ports b))) (pl_bridges pl))"

datatype disruption =
    Stops_Bridge string
  | Disconnects string session_id
  | Restarts_Tnc string string

definition disruptions :: "plan \<Rightarrow> disruption list" where
  "disruptions pl =
     concat (map (\<lambda>b.
       (if bp_stops_in_use b then [Stops_Bridge (bp_id b)] else [])
       @ concat (map (\<lambda>p.
           map (Disconnects (bp_id b)) (pp_disconnects p)
           @ (if pp_drops_tnc_link p then [Restarts_Tnc (bp_id b) (pp_id p)] else [])) (bp_ports b)))
       (pl_bridges pl))"

definition disruptive :: "plan \<Rightarrow> bool" where
  "disruptive pl \<longleftrightarrow> disruptions pl \<noteq> []"

text \<open>\<open>join_and\<close>: one, two and more items.\<close>

fun join_comma :: "string list \<Rightarrow> string" where
  "join_comma [] = []"
| "join_comma [x] = x"
| "join_comma (x # y # zs) = x @ '', '' @ join_comma (y # zs)"

definition join_and :: "string list \<Rightarrow> string" where
  "join_and items =
     (case items of
        [] \<Rightarrow> []
      | [x] \<Rightarrow> x
      | _ \<Rightarrow> join_comma (butlast items) @ '' and '' @ last items)"

section \<open>Comparing\<close>

definition started :: "'net port \<Rightarrow> port_plan" where
  "started p = \<lparr>pp_id = p_id p, pp_action = Started, pp_changes = [], pp_disconnects = [], pp_drops_tnc_link = False\<rparr>"

definition stopped :: "runtime \<Rightarrow> string \<Rightarrow> 'net port \<Rightarrow> port_plan" where
  "stopped rt bridge p =
     \<lparr>pp_id = p_id p, pp_action = Stopped, pp_changes = [],
      pp_disconnects = map sv_id (sessions_of rt bridge (p_id p)), pp_drops_tnc_link = False\<rparr>"

definition stop_bridge_plan :: "'net bridge \<Rightarrow> runtime \<Rightarrow> bridge_plan" where
  "stop_bridge_plan b rt =
     (let ports = map (stopped rt (b_id b)) (b_ports b) in
      \<lparr>bp_id = b_id b, bp_action = Stopped, bp_changes = [], bp_ports = ports,
       bp_stops_in_use = (tnc_active rt (b_id b) \<or> list_ex (\<lambda>p. pp_disconnects p \<noteq> []) ports)\<rparr>)"

text \<open>\<open>newest_beyond\<close>: the sessions over the limit when they are sorted by age.\<close>

definition newest_beyond :: "session_view list \<Rightarrow> nat \<Rightarrow> session_id list" where
  "newest_beyond ss mx =
     (if length ss \<le> mx then [] else map sv_id (drop mx (sort_key sv_seq ss)))"

text \<open>\<open>note\<close> under a condition.\<close>

definition note_if :: "bool \<Rightarrow> string \<Rightarrow> string list" where
  "note_if c s = (if c then [s] else [])"

text \<open>The settings the three TNC port types share: model, tnc, connect, idle\_timeout and
  exit\_kiss\_on\_disconnect; only the model restarts the port.\<close>

definition tnc_changes ::
  "tnc_model \<times> string \<times> connect_policy \<times> millis \<times> bool \<Rightarrow> tnc_model \<times> string \<times> connect_policy \<times> millis \<times> bool
   \<Rightarrow> string list" where
  "tnc_changes old new =
     (case (old, new) of ((om, ot, oc, oi, oe), (nm, nt, nc, ni, ne)) \<Rightarrow>
        note_if (om \<noteq> nm) ''model'' @ note_if (ot \<noteq> nt) ''tnc'' @ note_if (oc \<noteq> nc) ''connect''
        @ note_if (oi \<noteq> ni) ''idle_timeout'' @ note_if (oe \<noteq> ne) ''exit_kiss_on_disconnect'')"

text \<open>The match on the two kinds: the changes, whether the port restarts, and the sessions to kick, in
  the order they are pushed.\<close>

fun compare_kind ::
  "('net \<Rightarrow> ip_addr \<Rightarrow> bool) \<Rightarrow> runtime \<Rightarrow> session_view list \<Rightarrow> 'net port_kind \<Rightarrow> 'net port_kind
   \<Rightarrow> string list \<times> bool \<times> session_id list" where
  "compare_kind nc rt ss (TcpClient oh op oc oi) (TcpClient nh np nc' ni) =
     (let addr = (oh, op) \<noteq> (nh, np) in
      (note_if addr ''address'' @ note_if (oc \<noteq> nc') ''connect'' @ note_if (oi \<noteq> ni) ''idle_timeout'', addr, []))"
| "compare_kind nc rt ss (SppClient ot om os oc oi oe) (SppClient nt nm ns nc' ni ne) =
     (let far = (spp_address os \<noteq> spp_address ns \<or> spp_channel os \<noteq> spp_channel ns);
          ad = (\<not> far \<and> \<not> same_adapter rt (spp_adapter os) (spp_adapter ns))
      in (note_if far ''spp'' @ note_if ad ''spp.adapter'' @ tnc_changes (om, ot, oc, oi, oe) (nm, nt, nc', ni, ne),
          far \<or> ad \<or> om \<noteq> nm, []))"
| "compare_kind nc rt ss (BleClient ot om ob oc oi oe) (BleClient nt nm nb nc' ni ne) =
     (let far = (ble_address ob \<noteq> ble_address nb);
          ad = (\<not> far \<and> \<not> same_adapter rt (ble_adapter ob) (ble_adapter nb))
      in (note_if far ''ble'' @ note_if ad ''ble.adapter'' @ tnc_changes (om, ot, oc, oi, oe) (nm, nt, nc', ni, ne),
          far \<or> ad \<or> om \<noteq> nm, []))"
| "compare_kind nc rt ss (Serial ot om os oc oi oe) (Serial nt nm ns nc' ni ne) =
     (note_if (os \<noteq> ns) ''serial'' @ tnc_changes (om, ot, oc, oi, oe) (nm, nt, nc', ni, ne),
      os \<noteq> ns \<or> om \<noteq> nm, [])"
| "compare_kind nc rt ss (TcpServer ol om oa on) (TcpServer nl nm na nn) =
     (if ol \<noteq> nl then (''listen'' # note_if (on \<noteq> nn) ''announce'', True, [])
      else
        (note_if (oa \<noteq> na) ''allow'' @ note_if (om \<noteq> nm) ''max_clients'' @ note_if (on \<noteq> nn) ''announce'',
         False,
         (if oa \<noteq> na
          then map sv_id (filter (\<lambda>s. case parse_socket_addr (sid_peer (sv_id s)) of
                                        Some a \<Rightarrow> \<not> allowed nc na (sock_ip a) | None \<Rightarrow> False) ss)
          else [])
         @ (if om \<noteq> nm then (case nm of Some mx \<Rightarrow> newest_beyond ss (unat mx) | None \<Rightarrow> []) else [])))"
| "compare_kind nc rt ss (BleServer oa om) (BleServer na nm) =
     (if \<not> same_adapter rt oa na then ([''adapter''], True, [])
      else (note_if (om \<noteq> nm) ''max_clients'', False,
            if om \<noteq> nm then newest_beyond ss (unat nm) else []))"
| "compare_kind nc rt ss _ _ = ([], False, [])"  \<comment> \<open>unreachable: same type\<close>

definition compare_port ::
  "('net \<Rightarrow> ip_addr \<Rightarrow> bool) \<Rightarrow> string \<Rightarrow> 'net port \<Rightarrow> 'net port \<Rightarrow> runtime \<Rightarrow> port_plan" where
  "compare_port nc bridge old new rt =
     (let ss = sessions_of rt bridge (p_id old);
          (changes, restart, kick) =
            (if p_role old \<noteq> p_role new \<or> type_name old \<noteq> type_name new
             then ([if p_role old \<noteq> p_role new then ''role'' else ''type''], True, [])
             else compare_kind nc rt ss (p_kind old) (p_kind new));
          is_tnc = (p_role new = Role_Tnc)
      in \<lparr>pp_id = p_id new,
          pp_action = (if restart then Restarted else if changes = [] then Unchanged else Updated),
          pp_changes = changes,
          pp_disconnects =
            (if restart then if is_tnc then [] else map sv_id ss
             else remdups_adj (sort_key sid_peer kick)),
          pp_drops_tnc_link = (restart \<and> is_tnc \<and> tnc_active rt bridge)\<rparr>)"

definition compare_bridge ::
  "('net \<Rightarrow> ip_addr \<Rightarrow> bool) \<Rightarrow> 'net bridge \<Rightarrow> 'net bridge \<Rightarrow> runtime \<Rightarrow> bridge_plan" where
  "compare_bridge nc old new rt =
     (let changes = note_if (b_name old \<noteq> b_name new) ''name''
            @ note_if (b_public_name old \<noteq> b_public_name new) ''public_name''
            @ note_if (b_app_params old \<noteq> b_app_params new) ''app_params'';
          gone = map (stopped rt (b_id old))
            (filter (\<lambda>op. \<not> list_ex (\<lambda>p. p_id p = p_id op) (b_ports new)) (b_ports old));
          kept = map (\<lambda>np. case find (\<lambda>p. p_id p = p_id np) (b_ports old) of
                             Some op \<Rightarrow> compare_port nc (b_id old) op np rt
                           | None \<Rightarrow> started np) (b_ports new);
          ports = gone @ kept
      in \<lparr>bp_id = b_id new,
          bp_action = (if changes = [] \<and> list_all (\<lambda>p. pp_action p = Unchanged) ports then Unchanged else Updated),
          bp_changes = changes, bp_ports = ports, bp_stops_in_use = False\<rparr>)"

definition running :: "'net config \<Rightarrow> (string \<times> 'net bridge) list" where
  "running c = btree_collect (map (\<lambda>b. (b_id b, b)) (filter b_enabled (cfg_bridges c)))"

definition started_bridge :: "string \<Rightarrow> 'net bridge \<Rightarrow> bridge_plan" where
  "started_bridge i b =
     \<lparr>bp_id = i, bp_action = Started, bp_changes = [], bp_ports = map started (b_ports b), bp_stops_in_use = False\<rparr>"

definition make_plan ::
  "('net \<Rightarrow> ip_addr \<Rightarrow> bool) \<Rightarrow> 'net config \<Rightarrow> 'net config \<Rightarrow> runtime \<Rightarrow> plan" where
  "make_plan nc old new rt =
     (let before = running old; after = running new in
      \<lparr>pl_global =
         note_if (g_log_level (cfg_global old) \<noteq> g_log_level (cfg_global new)) ''log_level''
         @ note_if (c_group (cfg_control old) \<noteq> c_group (cfg_control new)) ''control.group'',
       pl_bridges =
         map (\<lambda>(i, b). stop_bridge_plan b rt) (filter (\<lambda>(i, b). map_of after i = None) before)
         @ map (\<lambda>(i, nb). case map_of before i of
                  Some ob \<Rightarrow> compare_bridge nc ob nb rt
                | None \<Rightarrow> started_bridge i nb) after\<rparr>)"

end
