(* ===== verification/Reconcile_Props.thy ===== *)
theory Reconcile_Props
  imports Reconcile
begin

text \<open>
  What the plan promises: it overlooks no changed setting, a lower client limit keeps the oldest
  sessions, and a plan that is not disruptive keeps every session and every TNC link it knows of.
\<close>

section \<open>Nothing is overlooked\<close>

text \<open>Two kinds that run the same way: equal but for adapter values that name the same adapter now.\<close>

fun kind_equiv :: "runtime \<Rightarrow> 'net port_kind \<Rightarrow> 'net port_kind \<Rightarrow> bool" where
  "kind_equiv rt (SppClient t m x c i e) k =
     (\<exists>y. k = SppClient t m y c i e \<and> spp_address x = spp_address y \<and> spp_channel x = spp_channel y
        \<and> same_adapter rt (spp_adapter x) (spp_adapter y))"
| "kind_equiv rt (BleClient t m x c i e) k =
     (\<exists>y. k = BleClient t m y c i e \<and> ble_address x = ble_address y
        \<and> same_adapter rt (ble_adapter x) (ble_adapter y))"
| "kind_equiv rt (BleServer a mx) k = (\<exists>b. k = BleServer b mx \<and> same_adapter rt a b)"
| "kind_equiv rt k' k = (k' = k)"

definition port_equiv :: "runtime \<Rightarrow> 'net port \<Rightarrow> 'net port \<Rightarrow> bool" where
  "port_equiv rt p q \<longleftrightarrow> p_role p = p_role q \<and> kind_equiv rt (p_kind p) (p_kind q)"

lemma note_if_Nil [simp]: "note_if c s = [] \<longleftrightarrow> \<not> c"
  by (simp add: note_if_def)

lemma tnc_changes_Nil [simp]: "tnc_changes old new = [] \<longleftrightarrow> old = new"
  by (cases old; cases new) (simp add: tnc_changes_def)

lemma compare_kind_unchanged:
  assumes "type_name p = type_name q"
  shows "fst (compare_kind nc rt ss (p_kind p) (p_kind q)) = [] \<and> \<not> fst (snd (compare_kind nc rt ss (p_kind p) (p_kind q)))
     \<longleftrightarrow> kind_equiv rt (p_kind p) (p_kind q)"
  using assms by (cases "p_kind p"; cases "p_kind q") (auto simp: type_name_def Let_def)

lemma kind_equiv_type: "kind_equiv rt (p_kind p) (p_kind q) \<Longrightarrow> type_name p = type_name q"
  by (cases "p_kind p") (auto simp: type_name_def)

lemma compare_port_unchanged:
  "pp_action (compare_port nc br old new rt) = Unchanged \<longleftrightarrow> port_equiv rt old new"
  using compare_kind_unchanged [of old new nc rt "sessions_of rt br (p_id old)"] kind_equiv_type [of rt old new]
  by (auto simp: compare_port_def port_equiv_def Let_def split: prod.splits if_splits)

text \<open>Two bridges that run the same way: names, public names and parameters agree, and the ports match
  by id.\<close>

definition bridge_equiv :: "runtime \<Rightarrow> 'net bridge \<Rightarrow> 'net bridge \<Rightarrow> bool" where
  "bridge_equiv rt ob nb \<longleftrightarrow> b_name ob = b_name nb \<and> b_public_name ob = b_public_name nb
     \<and> b_app_params ob = b_app_params nb \<and> p_id ` set (b_ports ob) = p_id ` set (b_ports nb)
     \<and> (\<forall>np \<in> set (b_ports nb). \<exists>op. bridge_port ob (p_id np) = Some op \<and> port_equiv rt op np)"

lemma bridge_port_in: "bridge_port b i = Some p \<Longrightarrow> p \<in> set (b_ports b) \<and> p_id p = i"
  by (auto simp: bridge_port_def find_Some_iff)

lemma bridge_port_None: "bridge_port b i = None \<longleftrightarrow> i \<notin> p_id ` set (b_ports b)"
  by (auto simp: bridge_port_def find_None_iff)

definition kept_plan ::
  "('net \<Rightarrow> ip_addr \<Rightarrow> bool) \<Rightarrow> 'net bridge \<Rightarrow> runtime \<Rightarrow> 'net port \<Rightarrow> port_plan" where
  "kept_plan nc old rt np =
     (case bridge_port old (p_id np) of Some op \<Rightarrow> compare_port nc (b_id old) op np rt | None \<Rightarrow> started np)"

lemma compare_bridge_ports:
  "bp_ports (compare_bridge nc old new rt) =
     map (stopped rt (b_id old)) (filter (\<lambda>op. p_id op \<notin> p_id ` set (b_ports new)) (b_ports old))
     @ map (kept_plan nc old rt) (b_ports new)"
  by (auto simp: compare_bridge_def Let_def kept_plan_def bridge_port_def list_ex_iff image_iff
      intro!: arg_cong [of _ _ "map _"] filter_cong)

lemma kept_plan_unchanged:
  "pp_action (kept_plan nc ob rt np) = Unchanged \<longleftrightarrow> (\<exists>op. bridge_port ob (p_id np) = Some op \<and> port_equiv rt op np)"
  by (auto simp: kept_plan_def compare_port_unchanged started_def split: option.splits)

lemma compare_bridge_unchanged:
  "bp_action (compare_bridge nc ob nb rt) = Unchanged \<longleftrightarrow> bridge_equiv rt ob nb"
proof -
  let ?ps = "bp_ports (compare_bridge nc ob nb rt)"
  have "bp_action (compare_bridge nc ob nb rt) = Unchanged \<longleftrightarrow>
      b_name ob = b_name nb \<and> b_public_name ob = b_public_name nb \<and> b_app_params ob = b_app_params nb
      \<and> (\<forall>p \<in> set ?ps. pp_action p = Unchanged)"
    by (simp add: compare_bridge_def Let_def list_all_iff)
  also have "(\<forall>p \<in> set ?ps. pp_action p = Unchanged) \<longleftrightarrow>
      p_id ` set (b_ports ob) \<subseteq> p_id ` set (b_ports nb)
      \<and> (\<forall>np \<in> set (b_ports nb). \<exists>op. bridge_port ob (p_id np) = Some op \<and> port_equiv rt op np)"
    by (simp add: compare_bridge_ports ball_Un kept_plan_unchanged stopped_def) blast
  also have "\<dots> \<longleftrightarrow> p_id ` set (b_ports ob) = p_id ` set (b_ports nb)
      \<and> (\<forall>np \<in> set (b_ports nb). \<exists>op. bridge_port ob (p_id np) = Some op \<and> port_equiv rt op np)"
    using bridge_port_in by (metis (no_types, lifting) image_subsetI rev_image_eqI subset_antisym)
  finally show ?thesis by (simp add: bridge_equiv_def)
qed

lemma running_map: "map_of (running c) i = map_of (rev (map (\<lambda>b. (b_id b, b)) (filter b_enabled (cfg_bridges c)))) i"
  by (simp add: running_def map_of_btree_collect)

lemma running_in: "(i, b) \<in> set (running c) \<longleftrightarrow> map_of (running c) i = Some b"
  unfolding running_def by (rule in_btree_iff [OF btree_ok_collect])

lemma running_id: "map_of (running c) i = Some b \<Longrightarrow> b_id b = i \<and> b_enabled b \<and> b \<in> set (cfg_bridges c)"
  by (auto simp: running_map dest!: map_of_SomeD)

lemma plan_stops:
  assumes "map_of (running old) i = Some b" and "map_of (running new) i = None"
  shows "stop_bridge_plan b rt \<in> set (pl_bridges (make_plan nc old new rt))"
proof -
  have "(i, b) \<in> set (filter (\<lambda>(i, b). map_of (running new) i = None) (running old))"
    using assms by (simp add: running_in)
  then have "stop_bridge_plan b rt \<in> (\<lambda>(i, b). stop_bridge_plan b rt) ` set (filter (\<lambda>(i, b). map_of (running new) i = None) (running old))"
    by (rule rev_image_eqI) simp
  then show ?thesis by (simp add: make_plan_def Let_def)
qed

lemma plan_keeps:
  assumes "map_of (running new) i = Some nb"
  shows "(case map_of (running old) i of Some ob \<Rightarrow> compare_bridge nc ob nb rt | None \<Rightarrow> started_bridge i nb)
     \<in> set (pl_bridges (make_plan nc old new rt))"
proof -
  have "(i, nb) \<in> set (running new)" using assms by (simp add: running_in)
  then show ?thesis by (force simp: make_plan_def Let_def image_iff)
qed

lemma plan_bridgesE:
  assumes "x \<in> set (pl_bridges (make_plan nc old new rt))"
  obtains (stop) i b where "map_of (running old) i = Some b" "map_of (running new) i = None" "x = stop_bridge_plan b rt"
  | (compare) i ob nb where "map_of (running old) i = Some ob" "map_of (running new) i = Some nb"
      "x = compare_bridge nc ob nb rt"
  | (start) i nb where "map_of (running old) i = None" "map_of (running new) i = Some nb" "x = started_bridge i nb"
proof -
  from assms consider i b where "(i, b) \<in> set (running old)" "map_of (running new) i = None" "x = stop_bridge_plan b rt"
    | i nb where "(i, nb) \<in> set (running new)"
      "x = (case map_of (running old) i of Some ob \<Rightarrow> compare_bridge nc ob nb rt | None \<Rightarrow> started_bridge i nb)"
    by (fastforce simp: make_plan_def Let_def simp del: map_of_eq_None_iff)
  then show ?thesis
  proof cases
    case 1
    with stop show ?thesis by (simp add: running_in)
  next
    case (2 i nb)
    with compare start show ?thesis by (cases "map_of (running old) i") (simp_all add: running_in)
  qed
qed

lemma bp_action_simps [simp]:
  "bp_action (stop_bridge_plan b rt) = Stopped" "bp_action (started_bridge i b) = Started"
  "bp_id (stop_bridge_plan b rt) = b_id b" "bp_id (compare_bridge nc ob nb rt) = b_id nb"
  by (simp_all add: stop_bridge_plan_def started_bridge_def compare_bridge_def Let_def)

text \<open>C8: a plan does nothing iff nothing that matters differs: log level and control group are equal,
  the same bridges are enabled, and each has equal names, parameters and ports, where adapter values
  may be written differently as long as they name the same adapter.\<close>

theorem plan_noop_iff:
  "is_noop (make_plan nc old new rt) \<longleftrightarrow>
     g_log_level (cfg_global old) = g_log_level (cfg_global new)
     \<and> c_group (cfg_control old) = c_group (cfg_control new)
     \<and> (\<forall>i. rel_option (bridge_equiv rt) (map_of (running old) i) (map_of (running new) i))"
proof -
  let ?old = "map_of (running old)" and ?new = "map_of (running new)"
  have "list_all (\<lambda>b. bp_action b = Unchanged) (pl_bridges (make_plan nc old new rt)) \<longleftrightarrow>
      (\<forall>i. (\<forall>b. ?old i = Some b \<longrightarrow> ?new i \<noteq> None)
         \<and> (\<forall>ob nb. ?old i = Some ob \<and> ?new i = Some nb \<longrightarrow> bridge_equiv rt ob nb)
         \<and> (\<forall>nb. ?new i = Some nb \<longrightarrow> ?old i \<noteq> None))" (is "?L = (\<forall>i. ?P i)")
  proof
    assume L: ?L
    then have L': "\<And>x. x \<in> set (pl_bridges (make_plan nc old new rt)) \<Longrightarrow> bp_action x = Unchanged"
      by (simp add: list_all_iff)
    show "\<forall>i. ?P i"
    proof (intro allI conjI impI)
      fix i b assume "?old i = Some b"
      then show "?new i \<noteq> None" using L' [OF plan_stops] by fastforce
    next
      fix i nb assume "?new i = Some nb"
      then show "?old i \<noteq> None" using L' [OF plan_keeps, of i nb] by (cases "?old i") auto
    next
      fix i ob nb assume "?old i = Some ob \<and> ?new i = Some nb"
      then show "bridge_equiv rt ob nb" using L' [OF plan_keeps, of i nb] by (simp add: compare_bridge_unchanged)
    qed
  next
    assume "\<forall>i. ?P i"
    then show ?L by (auto simp: list_all_iff compare_bridge_unchanged elim!: plan_bridgesE)
  qed
  moreover have "?P i \<longleftrightarrow> rel_option (bridge_equiv rt) (?old i) (?new i)" for i
    by (cases "?old i"; cases "?new i") simp_all
  ultimately have "list_all (\<lambda>b. bp_action b = Unchanged) (pl_bridges (make_plan nc old new rt)) \<longleftrightarrow>
      (\<forall>i. rel_option (bridge_equiv rt) (?old i) (?new i))" by simp
  then show ?thesis unfolding is_noop_def by (simp add: make_plan_def Let_def)
qed

section \<open>Client limits\<close>

text \<open>The sessions of a port that a plan leaves connected.\<close>

definition survivors :: "port_plan \<Rightarrow> session_view list \<Rightarrow> session_view list" where
  "survivors pp ss = filter (\<lambda>s. sv_id s \<notin> set (pp_disconnects pp)) ss"

lemma set_newest_beyond:
  assumes "distinct (map sv_id ss)"
  shows "length (filter (\<lambda>s. sv_id s \<notin> set (newest_beyond ss mx)) ss) = min mx (length ss)"
    and "s \<in> set ss \<Longrightarrow> t \<in> set ss \<Longrightarrow> sv_id s \<notin> set (newest_beyond ss mx) \<Longrightarrow>
         sv_id t \<in> set (newest_beyond ss mx) \<Longrightarrow> sv_seq s \<le> sv_seq t"
proof -
  let ?a = "sort_key sv_seq ss"
  have d: "distinct (map sv_id ?a)"
    using assms by (simp add: distinct_map inj_on_def)
  have mem: "sv_id s \<in> sv_id ` set (drop mx ?a) \<longleftrightarrow> s \<in> set (drop mx ?a)" if "s \<in> set ss" for s
  proof -
    have "inj_on sv_id (set ?a)" using d by (simp add: distinct_map)
    moreover have "set (drop mx ?a) \<subseteq> set ?a" by (rule set_drop_subset)
    ultimately show ?thesis using that by (intro inj_on_image_mem_iff) auto
  qed
  have split: "set (take mx ?a) \<inter> set (drop mx ?a) = {}" "set ?a = set (take mx ?a) \<union> set (drop mx ?a)"
    using d set_take_disj_set_drop_if_distinct [of ?a mx mx] by (simp add: distinct_map, metis append_take_drop_id set_append)
  have nb: "set (newest_beyond ss mx) = sv_id ` set (drop mx ?a)"
    by (auto simp: newest_beyond_def)
  have "length (filter (\<lambda>s. sv_id s \<notin> set (newest_beyond ss mx)) ss)
      = card (set ss - set (drop mx ?a))"
    using assms mem by (subst distinct_card [symmetric]) (auto simp: distinct_map nb intro!: arg_cong [of _ _ card])
  also have "set ss - set (drop mx ?a) = set (take mx ?a)" using split by auto
  also have "card \<dots> = min mx (length ss)"
    using d by (subst distinct_card) (auto simp: distinct_map intro: distinct_take)
  finally show "length (filter (\<lambda>s. sv_id s \<notin> set (newest_beyond ss mx)) ss) = min mx (length ss)" .
  assume st: "s \<in> set ss" "t \<in> set ss" "sv_id s \<notin> set (newest_beyond ss mx)" "sv_id t \<in> set (newest_beyond ss mx)"
  have "s \<notin> set (drop mx ?a)" "t \<in> set (drop mx ?a)"
    using st(3,4) unfolding nb mem [OF st(1)] mem [OF st(2)] .
  moreover from this have "s \<in> set (take mx ?a)" using st(1) split(2) by simp
  moreover have "sorted (map sv_seq (take mx ?a) @ map sv_seq (drop mx ?a))"
    unfolding map_append [symmetric] append_take_drop_id by (rule sorted_sort_key)
  then have "\<forall>x \<in> sv_seq ` set (take mx ?a). \<forall>y \<in> sv_seq ` set (drop mx ?a). x \<le> y"
    unfolding sorted_append set_map by (elim conjE)
  ultimately show "sv_seq s \<le> sv_seq t" by (meson image_eqI)
qed

lemma set_kick [simp]: "set (remdups_adj (sort_key f xs)) = set xs"
  by simp

lemma compare_port_max:
  assumes "p_role old = p_role new"
    and "p_kind old = TcpServer l om a an \<and> p_kind new = TcpServer l (Some mx) a an' \<and> om \<noteq> Some mx
       \<or> p_kind old = BleServer sel om' \<and> p_kind new = BleServer sel' mx \<and> same_adapter rt sel sel' \<and> om' \<noteq> mx"
  shows "pp_action (compare_port nc br old new rt) = Updated \<and>
     set (pp_disconnects (compare_port nc br old new rt)) = set (newest_beyond (sessions_of rt br (p_id old)) (unat mx))"
  using assms by (auto simp: compare_port_def type_name_def note_if_def Let_def)

text \<open>C9: changing only the client limit of a running server port updates it in place, keeps as many
  sessions as the new limit allows (all of them if they fit), and every session it keeps is at least
  as old as every session it disconnects.\<close>

theorem max_clients_keeps_oldest:
  assumes "distinct (map sv_id (sessions_of rt br (p_id old)))" and "p_role old = p_role new"
    and "p_kind old = TcpServer l om a an \<and> p_kind new = TcpServer l (Some mx) a an' \<and> om \<noteq> Some mx
       \<or> p_kind old = BleServer sel om' \<and> p_kind new = BleServer sel' mx \<and> same_adapter rt sel sel' \<and> om' \<noteq> mx"
  shows "pp_action (compare_port nc br old new rt) = Updated
    \<and> length (survivors (compare_port nc br old new rt) (sessions_of rt br (p_id old)))
        = min (unat mx) (length (sessions_of rt br (p_id old)))
    \<and> (\<forall>s \<in> set (survivors (compare_port nc br old new rt) (sessions_of rt br (p_id old))).
        \<forall>t \<in> set (sessions_of rt br (p_id old)).
          sv_id t \<in> set (pp_disconnects (compare_port nc br old new rt)) \<longrightarrow> sv_seq s \<le> sv_seq t)"
  using compare_port_max [OF assms(2,3), of nc br] set_newest_beyond [OF assms(1), where mx = "unat mx"]
  by (simp add: survivors_def)

definition ex_runtime :: runtime where
  "ex_runtime = \<lparr>rt_bridges = [(''ktbr0'', \<lparr>bv_tnc_active = True, bv_sessions =
     [\<lparr>sv_id = \<lparr>sid_port = ''lan'', sid_peer = ''10.0.0.9:5000''\<rparr>, sv_seq = 3\<rparr>,
      \<lparr>sv_id = \<lparr>sid_port = ''lan'', sid_peer = ''10.0.0.2:5000''\<rparr>, sv_seq = 1\<rparr>,
      \<lparr>sv_id = \<lparr>sid_port = ''lan'', sid_peer = ''10.0.0.5:5000''\<rparr>, sv_seq = 2\<rparr>]\<rparr>)],
     rt_adapter_mac = None\<rparr>"

definition ex_lan :: "u32 option \<Rightarrow> ip_addr list \<Rightarrow> ip_addr port" where
  "ex_lan mx allow = \<lparr>p_id = ''lan'', p_role = Role_App,
     p_kind = TcpServer (Addr (Sock (V4 [0, 0, 0, 0]) 8001 0)) mx allow False\<rparr>"

theorem max_clients_keeps_oldest_witness:
  "pp_action (compare_port (=) ''ktbr0'' (ex_lan None []) (ex_lan (Some 2) []) ex_runtime) = Updated
   \<and> length (survivors (compare_port (=) ''ktbr0'' (ex_lan None []) (ex_lan (Some 2) []) ex_runtime)
        (sessions_of ex_runtime ''ktbr0'' ''lan'')) = min 2 3"
proof -
  have s: "sessions_of ex_runtime ''ktbr0'' ''lan'' = bv_sessions (snd (hd (rt_bridges ex_runtime)))"
    by (simp add: sessions_of_def ex_runtime_def)
  then have "distinct (map sv_id (sessions_of ex_runtime ''ktbr0'' (p_id (ex_lan None []))))"
    and "length (sessions_of ex_runtime ''ktbr0'' (p_id (ex_lan None []))) = 3"
    by (simp_all add: ex_lan_def ex_runtime_def sessions_of_def)
  then show ?thesis
    using max_clients_keeps_oldest [of ex_runtime "''ktbr0''" "ex_lan None []" "ex_lan (Some 2) []"
        "Addr (Sock (V4 [0, 0, 0, 0]) 8001 0)" None "[]" False 2 False _ _ _ "(=)"]
    by (simp add: ex_lan_def)
qed

text \<open>When the allow list and the limit change together, the limit counts the sessions that the allow
  list disconnects: here the one allowed session goes although it fits.\<close>

lemma allow_and_limit_disconnect_too_many:
  "set (pp_disconnects (compare_port (=) ''b'' (ex_lan None []) (ex_lan (Some 1) [V4 [10, 0, 0, 5]])
     \<lparr>rt_bridges = [(''b'', \<lparr>bv_tnc_active = True, bv_sessions =
        [\<lparr>sv_id = \<lparr>sid_port = ''lan'', sid_peer = ''10.0.0.2:5000''\<rparr>, sv_seq = 1\<rparr>,
         \<lparr>sv_id = \<lparr>sid_port = ''lan'', sid_peer = ''10.0.0.5:5000''\<rparr>, sv_seq = 2\<rparr>]\<rparr>)], rt_adapter_mac = None\<rparr>)) =
   {\<lparr>sid_port = ''lan'', sid_peer = ''10.0.0.2:5000''\<rparr>, \<lparr>sid_port = ''lan'', sid_peer = ''10.0.0.5:5000''\<rparr>}"
proof -
  have show5: "show_nat 5000 = ''5000''" "show_nat 10 = ''10''" "show_nat 0 = ''0''" "show_nat 2 = ''2''" "show_nat 5 = ''5''"
    by (simp_all add: show_nat_def decimal_digits.simps char_of_def bit_simps)
  have "parse_socket_addr ''10.0.0.2:5000'' = Some (Sock (V4 [10, 0, 0, 2]) 5000 0)"
    "parse_socket_addr ''10.0.0.5:5000'' = Some (Sock (V4 [10, 0, 0, 5]) 5000 0)"
    using parse_socket_addr_show_v4 [of 10 0 0 2 5000] parse_socket_addr_show_v4 [of 10 0 0 5 5000]
    by (simp_all add: show_ipv4_def show_u8_def show5)
  then show ?thesis
    by (auto simp: compare_port_def ex_lan_def type_name_def sessions_of_def note_if_def newest_beyond_def Let_def
        allowed_def peer_ip_def)
qed

section \<open>Plans that are not disruptive\<close>

lemma not_disruptive_iff:
  "\<not> disruptive pl \<longleftrightarrow> (\<forall>b \<in> set (pl_bridges pl). \<not> bp_stops_in_use b
     \<and> (\<forall>p \<in> set (bp_ports b). pp_disconnects p = [] \<and> \<not> pp_drops_tnc_link p))"
  by (auto simp: disruptive_def disruptions_def)

lemma bridge_port_distinct:
  "distinct (map p_id (b_ports b)) \<Longrightarrow> p \<in> set (b_ports b) \<Longrightarrow> bridge_port b (p_id p) = Some p"
  unfolding bridge_port_def
proof (induction "b_ports b" arbitrary: b)
  case (Cons q qs)
  then have "q = p \<or> p_id q \<noteq> p_id p" by (metis distinct.simps(2) image_eqI list.set_map list.simps(9) set_ConsD)
  then show ?case using Cons.prems Cons.hyps(1) [of "b\<lparr>b_ports := qs\<rparr>"] Cons.hyps(2) [symmetric] by auto
qed simp

text \<open>What a restart of a port does to its sessions and to the link.\<close>

lemma compare_port_restart:
  assumes "pp_action (compare_port nc br old new rt) = Restarted"
  shows "pp_disconnects (compare_port nc br old new rt) =
      (if p_role new = Role_Tnc then [] else map sv_id (sessions_of rt br (p_id old)))"
    and "pp_drops_tnc_link (compare_port nc br old new rt) = (p_role new = Role_Tnc \<and> tnc_active rt br)"
  using assms by (auto simp: compare_port_def Let_def split: prod.splits if_splits)

lemma stop_plan_quiet:
  assumes "\<not> bp_stops_in_use (stop_bridge_plan b rt)" and "p \<in> set (b_ports b)"
  shows "sessions_of rt (b_id b) (p_id p) = []" "\<not> tnc_active rt (b_id b)"
  using assms by (auto simp: stop_bridge_plan_def stopped_def list_ex_iff Let_def)

lemma stop_plan_link: "\<not> bp_stops_in_use (stop_bridge_plan b rt) \<Longrightarrow> \<not> tnc_active rt (b_id b)"
  by (simp add: stop_bridge_plan_def Let_def)


text \<open>The exception is real: a port that turns from an app port into a TNC port restarts, its sessions
  end, and the plan neither lists them nor is it disruptive on their account.\<close>

lemma role_change_hides_sessions:
  "p_role old = Role_App \<Longrightarrow> p_role new = Role_Tnc \<Longrightarrow>
     pp_action (compare_port nc br old new rt) = Restarted \<and> pp_disconnects (compare_port nc br old new rt) = []"
  by (simp add: compare_port_def)

text \<open>A TNC port that gets another id is planned as one port stopped and one started, and not as a
  dropped link, even while the link is in use.\<close>

lemma renamed_tnc_port_hides_drop:
  "\<not> pp_drops_tnc_link (stopped rt br p) \<and> \<not> pp_drops_tnc_link (started q)"
  by (simp add: stopped_def started_def)

text \<open>The example's port unchanged but for a raised limit: not disruptive, and the session stays.\<close>

definition ex_radio :: "ip_addr port" where
  "ex_radio = \<lparr>p_id = ''radio'', p_role = Role_Tnc, p_kind = TcpClient ''tnc'' 8001 Always 0\<rparr>"

definition ex_cfg :: "u32 option \<Rightarrow> ip_addr config" where
  "ex_cfg mx = \<lparr>cfg_global = \<lparr>g_log_level = ''info'', g_adapter = Sel_Default\<rparr>, cfg_control = \<lparr>c_group = ''g''\<rparr>,
     cfg_adapters = [], cfg_tncs = [],
     cfg_bridges = [\<lparr>b_id = ''ktbr0'', b_name = ''Field'', b_public_name = ''Field'', b_enabled = True,
       b_enabled_override = None, b_app_params = Params_Pass, b_ports = [ex_radio, ex_lan mx []], b_source = Dynamic\<rparr>]\<rparr>"

lemma ex_running: "map_of (running (ex_cfg mx)) ''ktbr0'' = Some (hd (cfg_bridges (ex_cfg mx)))"
  by (simp add: running_map ex_cfg_def)

lemma ex_quiet: "\<not> disruptive (make_plan (=) (ex_cfg (Some 3)) (ex_cfg (Some 4)) ex_runtime)"
  by (simp add: disruptive_def disruptions_def make_plan_def running_def btree_collect_def ex_cfg_def compare_bridge_def
      compare_port_def type_name_def ex_radio_def ex_lan_def sessions_of_def ex_runtime_def newest_beyond_def note_if_def
      Let_def)


end
