(* ===== verification/Ax25.thy ===== *)
theory Ax25
  imports Kiss Rust_Text
begin

text \<open>
  \<^verbatim>\<open>src/ax25.rs\<close>: a KISS frame decoded for display, with the address fields of AX.25. The specification
  side is an encoder of address fields; decoding is shown to invert it.
\<close>

unbundle bit_operations_syntax

record header =
  hd_source :: string
  hd_destination :: string
  hd_path :: "string list"

record decoded =
  dc_channel :: u8
  dc_command :: u8
  dc_ax25 :: "header option"
  dc_summary :: string

definition printable :: "bytes \<Rightarrow> string" where
  "printable bs = map (\<lambda>c. if 0x20 \<le> c \<and> c \<le> 0x7E then byte_char c else CHR ''.'') bs"

definition hex :: "bytes \<Rightarrow> string" where
  "hex bs = join_on CHR '' '' (map hex2_upper bs)"

text \<open>The six bytes of a call sign, shifted left by one; blanks are skipped.\<close>

fun call_chars :: "bytes \<Rightarrow> string option" where
  "call_chars [] = Some []"
| "call_chars (b # bs) =
     (let c = byte_char (drop_bit 1 b) in
      if c \<noteq> CHR '' '' then
        (if \<not> (is_ascii_uppercase c \<or> is_ascii_digit c) then None
         else map_option (Cons c) (call_chars bs))
      else call_chars bs)"

definition address :: "bytes \<Rightarrow> (string \<times> bool \<times> bool) option" where
  "address field =
     (case call_chars (take 6 field) of
        None \<Rightarrow> None
      | Some call \<Rightarrow>
          if call = [] then None
          else
            (let f6 = field ! 6;
                 ssid = drop_bit 1 f6 AND 0x0F
             in Some (call @ (if ssid \<noteq> 0 then ''-'' @ show_nat (unat ssid) else []),
                      f6 AND 1 = 1, f6 AND 0x80 \<noteq> 0)))"

text \<open>The loop over the address fields: the addresses, and what follows them.\<close>

function parse_addrs :: "(string \<times> bool) list \<Rightarrow> bytes \<Rightarrow> ((string \<times> bool) list \<times> bytes) option" where
  "parse_addrs addrs bs =
     (if length bs < 7 then None
      else case address (take 7 bs) of
             None \<Rightarrow> None
           | Some (call, is_last, repeated) \<Rightarrow>
               (let addrs = addrs @ [(call, repeated)] in
                if is_last then Some (addrs, drop 7 bs)
                else if length addrs > 10 then None
                else parse_addrs addrs (drop 7 bs)))"
  by pat_completeness auto
termination
  by (relation "measure (\<lambda>(_, bs). length bs)") auto

declare parse_addrs.simps [simp del]

definition path_entry :: "string \<times> bool \<Rightarrow> string" where
  "path_entry a = (if snd a then fst a @ ''*'' else fst a)"

definition parse :: "bytes \<Rightarrow> (header \<times> bytes) option" where
  "parse bs =
     (case parse_addrs [] bs of
        None \<Rightarrow> None
      | Some (addrs, rest) \<Rightarrow>
          if length addrs < 2 then None
          else case rest of
                 [] \<Rightarrow> None
               | control # after \<Rightarrow>
                   (let info = (if control AND 0xEF = 0x03 \<or> control AND 0x01 = 0 then drop 1 after else []) in
                    Some (\<lparr>hd_source = fst (addrs ! 1), hd_destination = fst (addrs ! 0),
                           hd_path = map path_entry (drop 2 addrs)\<rparr>, info)))"

definition hex_nibble :: "u8 \<Rightarrow> string" where
  "hex_nibble c = [''0123456789abcdef'' ! (unat c mod 16)]"

definition decode_frame :: "bytes \<Rightarrow> decoded" where
  "decode_frame raw =
     (case Kiss.decode raw of
        Inl _ \<Rightarrow> \<lparr>dc_channel = 0, dc_command = 0, dc_ax25 = None,
                 dc_summary = ''undecodable KISS frame ('' @ show_nat (length raw) @ '' bytes)''\<rparr>
      | Inr frame \<Rightarrow>
          (let channel = drop_bit 4 (command frame); cmd = command frame AND 0x0F in
           if cmd \<noteq> 0 then
             \<lparr>dc_channel = channel, dc_command = cmd, dc_ax25 = None,
              dc_summary = ''KISS command 0x'' @ hex_nibble cmd @ '': '' @ hex (data frame)\<rparr>
           else case parse (data frame) of
                  Some (h, info) \<Rightarrow>
                    \<lparr>dc_channel = channel, dc_command = cmd, dc_ax25 = Some h,
                     dc_summary = hd_source h @ ''>'' @ hd_destination h
                       @ (if hd_path h = [] then [] else '','' @ join_on CHR '','' (hd_path h))
                       @ '':'' @ printable info\<rparr>
                | None \<Rightarrow>
                    \<lparr>dc_channel = channel, dc_command = cmd, dc_ax25 = None,
                     dc_summary = show_nat (length (data frame)) @ '' bytes, not AX.25''\<rparr>))"

section \<open>Decoding inverts encoding\<close>

text \<open>An address field as it is sent: the call sign padded with blanks and shifted left by one bit, then
  the SSID, with the end bit and the has-been-repeated bit.\<close>

datatype addr = Addr_Of (ad_call: string) (ad_ssid: nat) (ad_rep: bool)

definition addr_wf :: "addr \<Rightarrow> bool" where
  "addr_wf a \<longleftrightarrow> ad_call a \<noteq> [] \<and> length (ad_call a) \<le> 6 \<and> ad_ssid a < 16
     \<and> (\<forall>c \<in> set (ad_call a). is_ascii_uppercase c \<or> is_ascii_digit c)"

definition encode_char :: "char \<Rightarrow> u8" where
  "encode_char c = push_bit 1 (of_nat (code c))"

definition last_byte :: "nat \<Rightarrow> bool \<Rightarrow> bool \<Rightarrow> u8" where
  "last_byte ssid fin rep =
     0x60 OR push_bit 1 (of_nat ssid) OR of_bool fin OR (if rep then 0x80 else 0)"

definition encode_addr :: "bool \<Rightarrow> addr \<Rightarrow> bytes" where
  "encode_addr fin a =
     map encode_char (ad_call a @ replicate (6 - length (ad_call a)) CHR '' '')
     @ [last_byte (ad_ssid a) fin (ad_rep a)]"

definition show_addr :: "addr \<Rightarrow> string" where
  "show_addr a = ad_call a @ (if ad_ssid a \<noteq> 0 then ''-'' @ show_nat (ad_ssid a) else [])"

definition encode_addrs :: "addr list \<Rightarrow> bytes" where
  "encode_addrs as = concat (map (encode_addr False) (butlast as)) @ encode_addr True (last as)"

lemma byte_char_encode: "code c < 128 \<Longrightarrow> byte_char (drop_bit (Suc 0) (encode_char c)) = c"
proof -
  have "\<forall>n \<in> {0..<128 :: nat}. unat (drop_bit (Suc 0) (push_bit 1 (of_nat n :: u8))) = n" by code_simp
  then show "code c < 128 \<Longrightarrow> byte_char (drop_bit (Suc 0) (encode_char c)) = c"
    by (simp add: byte_char_def encode_char_def code_def)
qed

lemma call_char_code: "is_ascii_uppercase c \<or> is_ascii_digit c \<Longrightarrow> code c < 128 \<and> c \<noteq> CHR '' ''"
  by (auto simp: is_ascii_uppercase_def is_ascii_digit_def code_def)

lemma call_chars_blank: "call_chars (map encode_char (replicate n CHR '' '')) = Some []"
  by (induction n) (simp_all add: byte_char_encode code_def Let_def)

lemma call_chars_encode:
  "\<forall>c \<in> set cs. is_ascii_uppercase c \<or> is_ascii_digit c \<Longrightarrow>
   call_chars (map encode_char (cs @ replicate n CHR '' '')) = Some cs"
proof (induction cs)
  case Nil
  then show ?case by (simp add: call_chars_blank del: map_replicate)
next
  case (Cons c cs)
  then show ?case using call_char_code [of c] by (auto simp: byte_char_encode Let_def)
qed

lemma last_byte_bits:
  assumes "ssid < 16"
  shows "drop_bit (Suc 0) (last_byte ssid l r) AND 0x0F = of_nat ssid" "last_byte ssid l r AND 1 = 1 \<longleftrightarrow> l"
    "last_byte ssid l r AND 0x80 \<noteq> 0 \<longleftrightarrow> r"
proof -
  have "\<forall>n \<in> {0..<16 :: nat}. \<forall>l r. drop_bit (Suc 0) (last_byte n l r) AND 0x0F = of_nat n
      \<and> (last_byte n l r AND 1 = 1 \<longleftrightarrow> l) \<and> (last_byte n l r AND 0x80 \<noteq> 0 \<longleftrightarrow> r)"
    by code_simp
  with assms show "drop_bit (Suc 0) (last_byte ssid l r) AND 0x0F = of_nat ssid" "last_byte ssid l r AND 1 = 1 \<longleftrightarrow> l"
    "last_byte ssid l r AND 0x80 \<noteq> 0 \<longleftrightarrow> r" by auto
qed

lemma length_encode_addr: "addr_wf a \<Longrightarrow> length (encode_addr l a) = 7"
  by (simp add: encode_addr_def addr_wf_def)

lemma address_encode:
  assumes "addr_wf a"
  shows "address (encode_addr l a) = Some (show_addr a, l, ad_rep a)"
proof -
  have n: "length (map encode_char (ad_call a @ replicate (6 - length (ad_call a)) CHR '' '')) = 6"
    using assms by (simp add: addr_wf_def)
  have "take 6 (encode_addr l a) = map encode_char (ad_call a @ replicate (6 - length (ad_call a)) CHR '' '')"
    "encode_addr l a ! 6 = last_byte (ad_ssid a) l (ad_rep a)"
    using n by (simp_all add: encode_addr_def nth_append)
  moreover have "call_chars (map encode_char (ad_call a @ replicate (6 - length (ad_call a)) CHR '' '')) = Some (ad_call a)"
    using assms by (intro call_chars_encode) (simp add: addr_wf_def)
  moreover have "ad_ssid a < 16" "ad_call a \<noteq> []" using assms by (auto simp: addr_wf_def)
  moreover from this have "unat (of_nat (ad_ssid a) :: u8) = ad_ssid a" by (simp add: unat_of_nat take_bit_nat_eq_self)
  moreover from this have "(of_nat (ad_ssid a) :: u8) = 0 \<longleftrightarrow> ad_ssid a = 0"
    using unat_eq_0 [of "of_nat (ad_ssid a) :: u8"] by simp
  ultimately show ?thesis by (simp add: address_def last_byte_bits show_addr_def Let_def)
qed

lemma parse_addrs_last:
  "addr_wf a \<Longrightarrow> parse_addrs acc (encode_addr True a @ rest) = Some (acc @ [(show_addr a, ad_rep a)], rest)"
  by (subst parse_addrs.simps) (simp add: length_encode_addr address_encode Let_def)

lemma parse_addrs_more:
  "addr_wf a \<Longrightarrow> length acc < 10 \<Longrightarrow>
   parse_addrs acc (encode_addr False a @ rest) = parse_addrs (acc @ [(show_addr a, ad_rep a)]) rest"
  by (subst parse_addrs.simps) (simp add: length_encode_addr address_encode Let_def)

lemma parse_addrs_encode:
  assumes "\<forall>a \<in> set as. addr_wf a" and "as \<noteq> []" and "length acc + length as \<le> 11"
  shows "parse_addrs acc (encode_addrs as @ rest) = Some (acc @ map (\<lambda>a. (show_addr a, ad_rep a)) as, rest)"
  using assms
proof (induction as arbitrary: acc)
  case (Cons a as)
  show ?case
  proof (cases "as = []")
    case True
    with Cons.prems show ?thesis by (simp add: encode_addrs_def parse_addrs_last)
  next
    case False
    then have "encode_addrs (a # as) @ rest = encode_addr False a @ encode_addrs as @ rest"
      by (simp add: encode_addrs_def)
    moreover have "length acc < 10" using False Cons.prems(3) by (cases as) auto
    ultimately show ?thesis
      using False Cons.prems Cons.IH [of "acc @ [(show_addr a, ad_rep a)]"] by (simp add: parse_addrs_more)
  qed
qed simp


definition ex_addr :: "bool \<Rightarrow> addr" where
  "ex_addr r = Addr_Of ''WIDE1'' 1 r"


end
