(* ===== verification/Kiss_Stream.thy ===== *)
theory Kiss_Stream
  imports Kiss
begin

text \<open>
  KISS over a byte stream, \<^verbatim>\<open>src/port/stream.rs\<close>: \<open>KissReader\<close>, \<open>KissWriter\<close>, and the link's
  reader task of \<^verbatim>\<open>src/bridge/mod.rs\<close>. What the operating system hands to \<open>read\<close> is a list
  of results; the reader is blocked when the list is used up. The reader depends on the
  reassembly buffer only through the locale \<open>reassembler\<close>.
\<close>

section \<open>What the reader needs of its reassembly buffer\<close>

text \<open>Feeding a sequence of reads, stopping at the first error.\<close>

fun feed_all ::
    "('b \<Rightarrow> bytes \<Rightarrow> (error + bytes list) \<times> 'b) \<Rightarrow> 'b \<Rightarrow> bytes list \<Rightarrow> (error + bytes list) \<times> 'b" where
  "feed_all feed b [] = (Inr [], b)"
| "feed_all feed b (c # cs) =
     (case feed b c of
        (Inl e, b') \<Rightarrow> (Inl e, b')
      | (Inr fs, b') \<Rightarrow>
          (case feed_all feed b' cs of
             (Inl e, b'') \<Rightarrow> (Inl e, b'')
           | (Inr gs, b'') \<Rightarrow> (Inr (fs @ gs), b'')))"

locale reassembler =
  fixes feed :: "'b \<Rightarrow> bytes \<Rightarrow> (error + bytes list) \<times> 'b"
    and held :: "'b \<Rightarrow> bytes"
    and inside :: "'b \<Rightarrow> bool"
    and room :: "'b \<Rightarrow> nat"
    and invar :: "'b \<Rightarrow> bool"
  assumes feed_frames:
      "invar b \<Longrightarrow> length (held b) + length d \<le> room b \<Longrightarrow>
       fst (feed b d) = Inr (complete_frames (inside b) (held b @ d))"
    and feed_held:
      "invar b \<Longrightarrow> length (held b) + length d \<le> room b \<Longrightarrow>
       held (snd (feed b d)) = last (split_on FEND (held b @ d))"
    and feed_inside:
      "invar b \<Longrightarrow> length (held b) + length d \<le> room b \<Longrightarrow>
       inside (snd (feed b d)) \<longleftrightarrow> inside b \<or> FEND \<in> set d"
    and feed_room: "invar b \<Longrightarrow> room (snd (feed b d)) = room b"
    and feed_invar: "invar b \<Longrightarrow> invar (snd (feed b d))"
    and held_free: "invar b \<Longrightarrow> FEND \<notin> set (held b)"
begin

lemma feed_Pair:
  assumes "invar b" and "length (held b) + length d \<le> room b"
  obtains b' where "feed b d = (Inr (complete_frames (inside b) (held b @ d)), b')" "invar b'"
    "held b' = last (split_on FEND (held b @ d))" "inside b' \<longleftrightarrow> inside b \<or> FEND \<in> set d"
    "room b' = room b"
proof (cases "feed b d")
  case (Pair r b')
  then show ?thesis
    using that feed_frames [OF assms] feed_held [OF assms] feed_inside [OF assms]
      feed_room [OF assms(1)] feed_invar [OF assms(1)]
    by (metis fst_conv snd_conv)
qed

text \<open>Cutting the stream into reads differently makes no difference to the frames.\<close>

lemma feed_all_frames:
  assumes "invar b"
    and "\<And>p c q. concat cs = p @ c @ q \<Longrightarrow> length c \<le> m \<Longrightarrow>
           length (last (split_on FEND (held b @ p))) + length c \<le> room b"
    and "\<And>c. c \<in> set cs \<Longrightarrow> length c \<le> m"
  shows "\<exists>b'. feed_all feed b cs = (Inr (complete_frames (inside b) (held b @ concat cs)), b')
           \<and> invar b' \<and> held b' = last (split_on FEND (held b @ concat cs))"
  using assms
proof (induction cs arbitrary: b)
  case Nil
  then have "FEND \<notin> set (held b)" by (simp add: held_free)
  with Nil show ?case
    by (simp add: complete_frames_def split_on_free)
next
  case (Cons c cs)
  have free: "FEND \<notin> set (held b)" using Cons.prems(1) by (rule held_free)
  have "length (last (split_on FEND (held b @ []))) + length c \<le> room b"
    using Cons.prems(2) [of "[]" c "concat cs"] Cons.prems(3) by simp
  then have "length (held b) + length c \<le> room b" using free by (simp add: split_on_free)
  with Cons.prems(1) obtain b' where
    b': "feed b c = (Inr (complete_frames (inside b) (held b @ c)), b')" "invar b'"
      "held b' = last (split_on FEND (held b @ c))" "inside b' \<longleftrightarrow> inside b \<or> FEND \<in> set c"
      "room b' = room b"
    by (rule feed_Pair)
  have lst: "last (split_on FEND (held b' @ p)) = last (split_on FEND (held b @ c @ p))" for p
    using last_split_on_append [of FEND "held b @ c" p] b'(3) by simp
  have "\<exists>b''. feed_all feed b' cs = (Inr (complete_frames (inside b') (held b' @ concat cs)), b'')
           \<and> invar b'' \<and> held b'' = last (split_on FEND (held b' @ concat cs))"
  proof (rule Cons.IH [OF b'(2)])
    fix p d q assume "concat cs = p @ d @ q" "length d \<le> m"
    then show "length (last (split_on FEND (held b' @ p))) + length d \<le> room b'"
      using Cons.prems(2) [of "c @ p" d q] lst b'(5) by simp
  qed (use Cons.prems(3) in auto)
  then show ?case
    using b' lst free complete_frames_append [of "inside b" "held b @ c" "concat cs"]
    by (auto simp: split_on_free split: if_splits)
qed

end

section \<open>The reader and the writer\<close>

record reader =
  reassembly_of :: reassembly
  pending_frames :: "frame list"

datatype read_result = Got bytes | Read_failed string

definition MAX_FRAME_BYTES :: nat where "MAX_FRAME_BYTES = 8192"
definition READ_BUF :: nat where "READ_BUF = 2048"

definition with_max_frame :: "nat \<Rightarrow> reader" where
  "with_max_frame n = \<lparr>reassembly_of = new_buffer n, pending_frames = []\<rparr>"

definition new_reader :: reader where
  "new_reader = with_max_frame MAX_FRAME_BYTES"

text \<open>One pass of the loop body after a read of \<open>d\<close>: \<open>push\<close>, then \<open>drain_frames\<close>.\<close>

definition feed :: "reassembly \<Rightarrow> bytes \<Rightarrow> (error + bytes list) \<times> reassembly" where
  "feed b d =
     (case push b d of
        (Inl e, b') \<Rightarrow> (Inl e, b')
      | (Inr _, b') \<Rightarrow> (case drain_frames b' of (fs, b'') \<Rightarrow> (Inr fs, b'')))"

datatype read_outcome =
    Ready "error + frame" reader "read_result list"
  | Blocked reader

fun read_frame :: "reader \<Rightarrow> read_result list \<Rightarrow> read_outcome" where
  "read_frame r reads =
     (case pending_frames r of
        f # fs \<Rightarrow> Ready (Inr f) (r\<lparr>pending_frames := fs\<rparr>) reads
      | [] \<Rightarrow>
          (case reads of
             [] \<Rightarrow> Blocked r
           | Read_failed e # rest \<Rightarrow> Ready (Inl (Io e)) r rest
           | Got d # rest \<Rightarrow>
               if d = [] then Ready (Inl LinkClosed) r rest
               else
                 (case feed (reassembly_of r) d of
                    (Inl e, b) \<Rightarrow> Ready (Inl e) (r\<lparr>reassembly_of := b\<rparr>) rest
                  | (Inr fs, b) \<Rightarrow>
                      read_frame (r\<lparr>reassembly_of := b, pending_frames := pending_frames r @ fs\<rparr>) rest)))"

declare read_frame.simps [simp del]

definition write_frame :: "frame \<Rightarrow> bytes" where
  "write_frame raw = FEND # raw @ [FEND]"

lemma read_frame_progress:
  "read_frame r reads = Ready (Inr f) r' rest \<Longrightarrow>
   length rest < length reads \<or> length rest = length reads \<and> length (pending_frames r') < length (pending_frames r)"
proof (induction r reads rule: read_frame.induct)
  case (1 r reads)
  show ?case
  proof (cases "pending_frames r")
    case (Cons g gs)
    with "1.prems" show ?thesis by (auto simp: read_frame.simps [of r])
  next
    case Nil
    with "1.prems" obtain d rest' fs b where
      reads: "reads = Got d # rest'" "d \<noteq> []" "feed (reassembly_of r) d = (Inr fs, b)"
      and rec: "read_frame (r\<lparr>reassembly_of := b, pending_frames := fs\<rparr>) rest' = Ready (Inr f) r' rest"
      by (auto simp: read_frame.simps [of r]
          split: list.splits read_result.splits if_splits prod.splits sum.splits)
    have "length rest < length rest' \<or> length rest = length rest' \<and>
        length (pending_frames r') < length (pending_frames (r\<lparr>reassembly_of := b, pending_frames := fs\<rparr>))"
      using "1.IH" [OF Nil reads(1) refl reads(2) reads(3) [symmetric] refl] rec Nil by simp
    with reads show ?thesis by auto
  qed
qed

text \<open>
  The reader task: every frame goes to the bridge, the first error ends the task. The result
  is the frames sent, the error that closed the link (\<open>None\<close> while the task is still waiting
  for bytes) and the reader.
\<close>

function reader_task :: "reader \<Rightarrow> read_result list \<Rightarrow> frame list \<times> error option" where
  "reader_task r reads =
     (case read_frame r reads of
        Ready (Inr f) r' rest \<Rightarrow> (case reader_task r' rest of (fs, e) \<Rightarrow> (f # fs, e))
      | Ready (Inl e) r' rest \<Rightarrow> ([], Some e)
      | Blocked r' \<Rightarrow> ([], None))"
  by pat_completeness auto
termination
  by (relation "measures [\<lambda>(r, reads). length reads, \<lambda>(r, reads). length (pending_frames r)]")
     (auto dest: read_frame_progress)

declare reader_task.simps [simp del]

section \<open>The buffer provides what the reader needs\<close>

lemma feed_fits:
  "length (buf b) + length d \<le> max_size b \<Longrightarrow>
   feed b d =
     (Inr (complete_frames (in_frame b) (buf b @ d)),
      b\<lparr>buf := last (split_on FEND (buf b @ d)), in_frame := in_frame b \<or> FEND \<in> set (buf b @ d)\<rparr>)"
  by (simp add: feed_def push_def drain_frames_eq)

lemma feed_overflows:
  "length (buf b) + length d > max_size b \<Longrightarrow>
   feed b d = (Inl (KissFrame ''reassembly buffer overflow''), b\<lparr>buf := [], in_frame := False\<rparr>)"
  by (simp add: feed_def push_def)

lemma feed_keeps:
  "max_size (snd (feed b d)) = max_size b" "FEND \<notin> set (buf (snd (feed b d)))"
  by (cases "length (buf b) + length d \<le> max_size b"; simp add: feed_fits feed_overflows)+

interpretation kb: reassembler feed buf in_frame max_size "\<lambda>b. FEND \<notin> set (buf b)"
  by unfold_locales (simp_all add: feed_fits feed_keeps)

section \<open>Reading what was written\<close>

definition wire :: "frame list \<Rightarrow> bytes" where
  "wire fs = concat (map write_frame fs)"

definition wire_safe :: "nat \<Rightarrow> frame \<Rightarrow> bool" where
  "wire_safe n f \<longleftrightarrow> f \<noteq> [] \<and> FEND \<notin> set f \<and> length f \<le> n"

lemma split_wire_Cons:
  "FEND \<notin> set f \<Longrightarrow> split_on FEND (wire (f # fs)) = [] # f # split_on FEND (wire fs)"
  by (simp add: wire_def write_frame_def split_on_append_delim split_on_free)

lemma wire_pieces:
  "(\<And>f. f \<in> set fs \<Longrightarrow> wire_safe n f) \<Longrightarrow> p \<in> set (split_on FEND (wire fs)) \<Longrightarrow> length p \<le> n"
proof (induction fs)
  case Nil
  then show ?case by (simp add: wire_def)
next
  case (Cons f fs)
  then have "FEND \<notin> set f" "length f \<le> n" by (auto simp: wire_safe_def)
  with Cons show ?case by (auto simp: split_wire_Cons)
qed

lemma complete_frames_wire:
  "(\<And>f. f \<in> set fs \<Longrightarrow> wire_safe n f) \<Longrightarrow>
   complete_frames inside (wire fs) = fs \<and> last (split_on FEND (wire fs)) = []"
proof (induction fs arbitrary: inside)
  case Nil
  then show ?case by (simp add: complete_frames_def wire_def)
next
  case (Cons f fs)
  then have f: "FEND \<notin> set f" "f \<noteq> []" and IH: "complete_frames True (wire fs) = fs"
    "last (split_on FEND (wire fs)) = []"
    by (auto simp: wire_safe_def)
  then show ?case
    by (simp add: complete_frames_def split_wire_Cons)
qed

lemma prefix_piece_length:
  assumes "\<And>p. p \<in> set (split_on d (xs @ ys)) \<Longrightarrow> length p \<le> n"
  shows "length (last (split_on d xs)) \<le> n"
proof -
  have "last (split_on d xs) @ hd (split_on d ys) \<in> set (split_on d (xs @ ys))"
    by (simp add: split_on_append)
  then show ?thesis using assms by fastforce
qed

lemma reader_task_pending:
  "reader_task (r\<lparr>pending_frames := fs @ gs\<rparr>) reads =
     (case reader_task (r\<lparr>pending_frames := gs\<rparr>) reads of (hs, e) \<Rightarrow> (fs @ hs, e))"
proof (induction fs)
  case Nil
  then show ?case by (simp split: prod.splits)
next
  case (Cons f fs)
  then show ?case
    by (simp add: reader_task.simps [of "r\<lparr>pending_frames := f # fs @ gs\<rparr>"]
        read_frame.simps [of "r\<lparr>pending_frames := f # fs @ gs\<rparr>"] split: prod.splits)
qed

lemma reader_task_feed_all:
  assumes "feed_all feed (reassembly_of r) cs = (Inr fs, b)" and "[] \<notin> set cs"
    and "pending_frames r = []"
  shows "reader_task r (map Got cs) = (fs, None)"
  using assms
proof (induction cs arbitrary: r fs)
  case Nil
  then show ?case by (simp add: reader_task.simps [of r] read_frame.simps [of r])
next
  case (Cons c cs)
  from Cons.prems(1) obtain gs b' hs where
    g: "feed (reassembly_of r) c = (Inr gs, b')" and h: "feed_all feed b' cs = (Inr hs, b)"
    and fs: "fs = gs @ hs"
    by (auto split: prod.splits sum.splits)
  define r' where "r' = r\<lparr>reassembly_of := b'\<rparr>"
  have "read_frame r (map Got (c # cs)) = read_frame (r'\<lparr>pending_frames := gs\<rparr>) (map Got cs)"
    using Cons.prems g by (auto simp: read_frame.simps [of r] r'_def)
  then have "reader_task r (map Got (c # cs)) = reader_task (r'\<lparr>pending_frames := gs @ []\<rparr>) (map Got cs)"
    by (simp add: reader_task.simps [of r] reader_task.simps [of "r'\<lparr>pending_frames := gs\<rparr>"])
  also have "\<dots> = (gs @ hs, None)"
    using Cons.IH [of "r'\<lparr>pending_frames := []\<rparr>" hs] h Cons.prems(2)
    by (simp only: reader_task_pending) (simp add: r'_def)
  finally show ?case by (simp add: fs)
qed

text \<open>However the bytes of some frames are cut into reads of at most \<open>m\<close> bytes, a buffer with room for
  a frame and a read yields exactly those frames, and so does a reader.\<close>

lemma feed_all_wire:
  assumes "concat cs = wire fs" and "m \<le> n" and "\<And>f. f \<in> set fs \<Longrightarrow> wire_safe (n - m) f"
    and "\<And>c. c \<in> set cs \<Longrightarrow> c \<noteq> [] \<and> length c \<le> m"
  obtains b where "feed_all feed (new_buffer n) cs = (Inr fs, b)"
proof -
  let ?b = "new_buffer n"
  have fit: "length (last (split_on FEND (buf ?b @ p))) + length c \<le> max_size ?b"
    if "concat cs = p @ c @ q" "length c \<le> m" for p c q
  proof -
    have "length (last (split_on FEND p)) \<le> n - m"
      by (rule prefix_piece_length [of FEND p "c @ q"])
         (use wire_pieces [of fs] assms(1,3) that(1) in auto)
    with that(2) assms(2) show ?thesis by (simp add: new_buffer_def)
  qed
  have "\<exists>b'. feed_all feed ?b cs = (Inr (complete_frames (in_frame ?b) (buf ?b @ concat cs)), b')
      \<and> FEND \<notin> set (buf b') \<and> buf b' = last (split_on FEND (buf ?b @ concat cs))"
    by (rule kb.feed_all_frames [where m = m]) (use fit assms(4) in \<open>auto simp: new_buffer_def\<close>)
  moreover have "complete_frames (in_frame ?b) (buf ?b @ concat cs) = fs"
    using complete_frames_wire [of fs "n - m" False] assms(1,3) by (simp add: new_buffer_def)
  ultimately show ?thesis using that by auto
qed

lemma reader_task_wire:
  assumes "concat cs = wire fs" and "m \<le> n" and "\<And>f. f \<in> set fs \<Longrightarrow> wire_safe (n - m) f"
    and "\<And>c. c \<in> set cs \<Longrightarrow> c \<noteq> [] \<and> length c \<le> m"
  shows "reader_task (with_max_frame n) (map Got cs) = (fs, None)"
proof -
  obtain b where "feed_all feed (new_buffer n) cs = (Inr fs, b)" by (rule feed_all_wire [OF assms])
  then show ?thesis
    using reader_task_feed_all [of "with_max_frame n" cs fs b] assms(4) by (auto simp: with_max_frame_def)
qed

section \<open>Properties of the stream\<close>



text \<open>A read that would overflow the reassembly limit is an error that ends the reader task,
  and nothing of the oversized data stays behind in the buffer.\<close>

theorem stream_overflow:
  assumes "pending_frames r = []" and "d \<noteq> []"
    and "length (buf (reassembly_of r)) + length d > max_size (reassembly_of r)"
  shows "read_frame r (Got d # rest) =
      Ready (Inl (KissFrame ''reassembly buffer overflow''))
        (r\<lparr>reassembly_of := (reassembly_of r)\<lparr>buf := [], in_frame := False\<rparr>\<rparr>) rest
    \<and> reader_task r (Got d # rest) = ([], Some (KissFrame ''reassembly buffer overflow''))"
  using assms by (simp add: reader_task.simps read_frame.simps feed_overflows)

theorem stream_overflow_witness:
  "reader_task (with_max_frame 2) [Got [1, 2, 3]] = ([], Some (KissFrame ''reassembly buffer overflow''))"
  using stream_overflow [of "with_max_frame 2" "[1, 2, 3]" "[]"]
  by (simp add: with_max_frame_def new_buffer_def)

end
