(* ===== verification/Tnc_Init.thy ===== *)
theory Tnc_Init
  imports Kiss_Stream Config_Values
begin

text \<open>
  KISS init by TNC model, \<^verbatim>\<open>src/port/tnc_init.rs\<close>: the scanner that separates KISS frames from command
  replies (\<open>Radio::push\<close>), commands with their replies, retries and time limits, the TH-D7x sequence
  and the \<open>Prefixed\<close> link that hands the frames heard during init back to the KISS reader. The link is
  a parameter: what a write does, what the next read gives, how many reads are ready before a
  deadline.
\<close>

section \<open>Text received\<close>

text \<open>\<open>String::from_utf8_lossy\<close>. \<open>utf8_head\<close> gives the number of bytes of the character a byte sequence
  starts with, or of the malformed prefix that is replaced by U+FFFD as one.\<close>

definition is_cont :: "u8 \<Rightarrow> bool" where
  "is_cont b \<longleftrightarrow> 0x80 \<le> b \<and> b \<le> 0xBF"

definition second_of_3 :: "u8 \<Rightarrow> u8 \<Rightarrow> bool" where
  "second_of_3 a b \<longleftrightarrow>
     a = 0xE0 \<and> 0xA0 \<le> b \<and> b \<le> 0xBF \<or> 0xE1 \<le> a \<and> a \<le> 0xEC \<and> is_cont b
     \<or> a = 0xED \<and> 0x80 \<le> b \<and> b \<le> 0x9F \<or> 0xEE \<le> a \<and> a \<le> 0xEF \<and> is_cont b"

definition second_of_4 :: "u8 \<Rightarrow> u8 \<Rightarrow> bool" where
  "second_of_4 a b \<longleftrightarrow>
     a = 0xF0 \<and> 0x90 \<le> b \<and> b \<le> 0xBF \<or> 0xF1 \<le> a \<and> a \<le> 0xF3 \<and> is_cont b
     \<or> a = 0xF4 \<and> 0x80 \<le> b \<and> b \<le> 0x8F"

definition byte_at :: "bytes \<Rightarrow> nat \<Rightarrow> u8" where
  "byte_at bs i = (if i < length bs then bs ! i else 0)"

definition utf8_head :: "bytes \<Rightarrow> bool \<times> nat" where
  "utf8_head bs =
     (let a = byte_at bs 0; b = byte_at bs 1; c = byte_at bs 2; d = byte_at bs 3 in
      if a < 0x80 then (True, 1)
      else if 0xC2 \<le> a \<and> a \<le> 0xDF then (if is_cont b then (True, 2) else (False, 1))
      else if 0xE0 \<le> a \<and> a \<le> 0xEF then
        (if \<not> second_of_3 a b then (False, 1) else if \<not> is_cont c then (False, 2) else (True, 3))
      else if 0xF0 \<le> a \<and> a \<le> 0xF4 then
        (if \<not> second_of_4 a b then (False, 1) else if \<not> is_cont c then (False, 2)
         else if \<not> is_cont d then (False, 3) else (True, 4))
      else (False, 1))"

lemma utf8_head_pos: "0 < snd (utf8_head bs)"
  by (simp add: utf8_head_def Let_def)

function from_utf8_lossy :: "bytes \<Rightarrow> string" where
  "from_utf8_lossy bs =
     (if bs = [] then []
      else case utf8_head bs of
             (ok, n) \<Rightarrow> map byte_char (if ok then take n bs else [0xEF, 0xBF, 0xBD]) @ from_utf8_lossy (drop n bs))"
  by pat_completeness auto
termination
proof (relation "measure length")
  fix bs :: bytes and ok n
  assume "bs \<noteq> []" "(ok, n) = utf8_head bs"
  then show "(drop n bs, bs) \<in> measure length" using utf8_head_pos [of bs] by (cases bs) (auto dest: arg_cong [of _ _ snd])
qed simp

declare from_utf8_lossy.simps [simp del]

section \<open>Separating frames and replies\<close>

definition KISS_RETURN :: bytes where "KISS_RETURN = [FEND, 0xFF, FEND]"
definition REPLY_WAIT :: millis where "REPLY_WAIT = 1000"
definition KISS_CHECK_WAIT :: millis where "KISS_CHECK_WAIT = 500"
definition INIT_TIMEOUT :: millis where "INIT_TIMEOUT = 10000"
definition AFTER_KISS_RETURN :: millis where "AFTER_KISS_RETURN = 300"
definition BUSY_RETRIES :: nat where "BUSY_RETRIES = 3"
definition BUSY_GAP :: millis where "BUSY_GAP = 200"
definition MAX_LINE :: nat where "MAX_LINE = 128"
definition MAX_FRAME :: nat where "MAX_FRAME = 8192"
definition REPLY_BUF :: nat where "REPLY_BUF = 512"

record init_outcome =
  io_radio :: "string option"
  io_frames :: "frame list"
  io_exit_kiss :: "bytes list"

datatype scan = Text | Frame | AfterFrame

record 'd radio =
  r_stream :: 'd
  r_line :: bytes
  r_frame :: bytes
  r_state :: scan
  r_replies :: "string list"
  r_frames :: "frame list"

definition new_radio :: "'d \<Rightarrow> 'd radio" where
  "new_radio d =
     \<lparr>r_stream = d, r_line = [], r_frame = [], r_state = Text, r_replies = [], r_frames = []\<rparr>"

definition push_byte :: "'d radio \<Rightarrow> u8 \<Rightarrow> 'd radio" where
  "push_byte r b =
     (if b = FEND \<and> r_state r = Frame \<and> r_frame r \<noteq> [] then
        r\<lparr>r_frames := r_frames r @ [r_frame r], r_frame := [], r_state := AfterFrame\<rparr>
      else if b = FEND then r\<lparr>r_frame := [], r_state := Frame\<rparr>
      else if r_state r = AfterFrame \<and> b < 0x20 then
        r\<lparr>r_frame := r_frame r @ [b], r_state := Frame\<rparr>
      else if r_state r = Frame then
        (if length (r_frame r) < MAX_FRAME then r\<lparr>r_frame := r_frame r @ [b]\<rparr>
         else r\<lparr>r_frame := [], r_state := Text\<rparr>)
      else if b = 0x0D \<or> b = 0x0A then
        (if r_line r \<noteq> [] then
           r\<lparr>r_state := Text, r_line := [],
             r_replies := r_replies r @ [trim (from_utf8_lossy (r_line r))]\<rparr>
         else r\<lparr>r_state := Text\<rparr>)
      else
        (if length (r_line r) < MAX_LINE then r\<lparr>r_state := Text, r_line := r_line r @ [b]\<rparr>
         else r\<lparr>r_state := Text, r_line := []\<rparr>))"

definition push_bytes :: "'d radio \<Rightarrow> bytes \<Rightarrow> 'd radio" where
  "push_bytes r bs = foldl push_byte r bs"

section \<open>Commands and replies\<close>

text \<open>What a read that is ready gives (no bytes: the end of the stream), or that the deadline passes
  first; a link, over its state; and how many reads complete before the deadline of a wait.\<close>

datatype read_event = Arrived bytes | Read_error string | Deadline

record 'd link =
  l_write :: "'d \<Rightarrow> bytes \<Rightarrow> string option \<times> 'd"
  l_read :: "'d \<Rightarrow> nat \<Rightarrow> read_event \<times> 'd"
  l_reads_within :: "'d \<Rightarrow> millis \<Rightarrow> nat"
  l_sleep :: "'d \<Rightarrow> millis \<Rightarrow> 'd"

text \<open>The \<open>?\<close> operator on a step that changes the radio.\<close>

definition and_then ::
  "('s \<Rightarrow> (error + 'a) \<times> 's) \<Rightarrow> ('a \<Rightarrow> 's \<Rightarrow> (error + 'b) \<times> 's) \<Rightarrow> 's \<Rightarrow> (error + 'b) \<times> 's" where
  "and_then m f s = (case m s of (Inl e, s') \<Rightarrow> (Inl e, s') | (Inr a, s') \<Rightarrow> f a s')"

definition send_raw :: "'d link \<Rightarrow> bytes \<Rightarrow> 'd radio \<Rightarrow> (error + unit) \<times> 'd radio" where
  "send_raw l bs r =
     (case l_write l (r_stream r) bs of
        (Some e, d) \<Rightarrow> (Inl (Io e), r\<lparr>r_stream := d\<rparr>)
      | (None, d) \<Rightarrow> (Inr (), r\<lparr>r_stream := d\<rparr>))"

text \<open>The loop of \<open>reply\<close>; with no reads left the deadline has passed.\<close>

fun reply_loop :: "'d link \<Rightarrow> nat \<Rightarrow> 'd radio \<Rightarrow> (error + string option) \<times> 'd radio" where
  "reply_loop l n r =
     (case r_replies r of
        x # xs \<Rightarrow> (Inr (Some x), r\<lparr>r_replies := xs\<rparr>)
      | [] \<Rightarrow>
          (case n of
             0 \<Rightarrow> (Inr None, r)
           | Suc k \<Rightarrow>
               (case l_read l (r_stream r) REPLY_BUF of
                  (Deadline, d) \<Rightarrow> (Inr None, r\<lparr>r_stream := d\<rparr>)
                | (Read_error e, d) \<Rightarrow> (Inl (Io e), r\<lparr>r_stream := d\<rparr>)
                | (Arrived bs, d) \<Rightarrow>
                    if bs = [] then (Inl LinkClosed, r\<lparr>r_stream := d\<rparr>)
                    else reply_loop l k (push_bytes (r\<lparr>r_stream := d\<rparr>) bs))))"

declare reply_loop.simps [simp del]

definition reply :: "'d link \<Rightarrow> millis \<Rightarrow> 'd radio \<Rightarrow> (error + string option) \<times> 'd radio" where
  "reply l wait r = reply_loop l (l_reads_within l (r_stream r) wait) r"

text \<open>The attempts of \<open>command_within\<close>: the given number of retries is left.\<close>

primrec command_attempts ::
  "'d link \<Rightarrow> string \<Rightarrow> millis \<Rightarrow> nat \<Rightarrow> 'd radio \<Rightarrow> (error + string option) \<times> 'd radio" where
  "command_attempts l cmd wait 0 r =
     and_then (send_raw l (as_bytes (cmd @ [CHR 0x0D]))) (\<lambda>_. reply l wait) (r\<lparr>r_replies := []\<rparr>)"
| "command_attempts l cmd wait (Suc n) r =
     and_then (send_raw l (as_bytes (cmd @ [CHR 0x0D])))
       (\<lambda>_. and_then (reply l wait)
          (\<lambda>x r. if x = Some ''?''
                  then command_attempts l cmd wait n (r\<lparr>r_stream := l_sleep l (r_stream r) BUSY_GAP\<rparr>)
                  else (Inr x, r)))
       (r\<lparr>r_replies := []\<rparr>)"

definition command_within ::
  "'d link \<Rightarrow> string \<Rightarrow> millis \<Rightarrow> 'd radio \<Rightarrow> (error + string option) \<times> 'd radio" where
  "command_within l cmd wait = command_attempts l cmd wait BUSY_RETRIES"

definition command_reply :: "'d link \<Rightarrow> string \<Rightarrow> 'd radio \<Rightarrow> (error + string option) \<times> 'd radio" where
  "command_reply l cmd = command_within l cmd REPLY_WAIT"

definition parse_tn :: "string \<Rightarrow> (u8 \<times> u8) option" where
  "parse_tn s =
     (case strip_prefix ''TN '' s of
        None \<Rightarrow> None
      | Some rest \<Rightarrow>
          (case split_once CHR '','' rest of
             None \<Rightarrow> None
           | Some (mode, band) \<Rightarrow>
               (case parse_u8 (trim mode) of
                  None \<Rightarrow> None
                | Some m \<Rightarrow> map_option (Pair m) (parse_u8 (trim band)))))"

section \<open>The TH-D7x sequence\<close>

text \<open>The command to go into KISS mode on a band, and what undoes it on the way out.\<close>

definition tn_command :: "nat \<Rightarrow> u8 \<Rightarrow> string" where
  "tn_command mode band = ''TN '' @ show_nat mode @ '','' @ show_nat (unat band)"

definition exit_kiss_for :: "u8 option \<Rightarrow> u8 \<Rightarrow> bytes list" where
  "exit_kiss_for prev_mode band =
     KISS_RETURN # (if prev_mode = Some 1 then [as_bytes (tn_command 1 band @ [CHR 0x0D])] else [])"

definition radio_id_of :: "string \<Rightarrow> string" where
  "radio_id_of s = trim (case strip_prefix ''ID '' s of Some t \<Rightarrow> t | None \<Rightarrow> s)"

text \<open>The probe: whether the TNC was in KISS mode, which it then has left.\<close>

definition probe :: "'d link \<Rightarrow> 'd radio \<Rightarrow> (error + bool) \<times> 'd radio" where
  "probe l =
     and_then (command_reply l ''BT'')
       (\<lambda>x. if x \<noteq> None then (\<lambda>r. (Inr False, r))
            else and_then (send_raw l KISS_RETURN)
              (\<lambda>_ r. and_then (command_reply l ''BT'')
                 (\<lambda>x r. if x = None
                         then (Inl (Connect ''the TNC doesn't answer TH-D7x commands, in or out of KISS mode''), r)
                         else (Inr True, r))
                 (r\<lparr>r_stream := l_sleep l (r_stream r) AFTER_KISS_RETURN\<rparr>)))"

definition not_accepted :: "u8 \<Rightarrow> string option \<Rightarrow> error" where
  "not_accepted band other =
     Connect (''the TNC didn't accept KISS mode ('' @ tn_command 2 band @ ''): ''
       @ (case other of Some s \<Rightarrow> s | None \<Rightarrow> ''no reply''))"

definition wrong_interface :: error where
  "wrong_interface =
     Connect ''the radio took KISS mode, but not on this link: set Menu > Configuration > Interface > KISS (983) to this interface (Bluetooth or USB)''"

text \<open>From the accepted probe on: enter KISS mode on a band and check that the radio really did.\<close>

definition enter_kiss :: "'d link \<Rightarrow> u8 \<Rightarrow> 'd radio \<Rightarrow> (error + unit) \<times> 'd radio" where
  "enter_kiss l band =
     and_then (command_reply l (tn_command 2 band))
       (\<lambda>x. if (case x of Some s \<Rightarrow> starts_with ''TN'' s | None \<Rightarrow> False)
            then and_then (command_within l ''BT'' KISS_CHECK_WAIT)
              (\<lambda>y r. if y \<noteq> None then (Inl wrong_interface, r) else (Inr (), r))
            else (\<lambda>r. (Inl (not_accepted band x), r)))"

definition init_th_d7x :: "'d link \<Rightarrow> 'd \<Rightarrow> (error + init_outcome) \<times> 'd" where
  "init_th_d7x l d =
     (case and_then (probe l)
        (\<lambda>was_kiss. and_then (command_reply l ''ID'')
           (\<lambda>ident. and_then (command_reply l ''TN'')
              (\<lambda>tn. let mode_band = Option.bind tn parse_tn;
                        band = (case mode_band of Some (m, b) \<Rightarrow> b | None \<Rightarrow> 0);
                        prev_mode = (if was_kiss then Some 2 else map_option fst mode_band)
                    in and_then (enter_kiss l band)
                         (\<lambda>_ r. (Inr \<lparr>io_radio = map_option radio_id_of ident, io_frames = r_frames r,
                                      io_exit_kiss = exit_kiss_for prev_mode band\<rparr>, r)))))
        (new_radio d)
      of (res, r) \<Rightarrow> (res, r_stream r))"

text \<open>\<open>init\<close>; whether the sequence ends within \<open>INIT_TIMEOUT\<close> is up to the link.\<close>

definition init_timed_out :: error where
  "init_timed_out =
     Connect (''the TNC didn't finish KISS init in '' @ show_nat (INIT_TIMEOUT div 1000)
       @ ''s (not answering, or not taking data)'')"

definition init :: "'d link \<Rightarrow> bool \<Rightarrow> 'd \<Rightarrow> tnc_model \<Rightarrow> error + init_outcome" where
  "init l in_time d model =
     (case model of
        ThD7x \<Rightarrow> if in_time then fst (init_th_d7x l d) else Inl init_timed_out
      | _ \<Rightarrow> Inr \<lparr>io_radio = None, io_frames = [], io_exit_kiss = [KISS_RETURN]\<rparr>)"

section \<open>Frames handed back to the bridge\<close>

record prefixed =
  px_prefix :: bytes
  px_pos :: nat

definition new_prefixed :: "frame list \<Rightarrow> prefixed" where
  "new_prefixed frames = \<lparr>px_prefix = concat (map (\<lambda>f. FEND # f @ [FEND]) frames), px_pos = 0\<rparr>"

text \<open>A read of at most \<open>cap\<close> bytes; \<open>None\<close> when it goes to the link itself.\<close>

definition poll_prefix :: "prefixed \<Rightarrow> nat \<Rightarrow> bytes option \<times> prefixed" where
  "poll_prefix p cap =
     (if px_pos p < length (px_prefix p) then
        (let n = min (length (px_prefix p) - px_pos p) cap;
             out = take n (drop (px_pos p) (px_prefix p));
             pos = px_pos p + n
         in (Some out, if pos = length (px_prefix p) then \<lparr>px_prefix = [], px_pos = 0\<rparr> else p\<lparr>px_pos := pos\<rparr>))
      else (None, p))"

text \<open>What a reader with a buffer of \<open>cap\<close> bytes reads before the link's own reads.\<close>

function prefixed_reads :: "prefixed \<Rightarrow> nat \<Rightarrow> read_result list \<Rightarrow> read_result list" where
  "prefixed_reads p cap inner =
     (if cap = 0 then inner
      else case poll_prefix p cap of
             (None, p') \<Rightarrow> inner
           | (Some bs, p') \<Rightarrow> Got bs # prefixed_reads p' cap inner)"
  by pat_completeness auto
termination
  by (relation "measure (\<lambda>(p, cap, inner). length (px_prefix p) - px_pos p)")
     (auto simp: poll_prefix_def Let_def split: if_splits)

declare prefixed_reads.simps [simp del]

end
