(* ===== verification/Tnc_Init_Props.thy ===== *)
theory Tnc_Init_Props
  imports Tnc_Init
begin

text \<open>
  What KISS init guarantees: the scanner separates frames and replies however they are interleaved,
  the frames heard reach the bridge through the KISS reader, and, on the TH-D75 the tests of
  \<^verbatim>\<open>src/port/tnc_init.rs\<close> describe (\<open>fake::radio\<close>), the sequence ends in KISS mode on the band in use and
  is undone by \<open>exit_kiss\<close>.
\<close>

section \<open>The scanner\<close>

lemma push_bytes_simps [simp]:
  "push_bytes r [] = r" "push_bytes r (b # bs) = push_bytes (push_byte r b) bs"
  "push_bytes r (bs @ cs) = push_bytes (push_bytes r bs) cs"
  by (simp_all add: push_bytes_def)

lemma from_utf8_lossy_ascii: "\<forall>b \<in> set bs. b < 0x80 \<Longrightarrow> from_utf8_lossy bs = map byte_char bs"
proof (induction bs)
  case Nil
  then show ?case by (simp add: from_utf8_lossy.simps)
next
  case (Cons b bs)
  then have "utf8_head (b # bs) = (True, 1)" by (simp add: utf8_head_def byte_at_def)
  with Cons show ?case by (simp add: from_utf8_lossy.simps [of "b # bs"])
qed

text \<open>A line of text: not empty, no longer than the limit, no delimiter inside, starting as a reply does.\<close>

definition line_safe :: "bytes \<Rightarrow> bool" where
  "line_safe bs \<longleftrightarrow> bs \<noteq> [] \<and> length bs \<le> MAX_LINE \<and> 0x20 \<le> hd bs \<and> set bs \<inter> {FEND, 0x0D, 0x0A} = {}"

lemma push_text_bytes:
  assumes "r_state r = Text" and "length (r_line r) + length bs \<le> MAX_LINE" and "set bs \<inter> {FEND, 0x0D, 0x0A} = {}"
  shows "push_bytes r bs = r\<lparr>r_line := r_line r @ bs\<rparr>"
  using assms
proof (induction bs arbitrary: r)
  case (Cons b bs)
  then have "push_byte r b = r\<lparr>r_line := r_line r @ [b]\<rparr>" by (auto simp: push_byte_def)
  with Cons show ?case by simp
qed simp

lemma push_line:
  assumes "r_state r \<noteq> Frame" and "r_line r = []" and "line_safe bs"
  shows "push_bytes r (bs @ [0x0D]) = r\<lparr>r_state := Text, r_replies := r_replies r @ [trim (from_utf8_lossy bs)]\<rparr>"
proof -
  obtain b cs where bs: "bs = b # cs" using assms(3) by (cases bs) (auto simp: line_safe_def)
  have "push_byte r b = r\<lparr>r_state := Text, r_line := [b]\<rparr>"
    using assms bs by (auto simp: push_byte_def line_safe_def MAX_LINE_def not_le [symmetric])
  moreover have "push_bytes (r\<lparr>r_state := Text, r_line := [b]\<rparr>) cs = r\<lparr>r_state := Text, r_line := bs\<rparr>"
    using assms(3) bs push_text_bytes [of "r\<lparr>r_state := Text, r_line := [b]\<rparr>" cs]
    by (auto simp: line_safe_def)
  ultimately show ?thesis using bs assms(2) by (simp add: push_byte_def kiss_bytes)
qed

lemma push_frame_bytes:
  assumes "r_state r = Frame" and "length (r_frame r) + length bs \<le> MAX_FRAME" and "FEND \<notin> set bs"
  shows "push_bytes r bs = r\<lparr>r_frame := r_frame r @ bs\<rparr>"
  using assms
proof (induction bs arbitrary: r)
  case (Cons b bs)
  then have "push_byte r b = r\<lparr>r_frame := r_frame r @ [b]\<rparr>" by (auto simp: push_byte_def)
  with Cons show ?case by simp
qed simp

lemma push_frame:
  assumes "r_frame r = []" and "wire_safe MAX_FRAME f"
  shows "push_bytes r (write_frame f) = r\<lparr>r_frames := r_frames r @ [f], r_state := AfterFrame\<rparr>"
proof -
  have "push_byte r FEND = r\<lparr>r_frame := [], r_state := Frame\<rparr>" using assms(1) by (simp add: push_byte_def)
  moreover have "push_bytes (r\<lparr>r_frame := [], r_state := Frame\<rparr>) f = r\<lparr>r_frame := f, r_state := Frame\<rparr>"
    using assms(2) push_frame_bytes [of "r\<lparr>r_frame := [], r_state := Frame\<rparr>" f] by (simp add: wire_safe_def)
  moreover have "r\<lparr>r_frame := []\<rparr> = r" using assms(1) by (cases r) simp
  ultimately show ?thesis
    using assms(2) by (simp add: write_frame_def push_byte_def wire_safe_def) (cases r; simp)
qed

text \<open>What a radio sends: frames and lines in any order.\<close>

datatype item = Heard frame | Line bytes

fun item_wire :: "item \<Rightarrow> bytes" where
  "item_wire (Heard f) = write_frame f"
| "item_wire (Line bs) = bs @ [0x0D]"

fun item_safe :: "item \<Rightarrow> bool" where
  "item_safe (Heard f) = wire_safe MAX_FRAME f"
| "item_safe (Line bs) = line_safe bs"

fun item_frame :: "item \<Rightarrow> frame option" where
  "item_frame (Heard f) = Some f"
| "item_frame (Line bs) = None"

fun item_reply :: "item \<Rightarrow> string option" where
  "item_reply (Heard f) = None"
| "item_reply (Line bs) = Some (trim (from_utf8_lossy bs))"

lemma push_items:
  assumes "\<forall>i \<in> set items. item_safe i" and "r_state r \<noteq> Frame" and "r_line r = []" and "r_frame r = []"
  shows "\<exists>st. push_bytes r (concat (map item_wire items)) =
      r\<lparr>r_state := st, r_frames := r_frames r @ List.map_filter item_frame items,
        r_replies := r_replies r @ List.map_filter item_reply items\<rparr> \<and> st \<noteq> Frame"
  using assms
proof (induction items arbitrary: r)
  case Nil
  then show ?case by (intro exI [of _ "r_state r"]) (simp add: map_filter_simps)
next
  case (Cons i items)
  show ?case
  proof (cases i)
    case (Heard f)
    with Cons.prems push_frame [of r f]
      Cons.IH [of "r\<lparr>r_frames := r_frames r @ [f], r_state := AfterFrame\<rparr>"]
    show ?thesis by (simp add: map_filter_simps)
  next
    case (Line bs)
    with Cons.prems push_line [of r bs]
      Cons.IH [of "r\<lparr>r_state := Text, r_replies := r_replies r @ [trim (from_utf8_lossy bs)]\<rparr>"]
    show ?thesis by (simp add: map_filter_simps)
  qed
qed

text \<open>C27: the scanner takes apart what a radio sends during init, frames and replies in any order and cut
  into reads in any way: every frame is kept, complete and in order, and every line becomes a reply,
  in order, with no byte of one showing up in the other.\<close>

theorem scan_separates:
  assumes "\<forall>i \<in> set items. item_safe i" and "concat cs = concat (map item_wire items)"
  shows "r_frames (foldl push_bytes (new_radio d) cs) = List.map_filter item_frame items
    \<and> r_replies (foldl push_bytes (new_radio d) cs) = List.map_filter item_reply items"
proof -
  have "foldl push_bytes r cs = push_bytes r (concat cs)" for r :: "'a radio"
    by (induction cs arbitrary: r) simp_all
  with push_items [OF assms(1), of "new_radio d"] assms(2) show ?thesis by (auto simp: new_radio_def)
qed

theorem scan_separates_witness:
  "r_frames (foldl push_bytes (new_radio ()) [[FEND, 0, 0x41], [FEND, 0x42, 0x54], [0x0D, FEND, 0x10, FEND]]) = [[0, 0x41], [0x10]]"
proof -
  have "r_frames (foldl push_bytes (new_radio ()) [[FEND, 0, 0x41], [FEND, 0x42, 0x54], [0x0D, FEND, 0x10, FEND]])
      = List.map_filter item_frame [Heard [0, 0x41], Line [0x42, 0x54], Heard [0x10]]"
    by (rule scan_separates [THEN conjunct1])
       (simp_all add: wire_safe_def line_safe_def kiss_bytes MAX_FRAME_def MAX_LINE_def write_frame_def)
  then show ?thesis by (simp add: map_filter_simps)
qed

section \<open>Frames kept for the bridge\<close>

text \<open>What holds of the scanner at every moment; the link it reads from does not matter.\<close>

definition radio_ok :: "'d radio \<Rightarrow> bool" where
  "radio_ok r \<longleftrightarrow> (\<forall>f \<in> set (r_frames r). wire_safe MAX_FRAME f) \<and> FEND \<notin> set (r_frame r)
     \<and> length (r_frame r) \<le> MAX_FRAME \<and> length (r_line r) \<le> MAX_LINE \<and> (r_state r \<noteq> Frame \<longrightarrow> r_frame r = [])"

definition keeps :: "('s \<Rightarrow> bool) \<Rightarrow> ('s \<Rightarrow> 'x \<times> 's) \<Rightarrow> bool" where
  "keeps P m \<longleftrightarrow> (\<forall>s. P s \<longrightarrow> P (snd (m s)))"

lemma keepsI: "(\<And>s. P s \<Longrightarrow> P (snd (m s))) \<Longrightarrow> keeps P m"
  by (simp add: keeps_def)

lemma keeps_and_then: "keeps P m \<Longrightarrow> (\<And>a. keeps P (f a)) \<Longrightarrow> keeps P (and_then m f)"
  by (fastforce simp: keeps_def and_then_def split: prod.splits sum.splits)

definition produces :: "('s \<Rightarrow> bool) \<Rightarrow> ('a \<Rightarrow> bool) \<Rightarrow> ('s \<Rightarrow> (error + 'a) \<times> 's) \<Rightarrow> bool" where
  "produces P Q m \<longleftrightarrow> (\<forall>s a. P s \<longrightarrow> fst (m s) = Inr a \<longrightarrow> Q a)"

lemma produces_and_then: "keeps P m \<Longrightarrow> (\<And>a. produces P Q (f a)) \<Longrightarrow> produces P Q (and_then m f)"
  by (fastforce simp: produces_def keeps_def and_then_def split: prod.splits sum.splits)

lemma radio_ok_stream [simp]: "radio_ok (r\<lparr>r_stream := d\<rparr>) \<longleftrightarrow> radio_ok r"
  by (simp add: radio_ok_def)

lemma radio_ok_replies [simp]: "radio_ok (r\<lparr>r_replies := xs\<rparr>) \<longleftrightarrow> radio_ok r"
  by (simp add: radio_ok_def)

lemma radio_ok_push_byte: "radio_ok r \<Longrightarrow> radio_ok (push_byte r b)"
  by (auto simp: radio_ok_def push_byte_def wire_safe_def MAX_FRAME_def)

lemma radio_ok_push: "radio_ok r \<Longrightarrow> radio_ok (push_bytes r bs)"
  by (induction bs arbitrary: r) (simp_all add: radio_ok_push_byte)

lemma keeps_send_raw: "keeps radio_ok (send_raw l bs)"
  by (auto simp: keeps_def send_raw_def split: prod.splits option.splits)

lemma radio_ok_reply_loop: "radio_ok r \<Longrightarrow> radio_ok (snd (reply_loop l n r))"
proof (induction l n r rule: reply_loop.induct)
  case (1 l n r)
  then show ?case
    by (subst reply_loop.simps) (auto simp: radio_ok_push split: list.splits nat.splits prod.splits read_event.splits)
qed

lemma keeps_reply: "keeps radio_ok (reply l wait)"
  by (simp add: keeps_def reply_def radio_ok_reply_loop)

lemma keeps_command_attempts: "keeps radio_ok (command_attempts l cmd wait n)"
proof (induction n)
  case 0
  have "keeps radio_ok (and_then (send_raw l (as_bytes (cmd @ [CHR 0x0D]))) (\<lambda>_. reply l wait))"
    by (intro keeps_and_then keeps_send_raw keeps_reply)
  then show ?case by (simp add: keeps_def)
next
  case (Suc n)
  have "keeps radio_ok (and_then (send_raw l (as_bytes (cmd @ [CHR 0x0D])))
       (\<lambda>_. and_then (reply l wait)
          (\<lambda>x r. if x = Some ''?''
                  then command_attempts l cmd wait n (r\<lparr>r_stream := l_sleep l (r_stream r) BUSY_GAP\<rparr>)
                  else (Inr x, r))))"
    using Suc by (intro keeps_and_then keeps_send_raw keeps_reply) (simp add: keeps_def)
  then show ?case by (simp add: keeps_def)
qed

lemma keeps_command: "keeps radio_ok (command_within l cmd wait)" "keeps radio_ok (command_reply l cmd)"
  by (simp_all add: command_reply_def command_within_def keeps_command_attempts)

lemma keeps_sleep: "keeps radio_ok m \<Longrightarrow> keeps radio_ok (\<lambda>r. m (r\<lparr>r_stream := g r\<rparr>))"
  by (simp add: keeps_def)

lemma keeps_if: "(c \<Longrightarrow> keeps P m) \<Longrightarrow> (\<not> c \<Longrightarrow> keeps P m') \<Longrightarrow> keeps P (if c then m else m')"
  by simp

lemma keeps_result: "keeps P (\<lambda>r. (h r, r))" "keeps P (\<lambda>r. if c then (h r, r) else (h' r, r))"
  by (simp_all add: keeps_def)

lemma keeps_probe: "keeps radio_ok (probe l)"
  unfolding probe_def
  by (intro keeps_and_then keeps_if keeps_command keeps_result keeps_send_raw keeps_sleep)

lemma keeps_enter_kiss: "keeps radio_ok (enter_kiss l band)"
  unfolding enter_kiss_def
  by (intro keeps_and_then keeps_if keeps_command keeps_result)

lemma init_th_d7x_frames:
  assumes "fst (init_th_d7x l d) = Inr out"
  shows "\<forall>f \<in> set (io_frames out). wire_safe MAX_FRAME f"
proof -
  let ?Q = "\<lambda>out. \<forall>f \<in> set (io_frames out). wire_safe MAX_FRAME f"
  let ?fin = "\<lambda>was_kiss ident tn. let mode_band = Option.bind tn parse_tn;
        band = (case mode_band of Some (m, b) \<Rightarrow> b | None \<Rightarrow> 0);
        prev_mode = (if was_kiss then Some 2 else map_option fst mode_band)
    in and_then (enter_kiss l band)
         (\<lambda>_ r. (Inr \<lparr>io_radio = map_option radio_id_of ident, io_frames = r_frames r,
                      io_exit_kiss = exit_kiss_for prev_mode band\<rparr>, r))"
  have "produces radio_ok ?Q (?fin was_kiss ident tn)" for was_kiss ident tn
    unfolding Let_def by (intro produces_and_then keeps_enter_kiss) (auto simp: produces_def radio_ok_def)
  then have "produces radio_ok ?Q (and_then (probe l)
      (\<lambda>was_kiss. and_then (command_reply l ''ID'') (\<lambda>ident. and_then (command_reply l ''TN'') (?fin was_kiss ident))))"
    by (intro produces_and_then keeps_probe keeps_command)
  moreover have "radio_ok (new_radio d)" by (simp add: radio_ok_def new_radio_def)
  ultimately show ?thesis
    using assms by (auto simp: init_th_d7x_def produces_def split: prod.splits)
qed

text \<open>Reading a prefixed link: the prefix first, in full buffers, then the link.\<close>

lemma prefixed_reads_bytes:
  "0 < cap \<Longrightarrow> \<exists>cs. prefixed_reads p cap inner = map Got cs @ inner
     \<and> concat cs = drop (px_pos p) (px_prefix p) \<and> (\<forall>c \<in> set cs. c \<noteq> [] \<and> length c \<le> cap)"
proof (induction p cap inner rule: prefixed_reads.induct)
  case (1 p cap inner)
  show ?case
  proof (cases "px_pos p < length (px_prefix p)")
    case False
    then show ?thesis
      by (intro exI [of _ "[]"]) (simp add: prefixed_reads.simps [of p] poll_prefix_def)
  next
    case True
    define n where "n = min (length (px_prefix p) - px_pos p) cap"
    define p' where "p' = snd (poll_prefix p cap)"
    define out where "out = take n (drop (px_pos p) (px_prefix p))"
    have poll: "poll_prefix p cap = (Some out, p')"
      using True by (simp add: poll_prefix_def p'_def n_def out_def Let_def)
    have rest: "drop (px_pos p') (px_prefix p') = drop (px_pos p + n) (px_prefix p)"
      using True by (auto simp: p'_def poll_prefix_def n_def Let_def)
    from "1.IH" [OF _ poll [symmetric] refl] "1.prems" obtain cs where cs:
      "prefixed_reads p' cap inner = map Got cs @ inner" "concat cs = drop (px_pos p') (px_prefix p')"
      "\<forall>c \<in> set cs. c \<noteq> [] \<and> length c \<le> cap" by auto
    have "out \<noteq> []" "length out \<le> cap" using True "1.prems" by (auto simp: out_def n_def)
    moreover have "out @ drop (px_pos p + n) (px_prefix p) = drop (px_pos p) (px_prefix p)"
      unfolding out_def by (metis add.commute append_take_drop_id drop_drop)
    ultimately show ?thesis
      using cs rest poll "1.prems" by (intro exI [of _ "out # cs"]) (simp add: prefixed_reads.simps [of p])
  qed
qed


section \<open>A TH-D75\<close>

text \<open>\<open>RadioState\<close>, with the local variables of \<open>fake::radio\<close>: what it heard and has not sent, the text
  and the KISS bytes received, what it sent and nobody has read, and whether its task has ended
  (it panics on a malformed \<open>TN\<close>).\<close>

record radio_state =
  rs_mode :: u8
  rs_band :: u8
  rs_log :: "string list"
  rs_kiss_elsewhere :: bool
  rs_heard :: "frame option"
  rs_line :: bytes
  rs_kiss :: bytes
  rs_out :: bytes
  rs_ended :: bool

definition ends_with :: "bytes \<Rightarrow> bytes \<Rightarrow> bool" where
  "ends_with xs ys \<longleftrightarrow> drop (length xs - length ys) xs = ys"

definition send_heard :: "radio_state \<Rightarrow> radio_state" where
  "send_heard s =
     (case rs_heard s of
        None \<Rightarrow> s
      | Some f \<Rightarrow> s\<lparr>rs_heard := None, rs_out := rs_out s @ FEND # f @ [FEND]\<rparr>)"

definition answer :: "radio_state \<Rightarrow> string \<Rightarrow> radio_state" where
  "answer s cmd =
     (let say = (\<lambda>s t. s\<lparr>rs_out := rs_out s @ as_bytes t @ [0x0D]\<rparr>) in
      if cmd = ''BT'' then say s ''BT 1''
      else if cmd = ''ID'' then say s ''ID TH-D75''
      else if cmd = ''TN'' then say s (tn_command (unat (rs_mode s)) (rs_band s))
      else if starts_with ''TN '' cmd then
        (case split_once CHR '','' (drop 3 cmd) of
           None \<Rightarrow> s\<lparr>rs_ended := True\<rparr>
         | Some (m, bd) \<Rightarrow>
             (case (parse_u8 m, parse_u8 bd) of
                (Some m, Some bd) \<Rightarrow> say (s\<lparr>rs_mode := m, rs_band := bd\<rparr>) cmd
              | _ \<Rightarrow> s\<lparr>rs_ended := True\<rparr>))
      else say s ''?'')"

definition radio_byte :: "radio_state \<Rightarrow> u8 \<Rightarrow> radio_state" where
  "radio_byte s b =
     (if rs_ended s then s
      else if rs_mode s = 2 \<and> \<not> rs_kiss_elsewhere s then
        (let kiss = rs_kiss s @ [b] in
         if ends_with kiss [FEND, 0xFF, FEND] then
           s\<lparr>rs_mode := 0, rs_log := rs_log s @ [''KISS return''], rs_kiss := []\<rparr>
         else if b = 0x0D \<and> ends_with kiss (as_bytes ''BT'' @ [0x0D]) then
           send_heard (s\<lparr>rs_log := rs_log s @ [''BT ignored''], rs_kiss := []\<rparr>)
         else if b = 0x0D then send_heard (s\<lparr>rs_kiss := kiss\<rparr>)
         else s\<lparr>rs_kiss := kiss\<rparr>)
      else if b = FEND then s
      else if b \<noteq> 0x0D then s\<lparr>rs_line := rs_line s @ [b]\<rparr>
      else (let cmd = from_utf8_lossy (rs_line s) in answer (s\<lparr>rs_line := [], rs_log := rs_log s @ [cmd]\<rparr>) cmd))"

text \<open>The radio on the other end of the link: everything it sends is there at once, and it answers
  nothing to a wait.\<close>

definition radio_link :: "radio_state link" where
  "radio_link =
     \<lparr>l_write = (\<lambda>s bs. if rs_ended s then (Some ''broken pipe'', s) else (None, foldl radio_byte s bs)),
      l_read = (\<lambda>s cap. if rs_out s \<noteq> [] then (Arrived (take cap (rs_out s)), s\<lparr>rs_out := drop cap (rs_out s)\<rparr>)
                        else if rs_ended s then (Arrived [], s) else (Deadline, s)),
      l_reads_within = (\<lambda>s w. Suc (length (rs_out s))),
      l_sleep = (\<lambda>s w. s)\<rparr>"

definition radio_in :: "u8 \<Rightarrow> u8 \<Rightarrow> bool \<Rightarrow> frame option \<Rightarrow> radio_state" where
  "radio_in mode band elsewhere heard =
     \<lparr>rs_mode = mode, rs_band = band, rs_log = [], rs_kiss_elsewhere = elsewhere, rs_heard = heard,
      rs_line = [], rs_kiss = [], rs_out = [], rs_ended = False\<rparr>"

text \<open>In command mode the radio collects a line and answers it.\<close>

definition takes_commands :: "radio_state \<Rightarrow> bool" where
  "takes_commands s \<longleftrightarrow> \<not> rs_ended s \<and> (rs_mode s = 2 \<longrightarrow> rs_kiss_elsewhere s) \<and> rs_line s = [] \<and> rs_out s = []"

definition command_text :: "string \<Rightarrow> bool" where
  "command_text t \<longleftrightarrow> (\<forall>c \<in> set t. code c < 0x80 \<and> code c \<noteq> 0x0D)"

lemma radio_collects:
  assumes "\<not> rs_ended s" and "rs_mode s = 2 \<longrightarrow> rs_kiss_elsewhere s" and "FEND \<notin> set bs" and "0x0D \<notin> set bs"
  shows "foldl radio_byte s bs = s\<lparr>rs_line := rs_line s @ bs\<rparr>"
  using assms
proof (induction bs arbitrary: s)
  case (Cons b bs)
  then have "radio_byte s b = s\<lparr>rs_line := rs_line s @ [b]\<rparr>" by (auto simp: radio_byte_def)
  with Cons show ?case by simp
qed simp

lemma command_text_bytes:
  assumes "command_text t"
  shows "FEND \<notin> set (as_bytes t)" "0x0D \<notin> set (as_bytes t)" "\<forall>b \<in> set (as_bytes t). b < 0x80"
proof -
  have u: "unat (of_nat (code c) :: u8) = code c" for c
    using code_byte_char [of "of_nat (code c)"] by simp
  show "\<forall>b \<in> set (as_bytes t). b < 0x80"
    using assms u by (auto simp: as_bytes_def command_text_def word_less_nat_alt)
  then show "FEND \<notin> set (as_bytes t)" by (force simp: kiss_bytes)
  show "0x0D \<notin> set (as_bytes t)"
  proof
    assume "0x0D \<in> set (as_bytes t)"
    then obtain c where "c \<in> set t" "(of_nat (code c) :: u8) = 0x0D" by (auto simp: as_bytes_def)
    with assms u [of c] show False by (auto simp: command_text_def)
  qed
qed

lemma radio_answers:
  assumes "takes_commands s" and "command_text t"
  shows "foldl radio_byte s (as_bytes t @ [0x0D]) = answer (s\<lparr>rs_log := rs_log s @ [t]\<rparr>) t"
proof -
  have "foldl radio_byte s (as_bytes t) = s\<lparr>rs_line := as_bytes t\<rparr>"
    using assms radio_collects [of s "as_bytes t"] command_text_bytes [of t] by (simp add: takes_commands_def)
  moreover have "from_utf8_lossy (as_bytes t) = t"
    using assms command_text_bytes [of t] by (simp add: from_utf8_lossy_ascii)
  ultimately have "foldl radio_byte s (as_bytes t @ [0x0D]) = answer (s\<lparr>rs_line := [], rs_log := rs_log s @ [t]\<rparr>) t"
    using assms by (auto simp: radio_byte_def takes_commands_def kiss_bytes Let_def)
  also have "s\<lparr>rs_line := [], rs_log := rs_log s @ [t]\<rparr> = s\<lparr>rs_log := rs_log s @ [t]\<rparr>"
    using assms by (cases s) (simp add: takes_commands_def)
  finally show ?thesis .
qed

lemma push_stream [simp]: "push_bytes (r\<lparr>r_stream := d\<rparr>) bs = (push_bytes r bs)\<lparr>r_stream := d\<rparr>"
proof (induction bs arbitrary: r)
  case (Cons b bs)
  have "push_byte (r\<lparr>r_stream := d\<rparr>) b = (push_byte r b)\<lparr>r_stream := d\<rparr>" by (simp add: push_byte_def)
  with Cons show ?case by simp
qed simp

lemma r_stream_push [simp]: "r_stream (push_bytes r bs) = r_stream r"
proof (induction bs arbitrary: r)
  case (Cons b bs)
  have "r_stream (push_byte r b) = r_stream r" by (simp add: push_byte_def)
  with Cons show ?case by simp
qed simp

lemma replies_prefix: "r_replies (push_bytes r (bs @ cs)) = [] \<Longrightarrow> r_replies (push_bytes r bs) = []"
proof (induction cs rule: rev_induct)
  case (snoc c cs)
  have "r_replies (push_byte q c) = [] \<Longrightarrow> r_replies q = []" for q :: "'a radio"
    by (auto simp: push_byte_def split: if_splits)
  with snoc show ?case by (simp flip: append_assoc)
qed simp

text \<open>Waiting for a reply while the radio sends none takes everything it has sent.\<close>

lemma reply_loop_silent:
  assumes "\<not> rs_ended (r_stream r)" and "r_replies (push_bytes r (rs_out (r_stream r))) = []"
    and "length (rs_out (r_stream r)) < n"
  shows "reply_loop radio_link n r =
     (Inr None, (push_bytes r (rs_out (r_stream r)))\<lparr>r_stream := (r_stream r)\<lparr>rs_out := []\<rparr>\<rparr>)"
  using assms
proof (induction n arbitrary: r)
  case (Suc n)
  define s where "s = r_stream r"
  have none: "r_replies r = []" using replies_prefix [of r "[]" "rs_out s"] Suc.prems by (simp add: s_def)
  show ?case
  proof (cases "rs_out s = []")
    case True
    then have "s\<lparr>rs_out := []\<rparr> = s" by (cases s) simp
    moreover have "r\<lparr>r_stream := s\<rparr> = r" by (simp add: s_def)
    ultimately show ?thesis
      using True Suc.prems none by (simp add: reply_loop.simps radio_link_def s_def)
  next
    case False
    define q where "q = push_bytes (r\<lparr>r_stream := s\<lparr>rs_out := drop REPLY_BUF (rs_out s)\<rparr>\<rparr>) (take REPLY_BUF (rs_out s))"
    have step: "reply_loop radio_link (Suc n) r = reply_loop radio_link n q"
      using False Suc.prems none
      by (simp add: reply_loop.simps [of _ "Suc n"] radio_link_def s_def q_def REPLY_BUF_def)
    have q: "r_stream q = s\<lparr>rs_out := drop REPLY_BUF (rs_out s)\<rparr>"
      "push_bytes q (drop REPLY_BUF (rs_out s)) = (push_bytes r (rs_out s))\<lparr>r_stream := s\<lparr>rs_out := drop REPLY_BUF (rs_out s)\<rparr>\<rparr>"
      by (simp_all add: q_def flip: push_bytes_simps(3))
    have "length (drop REPLY_BUF (rs_out s)) < n" using Suc.prems(3) False by (cases "rs_out s") (auto simp: s_def REPLY_BUF_def)
    then have "reply_loop radio_link n q =
       (Inr None, (push_bytes r (rs_out s))\<lparr>r_stream := s\<lparr>rs_out := []\<rparr>\<rparr>)"
      using Suc.IH [of q] Suc.prems q by (simp add: s_def)
    with step show ?thesis by (simp add: s_def)
  qed
qed simp

section \<open>Texts exchanged with the radio\<close>

lemma white_codes_last:
  "33 \<le> x \<Longrightarrow> x < 128 \<Longrightarrow> white_codes [x] \<noteq> 1" "33 \<le> x \<Longrightarrow> x < 128 \<Longrightarrow> white_codes [a, x] \<noteq> 2"
  "33 \<le> x \<Longrightarrow> x < 128 \<Longrightarrow> white_codes [a, b, x] \<noteq> 3"
  by (simp_all add: white_codes_def)

lemma white_suffix_ascii:
  assumes "33 \<le> code d" and "code d < 128"
  shows "white_suffix (ds @ [d]) = 0"
proof -
  have 2: "\<exists>a. drop (Suc (length ds) - 2) (ds @ [d]) = [a, d]" if "2 \<le> Suc (length ds)"
    using that by (cases ds rule: rev_cases) auto
  have 3: "\<exists>a b. drop (Suc (length ds) - 3) (ds @ [d]) = [a, b, d]" if "3 \<le> Suc (length ds)"
  proof -
    have "ds \<noteq> []" using that by auto
    then obtain es b where es: "ds = es @ [b]" by (cases ds rule: rev_cases) auto
    moreover have "es \<noteq> []" using that es by auto
    then obtain fs a where "es = fs @ [a]" by (cases es rule: rev_cases) auto
    ultimately show ?thesis by simp
  qed
  show ?thesis
    using 2 3 white_codes_last [OF assms] by (auto simp: white_suffix_def Let_def)
qed

lemma trim_ascii:
  assumes "t \<noteq> []" and "33 \<le> code (hd t) \<and> code (hd t) < 128" and "33 \<le> code (last t) \<and> code (last t) < 128"
  shows "trim t = t"
proof -
  have "white_prefix t = 0"
    using assms(1,2) by (cases t) (auto simp: white_prefix_def white_codes_def split: list.splits)
  moreover have "white_suffix t = 0" using assms(1,3) by (cases t rule: rev_cases) (auto simp: white_suffix_ascii)
  ultimately show ?thesis by (simp add: trim_def trim_start.simps [of t] trim_end.simps [of t])
qed

lemma digit_code: "is_ascii_digit c \<Longrightarrow> 33 \<le> code c \<and> code c < 128 \<and> code c \<noteq> 0x0D \<and> c \<noteq> CHR '',''"
  by (auto simp: is_ascii_digit_def code_def)

lemma show_nat_digits: "c \<in> set (show_nat n) \<Longrightarrow> is_ascii_digit c"
  by (simp add: show_nat_def decimal_digits_all)

lemma length_show_byte: "length (show_nat (unat (b :: u8))) \<le> 3"
proof -
  have "unat b < 256" by (rule order_less_le_trans [OF unsigned_less]) simp
  then show ?thesis by (auto simp: show_nat_def decimal_digits.simps [of "unat b"] decimal_digits.simps [of "unat b div 10"]
      decimal_digits.simps [of "unat b div 10 div 10"])
qed

lemma trim_show_nat [simp]: "trim (show_nat n) = show_nat n"
proof (rule trim_ascii)
  show "33 \<le> code (hd (show_nat n)) \<and> code (hd (show_nat n)) < 128"
    using digit_code [OF show_nat_digits [of "hd (show_nat n)" n]] by simp
  show "33 \<le> code (last (show_nat n)) \<and> code (last (show_nat n)) < 128"
    using digit_code [OF show_nat_digits [of "last (show_nat n)" n]] by simp
qed simp

lemma parse_u8_show [simp]: "parse_u8 (show_nat (unat b)) = Some b"
proof -
  have "unat b < 2 ^ 8" by (rule order_less_le_trans [OF unsigned_less]) simp
  then show ?thesis by (simp add: parse_u8_def parse_unsigned_show)
qed

lemma split_once_show [simp]: "split_once CHR '','' (show_nat n @ CHR '','' # xs) = Some (show_nat n, xs)"
proof -
  have "\<forall>c \<in> set (show_nat n). c \<noteq> CHR '',''" using digit_code [OF show_nat_digits] by auto
  then show ?thesis by (simp add: split_once_def dropWhile_append3 takeWhile_append2 dropWhile_append2)
qed

lemma parse_tn_command: "parse_tn (tn_command (unat m) b) = Some (m, b)"
  by (simp add: parse_tn_def tn_command_def strip_prefix_def starts_with_def)

lemma command_text_tn: "command_text (tn_command n b)"
  using digit_code [OF show_nat_digits] by (auto simp: command_text_def tn_command_def code_def)

lemma line_safe_text:
  assumes "command_text t" and "t \<noteq> []" and "length t \<le> MAX_LINE" and "\<forall>c \<in> set t. 0x20 \<le> code c"
  shows "line_safe (as_bytes t)"
proof -
  have u: "unat (of_nat (code c) :: u8) = code c" for c
    using code_byte_char [of "of_nat (code c)"] by simp
  have "0x0A \<notin> set (as_bytes t)"
  proof
    assume "0x0A \<in> set (as_bytes t)"
    then obtain c where "c \<in> set t" "(of_nat (code c) :: u8) = 0x0A" by (auto simp: as_bytes_def)
    with assms(4) u [of c] show False by auto
  qed
  moreover have "0x20 \<le> hd (as_bytes t)"
    using assms(2,4) u by (cases t) (auto simp: word_le_nat_alt)
  ultimately show ?thesis
    using assms command_text_bytes [OF assms(1)] by (simp add: line_safe_def)
qed

lemma line_safe_tn: "line_safe (as_bytes (tn_command (unat (m :: u8)) b))"
proof (rule line_safe_text)
  show "length (tn_command (unat m) b) \<le> MAX_LINE"
    using length_show_byte [of m] length_show_byte [of b] by (simp add: tn_command_def MAX_LINE_def)
  show "\<forall>c \<in> set (tn_command (unat m) b). 0x20 \<le> code c"
    using digit_code [OF show_nat_digits] by (force simp: tn_command_def code_def)
qed (simp_all add: command_text_tn, simp add: tn_command_def)

lemma trim_tn [simp]: "trim (tn_command n b) = tn_command n b"
proof (rule trim_ascii)
  have "last (tn_command n b) \<in> set (show_nat (unat b))" by (simp add: tn_command_def)
  then show "33 \<le> code (last (tn_command n b)) \<and> code (last (tn_command n b)) < 128"
    using digit_code [OF show_nat_digits] by blast
qed (simp_all add: tn_command_def code_def)

section \<open>Exchanges with the radio\<close>

lemma command_within_attempt:
  "command_within l cmd w r =
     and_then (send_raw l (as_bytes (cmd @ [CHR 0x0D])))
       (\<lambda>_. and_then (reply l w)
          (\<lambda>x r. if x = Some ''?''
                  then command_attempts l cmd w (Suc (Suc 0)) (r\<lparr>r_stream := l_sleep l (r_stream r) BUSY_GAP\<rparr>)
                  else (Inr x, r)))
       (r\<lparr>r_replies := []\<rparr>)"
  by (simp add: command_within_def BUSY_RETRIES_def numeral_3_eq_3)

lemma command_answered:
  assumes "r_state r \<noteq> Frame" and "r_line r = []" and "takes_commands (r_stream r)" and "command_text cmd"
    and s': "s' = answer ((r_stream r)\<lparr>rs_log := rs_log (r_stream r) @ [cmd]\<rparr>) cmd"
    and out: "rs_out s' = as_bytes t @ [0x0D]"
    and t: "command_text t" "line_safe (as_bytes t)" "trim t = t" "t \<noteq> ''?''"
  shows "command_within radio_link cmd w r =
    (Inr (Some t), r\<lparr>r_stream := s'\<lparr>rs_out := []\<rparr>, r_state := Text, r_replies := []\<rparr>)"
proof -
  let ?r = "r\<lparr>r_replies := [], r_stream := s'\<rparr>"
  have "send_raw radio_link (as_bytes (cmd @ [CHR 0x0D])) (r\<lparr>r_replies := []\<rparr>) = (Inr (), ?r)"
    using assms(3) radio_answers [OF assms(3,4)] s'
    by (simp add: send_raw_def radio_link_def takes_commands_def code_def)
  moreover have "reply radio_link w ?r = (Inr (Some t), r\<lparr>r_stream := s'\<lparr>rs_out := []\<rparr>, r_state := Text, r_replies := []\<rparr>)"
  proof -
    have len: "length (rs_out s') \<le> REPLY_BUF" using t(2) out by (simp add: line_safe_def MAX_LINE_def REPLY_BUF_def)
    then have "reply radio_link w ?r =
        reply_loop radio_link (length (rs_out s')) (push_bytes (?r\<lparr>r_stream := s'\<lparr>rs_out := []\<rparr>\<rparr>) (rs_out s'))"
      using out by (simp add: reply_def radio_link_def reply_loop.simps [of _ "Suc n" for n])
    moreover have "push_bytes (?r\<lparr>r_stream := s'\<lparr>rs_out := []\<rparr>\<rparr>) (rs_out s') =
        ?r\<lparr>r_stream := s'\<lparr>rs_out := []\<rparr>, r_state := Text, r_replies := [t]\<rparr>"
      using out push_line [of "?r\<lparr>r_stream := s'\<lparr>rs_out := []\<rparr>\<rparr>" "as_bytes t"] assms(1,2) t
      by (simp add: from_utf8_lossy_ascii command_text_bytes del: push_stream push_bytes_simps(3))
    moreover have "reply_loop radio_link n (q\<lparr>r_replies := [t]\<rparr>) = (Inr (Some t), q\<lparr>r_replies := []\<rparr>)" for n q
      by (simp add: reply_loop.simps)
    ultimately show ?thesis by simp
  qed
  ultimately show ?thesis using t(4) by (simp add: command_within_attempt and_then_def)
qed

text \<open>In KISS mode the radio ignores the probe, and sends what it has heard.\<close>

definition in_kiss :: "radio_state \<Rightarrow> bool" where
  "in_kiss s \<longleftrightarrow> \<not> rs_ended s \<and> rs_mode s = 2 \<and> \<not> rs_kiss_elsewhere s \<and> rs_kiss s = [] \<and> rs_out s = []"

definition heard_list :: "frame option \<Rightarrow> frame list" where
  "heard_list h = (case h of None \<Rightarrow> [] | Some f \<Rightarrow> [f])"

lemma radio_ignores:
  assumes "in_kiss s"
  shows "foldl radio_byte s (as_bytes ''BT'' @ [0x0D]) =
    s\<lparr>rs_log := rs_log s @ [''BT ignored''], rs_heard := None, rs_out := concat (map write_frame (heard_list (rs_heard s)))\<rparr>"
  using assms
  by (cases s; cases "rs_heard s")
     (simp_all add: in_kiss_def radio_byte_def ends_with_def kiss_bytes code_def Let_def send_heard_def heard_list_def write_frame_def)

lemma radio_leaves_kiss:
  "in_kiss s \<Longrightarrow> foldl radio_byte s KISS_RETURN = s\<lparr>rs_mode := 0, rs_log := rs_log s @ [''KISS return'']\<rparr>"
  by (cases s) (simp add: in_kiss_def radio_byte_def ends_with_def KISS_RETURN_def kiss_bytes Let_def)

lemma push_heard:
  assumes "\<forall>f \<in> set fs. wire_safe MAX_FRAME f" and "r_frame r = []" and "length fs \<le> 1"
  shows "push_bytes r (concat (map write_frame fs)) =
    r\<lparr>r_frames := r_frames r @ fs, r_state := (if fs = [] then r_state r else AfterFrame)\<rparr>"
  using assms push_frame [of r "hd fs"] by (cases fs) auto

lemma command_ignored:
  assumes "in_kiss (r_stream r)" and "r_frame r = []" and "\<forall>f \<in> set (heard_list (rs_heard (r_stream r))). wire_safe MAX_FRAME f"
  shows "command_within radio_link ''BT'' w r =
    (Inr None,
     r\<lparr>r_stream := (r_stream r)\<lparr>rs_log := rs_log (r_stream r) @ [''BT ignored''], rs_heard := None\<rparr>,
       r_state := (if rs_heard (r_stream r) = None then r_state r else AfterFrame),
       r_replies := [], r_frames := r_frames r @ heard_list (rs_heard (r_stream r))\<rparr>)"
proof -
  define s where "s = r_stream r"
  define out where "out = concat (map write_frame (heard_list (rs_heard s)))"
  define s' where "s' = s\<lparr>rs_log := rs_log s @ [''BT ignored''], rs_heard := None, rs_out := out\<rparr>"
  define q where "q = r\<lparr>r_replies := [], r_stream := s'\<rparr>"
  have "send_raw radio_link (as_bytes (''BT'' @ [CHR 0x0D])) (r\<lparr>r_replies := []\<rparr>) = (Inr (), q)"
    using assms(1) radio_ignores [OF assms(1)]
    by (simp add: send_raw_def radio_link_def in_kiss_def code_def q_def s'_def s_def out_def)
  moreover have "push_bytes q out = q\<lparr>r_frames := r_frames r @ heard_list (rs_heard s),
      r_state := (if rs_heard s = None then r_state r else AfterFrame)\<rparr>"
    unfolding out_def using assms(2,3)
    by (subst push_heard) (auto simp: heard_list_def q_def s_def split: option.splits)
  then have "reply radio_link w q = (Inr None, q\<lparr>r_frames := r_frames r @ heard_list (rs_heard s),
      r_state := (if rs_heard s = None then r_state r else AfterFrame), r_stream := s'\<lparr>rs_out := []\<rparr>\<rparr>)"
    using reply_loop_silent [of q "Suc (length out)"] assms(1)
    by (simp add: reply_def radio_link_def [THEN arg_cong [of _ _ l_reads_within]] q_def s'_def s_def in_kiss_def)
  moreover have "s'\<lparr>rs_out := []\<rparr> = s\<lparr>rs_log := rs_log s @ [''BT ignored''], rs_heard := None\<rparr>"
    using assms(1) by (cases s) (simp add: s'_def s_def in_kiss_def)
  ultimately show ?thesis
    by (simp add: command_within_attempt and_then_def q_def s_def)
qed

text \<open>The four commands of the sequence, on a radio in command mode; \<open>logged\<close> is the radio after a command.\<close>

definition logged :: "string \<Rightarrow> radio_state \<Rightarrow> radio_state" where
  "logged cmd s = s\<lparr>rs_log := rs_log s @ [cmd]\<rparr>"

definition heard_reply :: "'d \<Rightarrow> 'd radio \<Rightarrow> 'd radio" where
  "heard_reply d r = r\<lparr>r_stream := d, r_state := Text, r_replies := []\<rparr>"

lemma command_says:
  assumes "r_state r \<noteq> Frame" and "r_line r = []" and "takes_commands (r_stream r)" and "command_text cmd"
    and "answer (logged cmd (r_stream r)) cmd = s'\<lparr>rs_out := as_bytes t @ [0x0D]\<rparr>" and "rs_out s' = []"
    and "command_text t" "line_safe (as_bytes t)" "trim t = t" "t \<noteq> ''?''"
  shows "command_within radio_link cmd w r = (Inr (Some t), heard_reply s' r)"
proof -
  have "s'\<lparr>rs_out := []\<rparr> = s'" using assms(6) by (cases s') simp
  then show ?thesis
    using command_answered [OF assms(1-4) refl, of t w] assms(5,7-) by (simp add: logged_def heard_reply_def)
qed

lemma bt_answered:
  assumes "r_state r \<noteq> Frame" and "r_line r = []" and "takes_commands (r_stream r)"
  shows "command_within radio_link ''BT'' w r = (Inr (Some ''BT 1''), heard_reply (logged ''BT'' (r_stream r)) r)"
proof (rule command_says)
  show "line_safe (as_bytes ''BT 1'')" by (rule line_safe_text) (simp_all add: command_text_def MAX_LINE_def code_def)
  show "trim ''BT 1'' = ''BT 1''" by (rule trim_ascii) (simp_all add: code_def)
qed (use assms in \<open>simp_all add: takes_commands_def command_text_def answer_def logged_def code_def\<close>)

lemma id_answered:
  assumes "r_state r \<noteq> Frame" and "r_line r = []" and "takes_commands (r_stream r)"
  shows "command_within radio_link ''ID'' w r = (Inr (Some ''ID TH-D75''), heard_reply (logged ''ID'' (r_stream r)) r)"
proof (rule command_says)
  show "line_safe (as_bytes ''ID TH-D75'')" by (rule line_safe_text) (simp_all add: command_text_def MAX_LINE_def code_def)
  show "trim ''ID TH-D75'' = ''ID TH-D75''" by (rule trim_ascii) (simp_all add: code_def)
qed (use assms in \<open>simp_all add: takes_commands_def command_text_def answer_def logged_def code_def\<close>)

lemma tn_not_busy: "tn_command n b \<noteq> ''?''" "starts_with ''TN'' (tn_command n b)"
  by (simp_all add: tn_command_def starts_with_def)

lemma tn_answered:
  assumes "r_state r \<noteq> Frame" and "r_line r = []" and "takes_commands (r_stream r)"
  shows "command_within radio_link ''TN'' w r =
    (Inr (Some (tn_command (unat (rs_mode (r_stream r))) (rs_band (r_stream r)))), heard_reply (logged ''TN'' (r_stream r)) r)"
proof (rule command_says)
  show "command_text ''TN''" by (simp add: command_text_def code_def)
qed (use assms in \<open>simp_all add: takes_commands_def answer_def logged_def command_text_tn line_safe_tn tn_not_busy\<close>)

lemma answer_tn:
  "answer s (tn_command (unat m) b) =
     s\<lparr>rs_mode := m, rs_band := b, rs_out := rs_out s @ as_bytes (tn_command (unat m) b) @ [0x0D]\<rparr>"
proof -
  have "tn_command (unat m) b \<noteq> ''BT''" "tn_command (unat m) b \<noteq> ''ID''" "tn_command (unat m) b \<noteq> ''TN''"
    "starts_with ''TN '' (tn_command (unat m) b)"
    "drop 3 (tn_command (unat m) b) = show_nat (unat m) @ CHR '','' # show_nat (unat b)"
    by (simp_all add: tn_command_def starts_with_def)
  then show ?thesis by (simp add: answer_def Let_def)
qed

lemma tn_set:
  assumes "r_state r \<noteq> Frame" and "r_line r = []" and "takes_commands (r_stream r)"
  shows "command_within radio_link (tn_command 2 b) w r =
    (Inr (Some (tn_command 2 b)),
     heard_reply ((logged (tn_command 2 b) (r_stream r))\<lparr>rs_mode := 2, rs_band := b\<rparr>) r)"
proof (rule command_says)
  have "unat (2 :: u8) = 2" by simp
  then show "line_safe (as_bytes (tn_command 2 b))"
    "answer (logged (tn_command 2 b) (r_stream r)) (tn_command 2 b) =
      ((logged (tn_command 2 b) (r_stream r))\<lparr>rs_mode := 2, rs_band := b\<rparr>)\<lparr>rs_out := as_bytes (tn_command 2 b) @ [0x0D]\<rparr>"
    using line_safe_tn [of 2 b] answer_tn [of _ 2 b] assms(3) by (simp_all add: logged_def takes_commands_def)
qed (use assms in \<open>simp_all add: takes_commands_def logged_def command_text_tn tn_not_busy\<close>)

section \<open>The whole sequence\<close>

lemmas radio_steps = and_then_def command_reply_def bt_answered id_answered tn_answered tn_set heard_reply_def

lemma takes_commands_logged [simp]: "takes_commands (logged c s) \<longleftrightarrow> takes_commands s"
  by (simp add: takes_commands_def logged_def)

lemma logged_simps [simp]: "rs_mode (logged c s) = rs_mode s" "rs_band (logged c s) = rs_band s"
    "rs_kiss_elsewhere (logged c s) = rs_kiss_elsewhere s" "rs_heard (logged c s) = rs_heard s"
    "rs_line (logged c s) = rs_line s" "rs_kiss (logged c s) = rs_kiss s" "rs_out (logged c s) = rs_out s"
    "rs_ended (logged c s) = rs_ended s"
  by (simp_all add: logged_def)

text \<open>What is left of the radio and of the client when the sequence ends.\<close>

lemma enter_kiss_radio:
  assumes "r_state r \<noteq> Frame" and "r_line r = []" and "r_frame r = []" and "takes_commands (r_stream r)"
    and "rs_kiss (r_stream r) = []" and "\<forall>f \<in> set (heard_list (rs_heard (r_stream r))). wire_safe MAX_FRAME f"
  shows "\<exists>r'. enter_kiss radio_link b r =
      (if rs_kiss_elsewhere (r_stream r) then Inl wrong_interface else Inr (), r')
    \<and> (\<not> rs_kiss_elsewhere (r_stream r) \<longrightarrow> in_kiss (r_stream r') \<and> rs_band (r_stream r') = b
        \<and> rs_line (r_stream r') = [] \<and> rs_heard (r_stream r') = None
        \<and> r_frames r' = r_frames r @ heard_list (rs_heard (r_stream r)))"
proof -
  define s where "s = (logged (tn_command 2 b) (r_stream r))\<lparr>rs_mode := 2, rs_band := b\<rparr>"
  have accept: "command_reply radio_link (tn_command 2 b) r = (Inr (Some (tn_command 2 b)), heard_reply s r)"
    using tn_set [OF assms(1,2,4)] by (simp add: command_reply_def s_def)
  show ?thesis
  proof (cases "rs_kiss_elsewhere (r_stream r)")
    case True
    then have "takes_commands s" using assms(4) by (simp add: takes_commands_def s_def)
    with accept True assms bt_answered [of "heard_reply s r" KISS_CHECK_WAIT] show ?thesis
      by (simp add: enter_kiss_def and_then_def tn_not_busy heard_reply_def)
  next
    case False
    then have "in_kiss s" using assms(4,5) by (simp add: in_kiss_def takes_commands_def s_def)
    with accept False assms command_ignored [of "heard_reply s r" KISS_CHECK_WAIT] show ?thesis
      by (simp add: enter_kiss_def and_then_def tn_not_busy heard_reply_def in_kiss_def)
         (simp add: s_def takes_commands_def)
  qed
qed

lemma probe_radio:
  assumes "s = radio_in m b e h" and "\<forall>f \<in> set (heard_list h). wire_safe MAX_FRAME f"
  shows "\<exists>r. probe radio_link (new_radio s) = (Inr (m = 2 \<and> \<not> e), r)
    \<and> r_state r \<noteq> Frame \<and> r_line r = [] \<and> r_frame r = [] \<and> takes_commands (r_stream r)
    \<and> rs_kiss (r_stream r) = [] \<and> rs_kiss_elsewhere (r_stream r) = e \<and> rs_band (r_stream r) = b
    \<and> rs_mode (r_stream r) = (if m = 2 \<and> \<not> e then 0 else m)
    \<and> r_frames r @ heard_list (rs_heard (r_stream r)) = heard_list h
    \<and> (\<forall>f \<in> set (heard_list (rs_heard (r_stream r))). wire_safe MAX_FRAME f)"
proof (cases "m = 2 \<and> \<not> e")
  case False
  then have "takes_commands s" using assms(1) by (auto simp: takes_commands_def radio_in_def)
  with False assms bt_answered [of "new_radio s" REPLY_WAIT] show ?thesis
    by (auto simp: probe_def and_then_def command_reply_def heard_reply_def new_radio_def radio_in_def)
next
  case True
  define r1 where "r1 = snd (command_reply radio_link ''BT'' (new_radio s))"
  have "in_kiss s" using True assms(1) by (simp add: in_kiss_def radio_in_def)
  then have r1: "command_reply radio_link ''BT'' (new_radio s) = (Inr None, r1)"
    "in_kiss (r_stream r1)" "rs_heard (r_stream r1) = None" "rs_band (r_stream r1) = b" "rs_line (r_stream r1) = []"
    "r_frames r1 = heard_list h" "r_state r1 \<noteq> Frame" "r_line r1 = []" "r_frame r1 = []"
    using command_ignored [of "new_radio s" REPLY_WAIT] assms
    by (auto simp: r1_def command_reply_def new_radio_def radio_in_def in_kiss_def)
  define s2 where "s2 = (r_stream r1)\<lparr>rs_mode := 0, rs_log := rs_log (r_stream r1) @ [''KISS return'']\<rparr>"
  have ret: "send_raw radio_link KISS_RETURN r1 = (Inr (), r1\<lparr>r_stream := s2\<rparr>)"
    using radio_leaves_kiss [OF r1(2)] r1(2) by (simp add: send_raw_def radio_link_def in_kiss_def s2_def)
  have s2: "takes_commands s2" using r1(2,5) by (simp add: takes_commands_def s2_def in_kiss_def)
  have sl: "l_sleep radio_link d w = d" for d w by (simp add: radio_link_def)
  have "probe radio_link (new_radio s) = (Inr True, heard_reply (logged ''BT'' s2) (r1\<lparr>r_stream := s2\<rparr>))"
    using r1 ret s2 bt_answered [of "r1\<lparr>r_stream := s2\<rparr>" REPLY_WAIT]
    by (simp add: probe_def and_then_def command_reply_def sl)
  with True r1 s2 show ?thesis
    by (simp add: heard_reply_def in_kiss_def s2_def heard_list_def)
qed

text \<open>Sending \<open>exit_kiss\<close> to the radio.\<close>

lemma exit_kiss_radio:
  assumes "in_kiss s" and "rs_line s = []" and "rs_band s = b"
  shows "rs_mode (foldl radio_byte s (concat (exit_kiss_for prev b))) = (if prev = Some 1 then 1 else 0)
    \<and> rs_band (foldl radio_byte s (concat (exit_kiss_for prev b))) = b"
proof -
  define s' where "s' = s\<lparr>rs_mode := 0, rs_log := rs_log s @ [''KISS return'']\<rparr>"
  have "takes_commands s'" using assms by (simp add: takes_commands_def s'_def in_kiss_def)
  moreover have "unat (1 :: u8) = 1" by simp
  ultimately have "foldl radio_byte s' (as_bytes (tn_command 1 b) @ [0x0D]) =
      (logged (tn_command 1 b) s')\<lparr>rs_mode := 1, rs_band := b, rs_out := rs_out s' @ as_bytes (tn_command 1 b) @ [0x0D]\<rparr>"
    using radio_answers [of s' "tn_command 1 b"] answer_tn [of _ 1 b] by (simp add: command_text_tn logged_def)
  then show ?thesis
    using radio_leaves_kiss [OF assms(1)] assms(3) by (simp add: exit_kiss_for_def code_def s'_def)
qed

lemma init_th_d7x_run:
  assumes "\<forall>f \<in> set (heard_list h). wire_safe MAX_FRAME f"
  shows "\<exists>s. init_th_d7x radio_link (radio_in m b e h) =
      (if e then Inl wrong_interface
       else Inr \<lparr>io_radio = Some ''TH-D75'', io_frames = heard_list h, io_exit_kiss = exit_kiss_for (Some m) b\<rparr>, s)
    \<and> (\<not> e \<longrightarrow> in_kiss s \<and> rs_band s = b \<and> rs_line s = [])"
proof -
  obtain r where r: "probe radio_link (new_radio (radio_in m b e h)) = (Inr (m = 2 \<and> \<not> e), r)"
      "r_state r \<noteq> Frame" "r_line r = []" "r_frame r = []" "takes_commands (r_stream r)"
      "rs_kiss (r_stream r) = []" "rs_kiss_elsewhere (r_stream r) = e" "rs_band (r_stream r) = b"
      "rs_mode (r_stream r) = (if m = 2 \<and> \<not> e then 0 else m)"
      "r_frames r @ heard_list (rs_heard (r_stream r)) = heard_list h"
      "\<forall>f \<in> set (heard_list (rs_heard (r_stream r))). wire_safe MAX_FRAME f"
    using probe_radio [OF refl assms, of m b e] by blast
  define mode where "mode = rs_mode (r_stream r)"
  define r1 where "r1 = heard_reply (logged ''ID'' (r_stream r)) r"
  define r2 where "r2 = heard_reply (logged ''TN'' (r_stream r1)) r1"
  have id: "command_reply radio_link ''ID'' r = (Inr (Some ''ID TH-D75''), r1)"
    using id_answered [OF r(2,3,5)] by (simp add: command_reply_def r1_def)
  have tn: "command_reply radio_link ''TN'' r1 = (Inr (Some (tn_command (unat mode) b)), r2)"
    using tn_answered [of r1 REPLY_WAIT] r by (simp add: command_reply_def r1_def r2_def heard_reply_def mode_def)
  obtain r3 where r3: "enter_kiss radio_link b r2 = (if e then Inl wrong_interface else Inr (), r3)"
      "\<not> e \<longrightarrow> in_kiss (r_stream r3) \<and> rs_band (r_stream r3) = b \<and> rs_line (r_stream r3) = []
        \<and> r_frames r3 = heard_list h"
    using enter_kiss_radio [of r2 b] r by (auto simp: r1_def r2_def heard_reply_def)
  have "radio_id_of ''ID TH-D75'' = ''TH-D75''"
    by (simp add: radio_id_of_def strip_prefix_def starts_with_def trim_ascii code_def)
  moreover have "(if m = 2 \<and> \<not> e then Some 2 else Some mode) = Some m" using r(9) by (simp add: mode_def)
  ultimately show ?thesis
    using r(1) id tn r3 by (cases e) (auto simp: init_th_d7x_def and_then_def parse_tn_command)
qed

text \<open>C25: KISS init on a TH-D75, from any mode and band, in the presence of a frame heard meanwhile: the radio
  ends in KISS mode on the band it was using, the outcome carries its model and the frame, and sending
  \<open>exit_kiss\<close> later leaves the radio in APRS mode if that is how it was found and switched off otherwise.
  A radio whose KISS interface is another one is refused.\<close>

theorem init_th_d7x_radio:
  assumes "\<forall>f \<in> set (heard_list h). wire_safe MAX_FRAME f"
  shows "case init_th_d7x radio_link (radio_in m b e h) of
    (Inl err, s) \<Rightarrow> e \<and> err = wrong_interface
  | (Inr out, s) \<Rightarrow> \<not> e \<and> io_radio out = Some ''TH-D75'' \<and> io_frames out = heard_list h
      \<and> rs_mode s = 2 \<and> rs_band s = b
      \<and> (let left = foldl radio_byte s (concat (io_exit_kiss out))
         in rs_mode left = (if m = 1 then 1 else 0) \<and> rs_band left = b)"
  using init_th_d7x_run [OF assms, of m b e] exit_kiss_radio [of _ b "Some m"]
  by (auto simp: in_kiss_def Let_def)

theorem init_th_d7x_radio_witness:
  "case init_th_d7x radio_link (radio_in 2 1 False (Some [0, 0x82])) of
     (Inl err, s) \<Rightarrow> False
   | (Inr out, s) \<Rightarrow> io_frames out = [[0, 0x82]] \<and> rs_mode s = 2"
proof -
  have "\<forall>f \<in> set (heard_list (Some [0, 0x82])). wire_safe MAX_FRAME f"
    by (simp add: heard_list_def wire_safe_def kiss_bytes MAX_FRAME_def)
  from init_th_d7x_radio [OF this, where m = 2 and b = 1 and e = False] show ?thesis
    by (auto simp: heard_list_def split: prod.splits sum.splits)
qed


end
