(* ===== verification/Tcp_Server.thy ===== *)
theory Tcp_Server
  imports Listen_Port Bridge Kiss_Stream
begin

text \<open>
  \<^verbatim>\<open>src/port/tcp_server.rs\<close>: an app port that accepts KISS clients over TCP. The accept loop and the
  session tasks run concurrently, so the port is a step relation: a step is one turn of the accept loop
  (\<open>on_bind\<close>, \<open>on_accept\<close>), a turn of one session's loop (\<open>session_step\<close>), a change of the live settings by
  the reconciler, or a shutdown. What a client sends is the list of results its reads will give.
\<close>

section \<open>Settings and state\<close>

definition SESSION_QUEUE :: nat where "SESSION_QUEUE = 64"
definition INTERFACE_RETRY :: millis where "INTERFACE_RETRY = 5000"
definition QUIET :: millis where "QUIET = 60000"

datatype server_state =
    Starting
  | Listening socket_addr
  | WaitingForInterface string
  | Failed string
  | Stopped

record 'net tcp_live =
  max_clients :: "u32 option"
  live_allow :: "'net list"

datatype bind_error = NoInterface string | Unsupported string | Bind_io string

text \<open>When each address was last warned about.\<close>

type_synonym rejections = "(ip_addr \<times> millis) list"

definition should_log :: "millis \<Rightarrow> ip_addr \<Rightarrow> rejections \<Rightarrow> bool \<times> rejections" where
  "should_log now ip seen =
     (let kept = filter (\<lambda>p. now - snd p < QUIET) seen in
      if ip \<in> fst ` set kept then (False, kept) else (True, (ip, now) # kept))"

section \<open>A session\<close>

datatype phase = Spawned | Running | Leaving | Gone

record session_task =
  st_id :: session_id
  st_phase :: phase
  st_reader :: reader
  st_reads :: "read_result list"
  st_written :: bytes

text \<open>What a turn of the loop finds ready; \<open>open_app\<close> says that the bridge still receives.\<close>

datatype turn = Start | Kicked | Client | To_client frame bool | Finish

definition leave :: "session_task \<Rightarrow> session_task" where
  "leave t = t\<lparr>st_phase := Leaving\<rparr>"

text \<open>The task after a turn, what it sent to the bridge, and whether it gave up its place (\<open>fetch_sub\<close>).\<close>

definition session_step :: "bool \<Rightarrow> turn \<Rightarrow> session_task \<Rightarrow> session_task \<times> unit app_event list \<times> bool" where
  "session_step open_app u t =
     (case (st_phase t, u) of
        (Spawned, Start) \<Rightarrow>
          if open_app then (t\<lparr>st_phase := Running\<rparr>, [SessionOpened (st_id t) ()], False)
          else (t\<lparr>st_phase := Gone\<rparr>, [], True)
      | (Running, Kicked) \<Rightarrow> (leave t, [], True)
      | (Running, Client) \<Rightarrow>
          (case read_frame (st_reader t) (st_reads t) of
             Ready (Inr f) r rest \<Rightarrow>
               let t' = t\<lparr>st_reader := r, st_reads := rest\<rparr> in
               if open_app then (t', [AppFrame (st_id t) f], False) else (leave t', [], True)
           | Ready (Inl e) r rest \<Rightarrow> (leave (t\<lparr>st_reader := r, st_reads := rest\<rparr>), [], True)
           | Blocked r \<Rightarrow> (t\<lparr>st_reader := r, st_reads := []\<rparr>, [], False))
      | (Running, To_client f ok) \<Rightarrow>
          if ok then (t\<lparr>st_written := st_written t @ write_frame f\<rparr>, [], False) else (leave t, [], True)
      | (Leaving, Finish) \<Rightarrow> (t\<lparr>st_phase := Gone\<rparr>, if open_app then [SessionClosed (st_id t)] else [], False)
      | _ \<Rightarrow> (t, [], False))"

definition new_session :: "session_id \<Rightarrow> read_result list \<Rightarrow> session_task" where
  "new_session i reads =
     \<lparr>st_id = i, st_phase = Spawned, st_reader = new_reader, st_reads = reads, st_written = []\<rparr>"

section \<open>The accept loop\<close>

record 'net tcp_server =
  tp_port_id :: string
  tp_live :: "'net tcp_live"
  tp_state :: server_state
  tp_accepting :: bool
  tp_count :: nat
  tp_rejections :: rejections
  tp_warned :: "(ip_addr \<times> millis) list"
  tp_tasks :: "(ip_addr \<times> session_task) list"
  tp_sent :: "unit app_event list"

definition spawn_port :: "string \<Rightarrow> 'net tcp_live \<Rightarrow> 'net tcp_server" where
  "spawn_port port_id live =
     \<lparr>tp_port_id = port_id, tp_live = live, tp_state = Starting, tp_accepting = False, tp_count = 0,
      tp_rejections = [], tp_warned = [], tp_tasks = [], tp_sent = []\<rparr>"

text \<open>The outcome of \<open>bind\<close>; a missing interface is retried after \<open>INTERFACE_RETRY\<close>.\<close>

definition on_bind :: "bind_error + socket_addr option \<Rightarrow> 'net tcp_server \<Rightarrow> 'net tcp_server" where
  "on_bind res s =
     (case res of
        Inr local \<Rightarrow>
          s\<lparr>tp_accepting := True, tp_state := (case local of Some a \<Rightarrow> Listening a | None \<Rightarrow> tp_state s)\<rparr>
      | Inl (NoInterface name) \<Rightarrow> s\<lparr>tp_state := WaitingForInterface name\<rparr>
      | Inl (Unsupported e) \<Rightarrow> s\<lparr>tp_state := Failed e\<rparr>
      | Inl (Bind_io e) \<Rightarrow> s\<lparr>tp_state := Failed e\<rparr>)"

definition refuse :: "millis \<Rightarrow> ip_addr \<Rightarrow> 'net tcp_server \<Rightarrow> 'net tcp_server" where
  "refuse now ip s =
     (case should_log now ip (tp_rejections s) of
        (warn, r) \<Rightarrow> s\<lparr>tp_rejections := r, tp_warned := tp_warned s @ (if warn then [(ip, now)] else [])\<rparr>)"

definition at_limit :: "'net tcp_live \<Rightarrow> nat \<Rightarrow> bool" where
  "at_limit live n = (case max_clients live of None \<Rightarrow> False | Some m \<Rightarrow> n \<ge> unat m)"

definition on_accept ::
  "('net \<Rightarrow> ip_addr \<Rightarrow> bool) \<Rightarrow> millis \<Rightarrow> socket_addr \<Rightarrow> read_result list \<Rightarrow> 'net tcp_server \<Rightarrow> 'net tcp_server" where
  "on_accept nc now peer reads s =
     (if \<not> allowed nc (live_allow (tp_live s)) (sock_ip peer) then refuse now (sock_ip peer) s
      else if at_limit (tp_live s) (tp_count s) then refuse now (sock_ip peer) s
      else s\<lparr>tp_count := tp_count s + 1,
             tp_tasks := tp_tasks s
               @ [(sock_ip peer, new_session \<lparr>sid_port = tp_port_id s, sid_peer = show_socket_addr peer\<rparr> reads)]\<rparr>)"

definition on_shutdown :: "'net tcp_server \<Rightarrow> 'net tcp_server" where
  "on_shutdown s = s\<lparr>tp_accepting := False, tp_state := Stopped\<rparr>"

text \<open>A turn of the \<open>i\<close>-th session; \<open>Gone\<close> sessions stay in the list and do nothing.\<close>

definition on_session :: "bool \<Rightarrow> nat \<Rightarrow> turn \<Rightarrow> 'net tcp_server \<Rightarrow> 'net tcp_server" where
  "on_session open_app i u s =
     (case session_step open_app u (snd (tp_tasks s ! i)) of
        (t, evs, gave_up) \<Rightarrow>
          s\<lparr>tp_tasks := (tp_tasks s)[i := (fst (tp_tasks s ! i), t)],
            tp_count := (if gave_up then tp_count s - 1 else tp_count s),
            tp_sent := tp_sent s @ evs\<rparr>)"

text \<open>The port and everything around it. The clock and the settings that were in force are kept along.\<close>

inductive port_step ::
  "('net \<Rightarrow> ip_addr \<Rightarrow> bool) \<Rightarrow> millis \<times> 'net tcp_live list \<times> 'net tcp_server
    \<Rightarrow> millis \<times> 'net tcp_live list \<times> 'net tcp_server \<Rightarrow> bool" for nc where
  Tick: "now \<le> now' \<Longrightarrow> port_step nc (now, ls, s) (now', ls, s)"
| Reload: "port_step nc (now, ls, s) (now, live # ls, s\<lparr>tp_live := live\<rparr>)"
| Bind: "\<not> tp_accepting s \<and> tp_state s = Starting \<or> (\<exists>name. tp_state s = WaitingForInterface name) \<Longrightarrow>
    port_step nc (now, ls, s) (now, ls, on_bind res s)"
| Accept: "tp_accepting s \<Longrightarrow> port_step nc (now, ls, s) (now, ls, on_accept nc now peer reads s)"
| Session: "i < length (tp_tasks s) \<Longrightarrow> port_step nc (now, ls, s) (now, ls, on_session open_app i u s)"
| Shutdown: "tp_accepting s \<or> (\<exists>name. tp_state s = WaitingForInterface name) \<Longrightarrow> port_step nc (now, ls, s) (now, ls, on_shutdown s)"

inductive port_reach ::
  "('net \<Rightarrow> ip_addr \<Rightarrow> bool) \<Rightarrow> millis \<times> 'net tcp_live list \<times> 'net tcp_server \<Rightarrow> bool" for nc where
  Spawn: "port_reach nc (now, [live], spawn_port port_id live)"
| Step: "port_reach nc c \<Longrightarrow> port_step nc c c' \<Longrightarrow> port_reach nc c'"

inductive_cases port_stepE: "port_step nc (now, ls, s) c'"

section \<open>Admission\<close>

definition active :: "session_task \<Rightarrow> bool" where
  "active t \<longleftrightarrow> st_phase t = Spawned \<or> st_phase t = Running"

definition active_count :: "(ip_addr \<times> session_task) list \<Rightarrow> nat" where
  "active_count ts = length (filter (active \<circ> snd) ts)"

text \<open>A session gives up its place exactly when it stops being active, and never becomes active again.\<close>

lemma session_step_active:
  assumes "session_step open_app u t = (t', evs, gave_up)"
  shows "active t \<longleftrightarrow> active t' \<or> gave_up" "gave_up \<longrightarrow> \<not> active t'"
  using assms
  by (auto simp: session_step_def active_def leave_def Let_def
      split: phase.splits turn.splits if_splits read_outcome.splits sum.splits)

lemma length_filter_update:
  "i < length xs \<Longrightarrow> length (filter P (xs[i := y])) + (if P (xs ! i) then 1 else 0) = length (filter P xs) + (if P y then 1 else 0)"
proof (induction xs arbitrary: i)
  case (Cons x xs)
  then show ?case by (cases i) auto
qed simp

lemma active_count_step:
  assumes "i < length ts" and "session_step open_app u (snd (ts ! i)) = (t', evs, gave_up)"
  shows "active_count (ts[i := (ip, t')]) = (if gave_up then active_count ts - 1 else active_count ts)"
  using length_filter_update [OF assms(1), of "active \<circ> snd" "(ip, t')"] session_step_active [OF assms(2)]
  by (auto simp: active_count_def split: if_splits)

text \<open>The clients that were admitted were allowed, and no more than the limits in force allow.\<close>

definition port_ok :: "('net \<Rightarrow> ip_addr \<Rightarrow> bool) \<Rightarrow> 'net tcp_live list \<Rightarrow> 'net tcp_server \<Rightarrow> bool" where
  "port_ok nc ls s \<longleftrightarrow>
     tp_live s \<in> set ls \<and> tp_count s = active_count (tp_tasks s)
     \<and> (\<forall>M. (\<forall>l \<in> set ls. \<exists>m. max_clients l = Some m \<and> unat m \<le> M) \<longrightarrow> tp_count s \<le> M)
     \<and> (\<forall>(ip, t) \<in> set (tp_tasks s). \<exists>l \<in> set ls. allowed nc (live_allow l) ip)"

lemma port_ok_refuse: "port_ok nc ls s \<Longrightarrow> port_ok nc ls (refuse now ip s)"
  by (simp add: port_ok_def refuse_def split: prod.splits)

lemma port_ok_accept:
  assumes "port_ok nc ls s"
  shows "port_ok nc ls (on_accept nc now peer reads s)"
proof (cases "allowed nc (live_allow (tp_live s)) (sock_ip peer) \<and> \<not> at_limit (tp_live s) (tp_count s)")
  case False
  then show ?thesis using assms by (auto simp: on_accept_def port_ok_refuse)
next
  case True
  have "Suc (tp_count s) \<le> M" if "\<forall>l \<in> set ls. \<exists>m. max_clients l = Some m \<and> unat m \<le> M" for M
  proof -
    have "tp_live s \<in> set ls" using assms by (simp add: port_ok_def)
    with that obtain m where "max_clients (tp_live s) = Some m" "unat m \<le> M" by blast
    with True show ?thesis by (simp add: at_limit_def)
  qed
  with True assms show ?thesis
    by (auto simp: on_accept_def port_ok_def active_count_def active_def new_session_def)
qed

lemma port_ok_session:
  assumes "port_ok nc ls s" and "i < length (tp_tasks s)"
  shows "port_ok nc ls (on_session open_app i u s)"
proof -
  obtain t evs g where st: "session_step open_app u (snd (tp_tasks s ! i)) = (t, evs, g)" by (metis prod_cases3)
  have old: "\<exists>l \<in> set ls. allowed nc (live_allow l) ip" if "(ip, t) \<in> set (tp_tasks s)" for ip t
    using assms(1) that by (auto simp: port_ok_def)
  have "(fst (tp_tasks s ! i), snd (tp_tasks s ! i)) \<in> set (tp_tasks s)" using assms(2) by simp
  from old [OF this]
  have "\<forall>(ip, t) \<in> set ((tp_tasks s)[i := (fst (tp_tasks s ! i), t)]). \<exists>l \<in> set ls. allowed nc (live_allow l) ip"
    using old by (auto dest!: subsetD [OF set_update_subset_insert])
  then show ?thesis
    using assms st active_count_step [OF assms(2) st, of "fst (tp_tasks s ! i)"]
    by (auto simp: port_ok_def on_session_def intro: le_trans [OF diff_le_self])
qed

lemma port_ok_step: "port_step nc (now, ls, s) (now', ls', s') \<Longrightarrow> port_ok nc ls s \<Longrightarrow> port_ok nc ls' s'"
proof (erule port_stepE)
  fix live assume "(now', ls', s') = (now, live # ls, s\<lparr>tp_live := live\<rparr>)" "port_ok nc ls s"
  then show "port_ok nc ls' s'" by (auto simp: port_ok_def)
qed (auto simp: port_ok_accept port_ok_session,
  auto simp: port_ok_def on_bind_def on_shutdown_def split: sum.splits bind_error.splits)

lemma port_reach_ok: "port_reach nc (now, ls, s) \<Longrightarrow> port_ok nc ls s"
proof (induction "(now, ls, s)" arbitrary: now ls s rule: port_reach.induct)
  case (Spawn now live port_id)
  then show ?case by (simp add: port_ok_def spawn_port_def active_count_def)
next
  case (Step c)
  then show ?case by (cases c) (auto intro: port_ok_step)
qed

text \<open>C28: a TCP port never serves more clients than its limit. Whatever the interleaving of connections, sessions
  and reloads, the number of sessions the port counts is the number of its running session tasks; it stays
  within any bound that every limit in force so far respects; and every session belongs to a peer
  that an allow list in force admitted.\<close>

theorem tcp_port_admission:
  assumes "port_reach nc (now, ls, s)"
  shows "tp_count s = length (filter (active \<circ> snd) (tp_tasks s))
    \<and> ((\<forall>l \<in> set ls. \<exists>m. max_clients l = Some m \<and> unat m \<le> M) \<longrightarrow> tp_count s \<le> M)
    \<and> (\<forall>(ip, t) \<in> set (tp_tasks s). \<exists>l \<in> set ls. allowed nc (live_allow l) ip)"
  using port_reach_ok [OF assms] by (auto simp: port_ok_def active_count_def)

theorem tcp_port_admission_witness:
  "\<exists>s :: nat tcp_server. port_reach (\<lambda>n ip. True) (0, [\<lparr>max_clients = Some 1, live_allow = []\<rparr>], s)
     \<and> tp_count s = 1 \<and> tp_count s \<le> 1"
proof -
  let ?live = "\<lparr>max_clients = Some 1, live_allow = [] :: nat list\<rparr>"
  let ?bound = "on_bind (Inr None) (spawn_port ''app'' ?live)"
  let ?s = "on_accept (\<lambda>n ip. True) 0 (Sock (V4 [10, 0, 0, 1]) 4000 0) [] ?bound"
  have "port_reach (\<lambda>n ip. True) (0, [?live], ?bound)"
    by (rule port_reach.Step [OF port_reach.Spawn port_step.Bind]) (simp add: spawn_port_def)
  then have r: "port_reach (\<lambda>n ip. True) (0, [?live], ?s)"
    by (rule port_reach.Step [OF _ port_step.Accept]) (simp add: on_bind_def)
  moreover have "tp_count ?s = 1"
    by (simp add: on_accept_def allowed_def at_limit_def on_bind_def spawn_port_def)
  ultimately show ?thesis using tcp_port_admission [OF r, of 1] by auto
qed

section \<open>Refusals in the log\<close>

definition apart :: "(ip_addr \<times> millis) list \<Rightarrow> bool" where
  "apart = sorted_wrt (\<lambda>a b. fst a = fst b \<longrightarrow> snd a + QUIET \<le> snd b)"

definition log_ok :: "millis \<Rightarrow> 'net tcp_server \<Rightarrow> bool" where
  "log_ok now s \<longleftrightarrow> apart (tp_warned s) \<and> (\<forall>p \<in> set (tp_warned s). snd p \<le> now)
     \<and> set (tp_rejections s) \<subseteq> set (tp_warned s)
     \<and> (\<forall>p \<in> set (tp_warned s). now < snd p + QUIET \<longrightarrow> p \<in> set (tp_rejections s))"

lemma recent_iff:
  assumes "log_ok now s"
  shows "(\<exists>t. (ip, t) \<in> set (tp_rejections s) \<and> now - t < QUIET) \<longleftrightarrow>
    (\<exists>t. (ip, t) \<in> set (tp_warned s) \<and> now < t + QUIET)"
proof
  assume "\<exists>t. (ip, t) \<in> set (tp_rejections s) \<and> now - t < QUIET"
  then obtain t where "(ip, t) \<in> set (tp_rejections s)" "now < t + QUIET" by (auto simp: QUIET_def)
  with assms show "\<exists>t. (ip, t) \<in> set (tp_warned s) \<and> now < t + QUIET" by (auto simp: log_ok_def)
next
  assume "\<exists>t. (ip, t) \<in> set (tp_warned s) \<and> now < t + QUIET"
  then obtain t where t: "(ip, t) \<in> set (tp_warned s)" "now < t + QUIET" by auto
  with assms have "(ip, t) \<in> set (tp_rejections s)" by (auto simp: log_ok_def)
  moreover have "now - t < QUIET" using t(2) by (auto simp: QUIET_def)
  ultimately show "\<exists>t. (ip, t) \<in> set (tp_rejections s) \<and> now - t < QUIET" by auto
qed

lemma refuse_warns:
  assumes "log_ok now s"
  shows "tp_warned (refuse now ip s) =
    tp_warned s @ (if \<exists>t. (ip, t) \<in> set (tp_warned s) \<and> now < t + QUIET then [] else [(ip, now)])"
proof -
  have "ip \<in> fst ` set (filter (\<lambda>p. now - snd p < QUIET) (tp_rejections s))
      \<longleftrightarrow> (\<exists>t. (ip, t) \<in> set (tp_warned s) \<and> now < t + QUIET)"
    unfolding recent_iff [OF assms, symmetric] by force
  then show ?thesis by (simp add: refuse_def should_log_def Let_def)
qed

lemma log_ok_refuse:
  assumes "log_ok now s"
  shows "log_ok now (refuse now ip s)"
proof -
  have rej: "set (tp_rejections (refuse now ip s)) =
      {p \<in> set (tp_rejections s). now - snd p < QUIET}
      \<union> (if \<exists>t. (ip, t) \<in> set (tp_rejections s) \<and> now - t < QUIET then {} else {(ip, now)})"
    by (force simp: refuse_def should_log_def Let_def)
  note same = recent_iff [OF assms, of ip]
  show ?thesis
  proof (cases "\<exists>t. (ip, t) \<in> set (tp_warned s) \<and> now < t + QUIET")
    case True
    with assms refuse_warns [OF assms, of ip] rej same show ?thesis by (fastforce simp: log_ok_def)
  next
    case False
    then have "apart (tp_warned s @ [(ip, now)])"
      using assms by (fastforce simp: log_ok_def apart_def sorted_wrt_append)
    with False assms refuse_warns [OF assms, of ip] rej same show ?thesis by (fastforce simp: log_ok_def)
  qed
qed

lemma log_ok_same: "tp_warned s' = tp_warned s \<Longrightarrow> tp_rejections s' = tp_rejections s \<Longrightarrow> log_ok now s' = log_ok now s"
  by (simp add: log_ok_def)

lemma log_ok_step: "port_step nc (now, ls, s) (now', ls', s') \<Longrightarrow> log_ok now s \<Longrightarrow> log_ok now' s'"
proof (erule port_stepE)
  fix t assume "(now', ls', s') = (t, ls, s)" "now \<le> t" "log_ok now s"
  then show "log_ok now' s'" by (fastforce simp: log_ok_def)
next
  fix peer reads assume "(now', ls', s') = (now, ls, on_accept nc now peer reads s)" "log_ok now s"
  then show "log_ok now' s'"
    by (auto simp: on_accept_def log_ok_refuse) (simp add: log_ok_def)
next
  fix live assume "(now', ls', s') = (now, live # ls, s\<lparr>tp_live := live\<rparr>)" "log_ok now s"
  then show "log_ok now' s'" using log_ok_same [of "s\<lparr>tp_live := live\<rparr>" s] by simp
next
  fix res assume "(now', ls', s') = (now, ls, on_bind res s)" "log_ok now s"
  then show "log_ok now' s'"
    using log_ok_same [of "on_bind res s" s] by (auto simp: on_bind_def split: sum.splits bind_error.splits)
next
  fix i open_app u assume "(now', ls', s') = (now, ls, on_session open_app i u s)" "log_ok now s"
  then show "log_ok now' s'"
    using log_ok_same [of "on_session open_app i u s" s] by (auto simp: on_session_def split: prod.splits)
next
  assume "(now', ls', s') = (now, ls, on_shutdown s)" "log_ok now s"
  then show "log_ok now' s'" using log_ok_same [of "on_shutdown s" s] by (simp add: on_shutdown_def)
qed

lemma port_reach_log: "port_reach nc (now, ls, s) \<Longrightarrow> log_ok now s"
proof (induction "(now, ls, s)" arbitrary: now ls s rule: port_reach.induct)
  case (Spawn now live port_id)
  then show ?case by (simp add: log_ok_def spawn_port_def apart_def)
next
  case (Step c)
  then show ?case by (cases c) (auto intro: log_ok_step)
qed

text \<open>refused connections are logged as warnings once a minute per address: two warnings about an address are
  at least a minute apart, and a refusal is a warning exactly when the last minute had none about
  the address.\<close>

theorem refusals_logged_once_a_minute:
  assumes "port_reach nc (now, ls, s)"
  shows "apart (tp_warned s)
    \<and> tp_warned (refuse now ip s) =
      tp_warned s @ (if \<exists>t. (ip, t) \<in> set (tp_warned s) \<and> now < t + QUIET then [] else [(ip, now)])"
  using port_reach_log [OF assms] refuse_warns [OF port_reach_log [OF assms]] by (simp add: log_ok_def)

theorem refusals_logged_once_a_minute_witness:
  "tp_warned (refuse 0 (V4 [10, 0, 0, 1]) (spawn_port ''app'' \<lparr>max_clients = Some 0, live_allow = [] :: nat list\<rparr>)) = [(V4 [10, 0, 0, 1], 0)]"
  using refusals_logged_once_a_minute [OF port_reach.Spawn [of "\<lambda>_ _. True" 0 "\<lparr>max_clients = Some 0, live_allow = [] :: nat list\<rparr>" "''app''"]]
  by (simp add: spawn_port_def)

section \<open>What a session tells the bridge\<close>

fun session_run :: "session_task \<Rightarrow> (bool \<times> turn) list \<Rightarrow> session_task \<times> unit app_event list" where
  "session_run t [] = (t, [])"
| "session_run t ((open_app, u) # us) =
     (case session_step open_app u t of
        (t', evs, _) \<Rightarrow> (case session_run t' us of (t'', evs') \<Rightarrow> (t'', evs @ evs')))"

lemma read_frame_blocked: "read_frame r reads = Blocked r' \<Longrightarrow> pending_frames r' = []"
proof (induction r reads rule: read_frame.induct)
  case (1 r reads)
  then show ?case
    by (auto simp: read_frame.simps [of r] split: list.splits read_result.splits if_splits prod.splits sum.splits)
qed

text \<open>The events of a session from a phase on, with the frames still to come from its reader.\<close>

definition running_events :: "session_id \<Rightarrow> frame list \<Rightarrow> unit app_event list \<Rightarrow> bool" where
  "running_events i fs evs \<longleftrightarrow>
     (\<exists>gs hs. fs = gs @ hs \<and> (evs = map (AppFrame i) gs \<or> evs = map (AppFrame i) gs @ [SessionClosed i]))"

fun session_events :: "phase \<Rightarrow> session_id \<Rightarrow> frame list \<Rightarrow> unit app_event list \<Rightarrow> bool" where
  "session_events Spawned i fs evs \<longleftrightarrow> evs = [] \<or> (\<exists>evs'. evs = SessionOpened i () # evs' \<and> running_events i fs evs')"
| "session_events Running i fs evs \<longleftrightarrow> running_events i fs evs"
| "session_events Leaving i fs evs \<longleftrightarrow> evs = [] \<or> evs = [SessionClosed i]"
| "session_events Gone i fs evs \<longleftrightarrow> evs = []"

lemma running_events_intros:
  "running_events i fs []" "running_events i fs [SessionClosed i]"
  "running_events i fs evs \<Longrightarrow> running_events i (f # fs) (AppFrame i f # evs)"
proof -
  show "running_events i fs []" "running_events i fs [SessionClosed i]"
    by (auto simp: running_events_def intro: exI [of _ "[]"])
  assume "running_events i fs evs"
  then obtain gs hs where "fs = gs @ hs" "evs = map (AppFrame i) gs \<or> evs = map (AppFrame i) gs @ [SessionClosed i]"
    by (auto simp: running_events_def)
  then show "running_events i (f # fs) (AppFrame i f # evs)"
    unfolding running_events_def by (intro exI [of _ "f # gs"] exI [of _ hs]) auto
qed

lemma session_client_events:
  assumes "st_phase t = Running" and "session_step open_app Client t = (t', evs, g)"
    and "session_events (st_phase t') (st_id t') (fst (reader_task (st_reader t') (st_reads t'))) evs'"
  shows "running_events (st_id t) (fst (reader_task (st_reader t) (st_reads t))) (evs @ evs')"
proof (cases "read_frame (st_reader t) (st_reads t)")
  case (Ready x r rest)
  show ?thesis
  proof (cases x)
    case (Inl e)
    with assms Ready show ?thesis
      by (auto simp: session_step_def leave_def intro: running_events_intros)
  next
    case (Inr f)
    with Ready have "fst (reader_task (st_reader t) (st_reads t)) = f # fst (reader_task r rest)"
      by (simp add: reader_task.simps [of "st_reader t"] split: prod.splits)
    with assms Ready Inr show ?thesis
      by (cases open_app) (auto simp: session_step_def leave_def intro: running_events_intros)
  qed
next
  case (Blocked r)
  then have "fst (reader_task r []) = []"
    using read_frame_blocked [OF Blocked] by (simp add: reader_task.simps [of r] read_frame.simps [of r])
  with assms Blocked show ?thesis
    by (auto simp: session_step_def reader_task.simps [of "st_reader t"])
qed

lemma session_run_events:
  "session_run t us = (t', evs) \<Longrightarrow>
   session_events (st_phase t) (st_id t) (fst (reader_task (st_reader t) (st_reads t))) evs"
proof (induction us arbitrary: t t' evs)
  case Nil
  then show ?case by (cases "st_phase t") (auto intro: running_events_intros)
next
  case (Cons x us)
  obtain open_app u where x: "x = (open_app, u)" by (cases x)
  obtain t1 evs1 g where s1: "session_step open_app u t = (t1, evs1, g)" by (metis prod_cases3)
  obtain t2 evs2 where s2: "session_run t1 us = (t2, evs2)" by (metis prod.exhaust)
  have evs: "evs = evs1 @ evs2" using Cons.prems x s1 s2 by simp
  note IH = Cons.IH [OF s2]
  show ?case
  proof (cases "st_phase t = Running \<and> u = Client")
    case True
    with s1 IH evs show ?thesis using session_client_events [of t open_app t1 evs1 g evs2] by simp
  next
    case False
    with s1 IH evs show ?thesis
      by (cases "st_phase t"; cases u)
         (auto simp: session_step_def leave_def intro: running_events_intros split: if_splits)
  qed
qed


definition ex_sid :: session_id where
  "ex_sid = \<lparr>sid_port = ''app'', sid_peer = ''10.0.0.1:4000''\<rparr>"


end
