(* ===== verification/Supervisor.thy ===== *)
theory Supervisor
  imports Reconcile_Props Tcp_Server Config_State Config_Validate
begin

text \<open>
  \<^verbatim>\<open>src/supervisor.rs\<close>: the daemon that runs the bridges and their ports, and moves them from one
  configuration to another by applying a plan. What a bridge is sent over its command channel is
  kept as a list. BlueZ, the DNS-SD announcer and the files are parameters (\<open>sup_env\<close>).
\<close>

section \<open>What runs\<close>

text \<open>A port: inside the bridge task; a TCP server with its live settings, where it listens and whether the
  announcer follows it; a BLE server on an adapter with its limit.\<close>

datatype 'net running_port =
    RP_Tnc
  | RP_Tcp "'net tcp_live" listen bool
  | RP_Ble adapter_sel u32

datatype 'net sup_cmd =
    Cmd_Settings tnc_settings
  | Cmd_Connector "'net port_kind"
  | Cmd_Kick session_id
  | Cmd_Hold "bool option"

record 'net running_bridge =
  rb_cfg :: "'net bridge"
  rb_connector :: "'net port_kind"
  rb_settings :: tnc_settings
  rb_cmds :: "'net sup_cmd list"
  rb_name :: string
  rb_ports :: "(string \<times> 'net running_port) list"

datatype ann_cmd = Ann_Bridge string string string | Ann_Forget string | Ann_Down string string

record 'net daemon =
  dm_cfg :: "'net config"
  dm_bridges :: "(string \<times> 'net running_bridge) list"
  dm_state :: state_store
  dm_announcer :: bool
  dm_announced :: "ann_cmd list"
  dm_log_level :: string
  dm_bluez_errors :: "error list"
  dm_hub :: "(string \<times> string \<times> string) list"
  dm_known_warnings :: "string set"

record 'net sup_env =
  se_connector :: "'net port \<Rightarrow> error option"
  se_add_ble :: "string \<Rightarrow> string \<Rightarrow> error option"
  se_announcer :: bool
  se_store :: "(state \<Rightarrow> state) \<Rightarrow> state_store \<Rightarrow> state_store"
  se_has_log_level :: bool
  se_show :: "problem \<Rightarrow> string"

section \<open>Small parts\<close>

definition get_port :: "'net daemon \<Rightarrow> string \<Rightarrow> string \<Rightarrow> 'net running_port option" where
  "get_port d bridge port =
     (case map_of (dm_bridges d) bridge of None \<Rightarrow> None | Some rb \<Rightarrow> map_of (rb_ports rb) port)"

definition has_port :: "'net daemon \<Rightarrow> string \<Rightarrow> string \<Rightarrow> bool" where
  "has_port d bridge port \<longleftrightarrow> get_port d bridge port \<noteq> None"

text \<open>\<open>get_mut\<close> on a bridge that is running.\<close>

definition with_bridge :: "string \<Rightarrow> ('net running_bridge \<Rightarrow> 'net running_bridge) \<Rightarrow> 'net daemon \<Rightarrow> 'net daemon" where
  "with_bridge i f d =
     (case map_of (dm_bridges d) i of
        None \<Rightarrow> d
      | Some rb \<Rightarrow> d\<lparr>dm_bridges := AList.update i (f rb) (dm_bridges d)\<rparr>)"

definition bridge_cmd :: "string \<Rightarrow> 'net sup_cmd \<Rightarrow> 'net daemon \<Rightarrow> 'net daemon" where
  "bridge_cmd i c = with_bridge i (\<lambda>rb. rb\<lparr>rb_cmds := rb_cmds rb @ [c]\<rparr>)"

definition hub_state :: "string \<Rightarrow> string \<Rightarrow> string \<Rightarrow> 'net daemon \<Rightarrow> 'net daemon" where
  "hub_state kind_name ob st d = d\<lparr>dm_hub := dm_hub d @ [(kind_name, ob, st)]\<rparr>"

definition exit_kiss_setting :: "'net port_kind \<Rightarrow> bool" where
  "exit_kiss_setting k =
     (case k of
        SppClient _ _ _ _ _ e \<Rightarrow> e
      | BleClient _ _ _ _ _ e \<Rightarrow> e
      | Serial _ _ _ _ _ e \<Rightarrow> e
      | _ \<Rightarrow> False)"

definition settings_for :: "'net bridge \<Rightarrow> tnc_settings option" where
  "settings_for b =
     (case tnc_ports b of
        [] \<Rightarrow> None
      | t # _ \<Rightarrow>
          map_option (\<lambda>(connect, idle).
            \<lparr>ts_port_id = p_id t, ts_connect = connect, ts_idle_timeout = idle,
             ts_app_params = b_app_params b, ts_exit_kiss_on_disconnect = exit_kiss_setting (p_kind t)\<rparr>)
            (port_connect_policy t))"

definition announces :: "'net bridge \<Rightarrow> bool" where
  "announces b \<longleftrightarrow> list_ex (\<lambda>p. case p_kind p of TcpServer _ _ _ a \<Rightarrow> a | _ \<Rightarrow> False) (b_ports b)"

text \<open>\<open>effective_public_name\<close> of \<^verbatim>\<open>src/announce.rs\<close>.\<close>

definition effective_public_name ::
  "'net sup_env \<Rightarrow> state_store \<Rightarrow> string \<Rightarrow> string \<Rightarrow> string \<times> state_store" where
  "effective_public_name E st bridge configured =
     (case adjusted_public_name (ss_state st) bridge configured of
        Some adjusted \<Rightarrow> (adjusted, st)
      | None \<Rightarrow>
          (configured,
           if (case fmlookup (ss_state st) bridge of Some b \<Rightarrow> bst_public_name b \<noteq> None | None \<Rightarrow> False)
           then se_store E (\<lambda>s. clear_adjusted_public_name s bridge) st else st))"

section \<open>The announcer\<close>

definition start_announcer :: "'net sup_env \<Rightarrow> 'net daemon \<Rightarrow> 'net daemon" where
  "start_announcer E d = (if dm_announcer d then d else d\<lparr>dm_announcer := se_announcer E\<rparr>)"

definition tell_announcer :: "ann_cmd \<Rightarrow> 'net daemon \<Rightarrow> 'net daemon" where
  "tell_announcer c d = (if dm_announcer d then d\<lparr>dm_announced := dm_announced d @ [c]\<rparr> else d)"

definition announce_bridge :: "'net sup_env \<Rightarrow> 'net bridge \<Rightarrow> 'net daemon \<Rightarrow> 'net daemon" where
  "announce_bridge E b d =
     (case map_of (dm_bridges d) (b_id b) of
        None \<Rightarrow> d
      | Some rb \<Rightarrow> tell_announcer (Ann_Bridge (b_id b) (b_public_name b) (rb_name rb)) (start_announcer E d))"

text \<open>Whether a port follows afterwards: the announcer starts the first time a port announces.\<close>

definition start_following :: "'net sup_env \<Rightarrow> 'net running_port \<Rightarrow> 'net daemon \<Rightarrow> 'net running_port \<times> 'net daemon" where
  "start_following E rp d =
     (let d' = start_announcer E d in
      (if \<not> dm_announcer d' then rp else case rp of RP_Tcp live l f \<Rightarrow> RP_Tcp live l True | _ \<Rightarrow> rp, d'))"

definition public_name_changed :: "'net sup_env \<Rightarrow> 'net bridge \<Rightarrow> 'net daemon \<Rightarrow> 'net daemon" where
  "public_name_changed E b d =
     (let d1 = d\<lparr>dm_state := se_store E (\<lambda>s. clear_adjusted_public_name s (b_id b)) (dm_state d)\<rparr>;
          d2 = with_bridge (b_id b) (\<lambda>rb. rb\<lparr>rb_name := b_public_name b\<rparr>) d1
      in if announces b \<and> map_of (dm_bridges d2) (b_id b) \<noteq> None
         then tell_announcer (Ann_Bridge (b_id b) (b_public_name b) (b_public_name b)) d2 else d2)"

section \<open>Ports\<close>

text \<open>The TNC side of a bridge; \<open>None\<close> is an error, which is logged.\<close>

definition connector_for :: "'net sup_env \<Rightarrow> 'net port \<Rightarrow> 'net daemon \<Rightarrow> 'net port_kind option \<times> 'net daemon" where
  "connector_for E p d =
     (let bt = (case se_connector E p of
                  None \<Rightarrow> (Some (p_kind p), d)
                | Some e \<Rightarrow> (None, d\<lparr>dm_bluez_errors := dm_bluez_errors d @ [e]\<rparr>))
      in case p_kind p of
           TcpClient _ _ _ _ \<Rightarrow> (Some (p_kind p), d)
         | Serial _ _ _ _ _ _ \<Rightarrow> (Some (p_kind p), d)
         | SppClient _ _ _ _ _ _ \<Rightarrow> bt
         | BleClient _ _ _ _ _ _ \<Rightarrow> bt
         | _ \<Rightarrow> (None, d))"

definition object_name :: "string \<Rightarrow> string \<Rightarrow> string" where
  "object_name bridge port = bridge @ ''/'' @ port"

definition insert_port :: "string \<Rightarrow> string \<Rightarrow> 'net running_port \<Rightarrow> 'net daemon \<Rightarrow> 'net daemon" where
  "insert_port bridge port rp = with_bridge bridge (\<lambda>rb. rb\<lparr>rb_ports := btree_insert port rp (rb_ports rb)\<rparr>)"

definition start_port :: "'net sup_env \<Rightarrow> 'net bridge \<Rightarrow> 'net port \<Rightarrow> 'net daemon \<Rightarrow> 'net daemon" where
  "start_port E b p d =
     (if map_of (dm_bridges d) (b_id b) = None then d
      else
        let started_as = (\<lambda>rp d. hub_state ''port'' (object_name (b_id b) (p_id p)) ''started''
                                   (insert_port (b_id b) (p_id p) rp d))
        in case p_kind p of
             TcpServer listen mx allow announce \<Rightarrow>
               (let rp = RP_Tcp \<lparr>max_clients = mx, live_allow = allow\<rparr> listen False;
                    (rp', d') = (if announce then start_following E rp d else (rp, d))
                in started_as rp' d')
           | BleServer adapter mx \<Rightarrow>
               (case se_add_ble E (b_id b) (p_id p) of
                  None \<Rightarrow> started_as (RP_Ble adapter mx) d
                | Some e \<Rightarrow> d\<lparr>dm_bluez_errors := dm_bluez_errors d @ [e]\<rparr>)
           | _ \<Rightarrow> d)"

definition stop_port :: "string \<Rightarrow> string \<Rightarrow> 'net daemon \<Rightarrow> 'net daemon" where
  "stop_port bridge port d =
     (case get_port d bridge port of
        None \<Rightarrow> d
      | Some rp \<Rightarrow>
          (let d1 = with_bridge bridge (\<lambda>rb. rb\<lparr>rb_ports := AList.delete port (rb_ports rb)\<rparr>) d;
               d2 = (case rp of RP_Tcp _ _ _ \<Rightarrow> tell_announcer (Ann_Down bridge port) d1 | _ \<Rightarrow> d1)
           in hub_state ''port'' (object_name bridge port) ''stopped'' d2))"

definition update_port :: "'net sup_env \<Rightarrow> 'net bridge \<Rightarrow> 'net port \<Rightarrow> 'net daemon \<Rightarrow> 'net daemon" where
  "update_port E b p d =
     (case p_kind p of
        TcpServer _ mx allow announce \<Rightarrow>
          (case get_port d (b_id b) (p_id p) of
             Some (RP_Tcp _ l follow) \<Rightarrow>
               (let live = \<lparr>max_clients = mx, live_allow = allow\<rparr> in
                if \<not> announce \<and> follow then
                  tell_announcer (Ann_Down (b_id b) (p_id p)) (insert_port (b_id b) (p_id p) (RP_Tcp live l False) d)
                else if announce \<and> \<not> follow then
                  (case start_following E (RP_Tcp live l False) (announce_bridge E b d) of
                     (rp, d') \<Rightarrow> insert_port (b_id b) (p_id p) rp d')
                else insert_port (b_id b) (p_id p) (RP_Tcp live l follow) d)
           | _ \<Rightarrow> d)
      | BleServer _ mx \<Rightarrow>
          (case get_port d (b_id b) (p_id p) of
             Some (RP_Ble a _) \<Rightarrow> insert_port (b_id b) (p_id p) (RP_Ble a mx) d
           | _ \<Rightarrow> d)
      | _ \<Rightarrow> d)"

section \<open>Bridges\<close>

definition start_bridge :: "'net sup_env \<Rightarrow> 'net bridge \<Rightarrow> 'net daemon \<Rightarrow> 'net daemon" where
  "start_bridge E b d =
     (case tnc_ports b of
        [] \<Rightarrow> d
      | t # _ \<Rightarrow>
          (case connector_for E t d of
             (None, d1) \<Rightarrow> d1
           | (Some c, d1) \<Rightarrow>
               (case settings_for b of
                  None \<Rightarrow> d1
                | Some sts \<Rightarrow>
                    (let d2 = hub_state ''bridge'' (b_id b) ''started'' d1;
                         (name, st) = effective_public_name E (dm_state d2) (b_id b) (b_public_name b);
                         rb = \<lparr>rb_cfg = b, rb_connector = c, rb_settings = sts, rb_cmds = [], rb_name = name,
                               rb_ports = [(p_id t, RP_Tnc)]\<rparr>;
                         d3 = d2\<lparr>dm_state := st, dm_bridges := btree_insert (b_id b) rb (dm_bridges d2)\<rparr>;
                         d4 = (if announces b then announce_bridge E b d3 else d3)
                     in foldl (\<lambda>d p. start_port E b p d) d4 (app_ports b)))))"

definition stop_bridge :: "string \<Rightarrow> 'net daemon \<Rightarrow> 'net daemon" where
  "stop_bridge i d =
     (case map_of (dm_bridges d) i of
        None \<Rightarrow> d
      | Some rb \<Rightarrow>
          (let d1 = foldl (\<lambda>d p. stop_port i p d) d (map fst (rb_ports rb));
               d2 = d1\<lparr>dm_bridges := AList.delete i (dm_bridges d1)\<rparr>
           in tell_announcer (Ann_Forget i) (hub_state ''bridge'' i ''stopped'' d2)))"

section \<open>Applying a plan\<close>

definition find_bridge :: "'net config \<Rightarrow> string \<Rightarrow> 'net bridge option" where
  "find_bridge c i = find (\<lambda>b. b_id b = i) (cfg_bridges c)"

text \<open>Stops.\<close>

definition stop_phase_port :: "string \<Rightarrow> 'net daemon \<Rightarrow> port_plan \<Rightarrow> 'net daemon" where
  "stop_phase_port i d pp =
     (if pp_action pp = action.Stopped \<or> pp_action pp = Restarted \<and> get_port d i (pp_id pp) \<noteq> Some RP_Tnc
      then stop_port i (pp_id pp) d else d)"

definition stop_phase :: "'net daemon \<Rightarrow> bridge_plan \<Rightarrow> 'net daemon" where
  "stop_phase d bp =
     (case bp_action bp of
        action.Stopped \<Rightarrow> stop_bridge (bp_id bp) d
      | Updated \<Rightarrow> foldl (stop_phase_port (bp_id bp)) d (bp_ports bp)
      | _ \<Rightarrow> d)"

text \<open>Live updates.\<close>

definition update_phase_port :: "'net sup_env \<Rightarrow> 'net bridge \<Rightarrow> string \<Rightarrow> 'net daemon \<Rightarrow> port_plan \<Rightarrow> 'net daemon" where
  "update_phase_port E nb i d pp =
     (case bridge_port nb (pp_id pp) of
        None \<Rightarrow> d
      | Some np \<Rightarrow>
          (let d1 =
             (case (pp_action pp, get_port d i (pp_id pp)) of
                (Restarted, Some RP_Tnc) \<Rightarrow>
                  (case connector_for E np d of
                     (Some c, d') \<Rightarrow> bridge_cmd i (Cmd_Connector c) d'
                   | (None, d') \<Rightarrow> d')
              | (Updated, Some _) \<Rightarrow> update_port E nb np d
              | _ \<Rightarrow> d)
           in if pp_action pp = Updated
              then foldl (\<lambda>d s. bridge_cmd i (Cmd_Kick s) d) d1 (pp_disconnects pp) else d1))"

definition update_settings :: "'net bridge \<Rightarrow> bridge_plan \<Rightarrow> 'net daemon \<Rightarrow> 'net daemon" where
  "update_settings nb bp d =
     (let tnc_updated = ''app_params'' \<in> set (bp_changes bp)
        \<or> list_ex (\<lambda>p. pp_action p = Updated \<and> get_port d (bp_id bp) (pp_id p) = Some RP_Tnc) (bp_ports bp)
      in case settings_for nb of
           Some sts \<Rightarrow> if tnc_updated then bridge_cmd (bp_id bp) (Cmd_Settings sts) d else d
         | None \<Rightarrow> d)"

definition update_phase :: "'net sup_env \<Rightarrow> 'net config \<Rightarrow> 'net daemon \<Rightarrow> bridge_plan \<Rightarrow> 'net daemon" where
  "update_phase E new d bp =
     (if bp_action bp \<noteq> Updated then d
      else case find_bridge new (bp_id bp) of
             None \<Rightarrow> d
           | Some nb \<Rightarrow>
               (let d1 = (if ''public_name'' \<in> set (bp_changes bp) then public_name_changed E nb d else d);
                    d2 = update_settings nb bp d1;
                    d3 = foldl (update_phase_port E nb (bp_id bp)) d2 (bp_ports bp)
                in with_bridge (bp_id bp) (\<lambda>rb. rb\<lparr>rb_cfg := nb\<rparr>) d3))"

text \<open>Starts.\<close>

definition start_phase_port :: "'net sup_env \<Rightarrow> 'net bridge \<Rightarrow> string \<Rightarrow> 'net daemon \<Rightarrow> port_plan \<Rightarrow> 'net daemon" where
  "start_phase_port E nb i d pp =
     (if pp_action pp = Started \<or> pp_action pp = Restarted \<and> \<not> has_port d i (pp_id pp)
      then case bridge_port nb (pp_id pp) of Some np \<Rightarrow> start_port E nb np d | None \<Rightarrow> d
      else d)"

definition start_phase :: "'net sup_env \<Rightarrow> 'net config \<Rightarrow> 'net daemon \<Rightarrow> bridge_plan \<Rightarrow> 'net daemon" where
  "start_phase E new d bp =
     (case find_bridge new (bp_id bp) of
        None \<Rightarrow> d
      | Some nb \<Rightarrow>
          (case bp_action bp of
             Started \<Rightarrow> start_bridge E nb d
           | Updated \<Rightarrow> foldl (start_phase_port E nb (bp_id bp)) d (bp_ports bp)
           | _ \<Rightarrow> d))"

definition refresh_cfg :: "'net config \<Rightarrow> string \<times> 'net running_bridge \<Rightarrow> string \<times> 'net running_bridge" where
  "refresh_cfg new p =
     (case find_bridge new (fst p) of Some nb \<Rightarrow> (fst p, (snd p)\<lparr>rb_cfg := nb\<rparr>) | None \<Rightarrow> p)"

definition apply_plan :: "'net sup_env \<Rightarrow> plan \<Rightarrow> 'net config \<Rightarrow> 'net daemon \<Rightarrow> 'net daemon" where
  "apply_plan E pl new d =
     (let d1 = foldl stop_phase d (pl_bridges pl);
          d2 = (if ''log_level'' \<in> set (pl_global pl) \<and> se_has_log_level E
                then d1\<lparr>dm_log_level := g_log_level (cfg_global new)\<rparr> else d1);
          d3 = foldl (update_phase E new) d2 (pl_bridges pl);
          d4 = foldl (start_phase E new) d3 (pl_bridges pl)
      in d4\<lparr>dm_bridges := map (refresh_cfg new) (dm_bridges d4), dm_cfg := new\<rparr>)"

section \<open>Reload\<close>

datatype reload_error = Invalid "problem list" | WouldDisrupt plan

text \<open>\<open>reload\<close>, given what \<open>read_sources\<close> and \<open>build\<close> give for the files on disk and what runs.\<close>

definition reload ::
  "'net sup_env \<Rightarrow> ('net \<Rightarrow> ip_addr \<Rightarrow> bool) \<Rightarrow> runtime \<Rightarrow> bool \<Rightarrow> problem list + 'net config \<times> problem list
   \<Rightarrow> 'net daemon \<Rightarrow> (reload_error + plan \<times> problem list) \<times> 'net daemon" where
  "reload E nc rt non_disruptive built d =
     (case built of
        Inl problems \<Rightarrow> (Inl (Invalid problems), d)
      | Inr (cfg, warnings) \<Rightarrow>
          (let pl = make_plan nc (dm_cfg d) cfg rt in
           if non_disruptive \<and> disruptive pl then (Inl (WouldDisrupt pl), d)
           else
             (let d1 = apply_plan E pl cfg (d\<lparr>dm_known_warnings := se_show E ` set warnings\<rparr>);
                  d2 = (if \<not> is_noop pl then hub_state ''config'' [] ''reloaded'' d1 else d1)
              in (Inr (pl, warnings), d2\<lparr>dm_bluez_errors := []\<rparr>))))"

end
