(* ===== verification/Supervisor_Props.thy ===== *)
theory Supervisor_Props
  imports Supervisor
begin

text \<open>
  Applying a plan leaves the daemon running the new configuration. The daemon is observed bridge by
  bridge: the connector and the settings the bridge was last given, and its running ports.
\<close>

section \<open>What is observed of a bridge\<close>

definition current_connector :: "'net running_bridge \<Rightarrow> 'net port_kind" where
  "current_connector rb = foldl (\<lambda>k c. case c of Cmd_Connector k' \<Rightarrow> k' | _ \<Rightarrow> k) (rb_connector rb) (rb_cmds rb)"

definition current_settings :: "'net running_bridge \<Rightarrow> tnc_settings" where
  "current_settings rb = foldl (\<lambda>s c. case c of Cmd_Settings s' \<Rightarrow> s' | _ \<Rightarrow> s) (rb_settings rb) (rb_cmds rb)"

record 'net view =
  vw_connector :: "'net port_kind"
  vw_settings :: tnc_settings
  vw_ports :: "string \<Rightarrow> 'net running_port option"

definition view_of :: "'net running_bridge \<Rightarrow> 'net view" where
  "view_of rb =
     \<lparr>vw_connector = current_connector rb, vw_settings = current_settings rb, vw_ports = map_of (rb_ports rb)\<rparr>"

definition obs :: "string \<Rightarrow> 'net daemon \<Rightarrow> 'net view option" where
  "obs i d = map_option view_of (map_of (dm_bridges d) i)"

named_theorems obs_simps \<open>what an operation of the daemon changes of a bridge\<close>

lemma get_port_obs: "get_port d i q = Option.bind (obs i d) (\<lambda>v. vw_ports v q)"
  by (simp add: get_port_def obs_def view_of_def split: option.splits)

lemma map_of_btree_insert_any: "map_of (btree_insert k v m) = (map_of m)(k \<mapsto> v)"
  by (induction k v m rule: btree_insert.induct) (auto simp: fun_eq_iff)

lemma obs_with_bridge:
  "obs j (with_bridge i f d) = (if j = i then map_option (view_of \<circ> f) (map_of (dm_bridges d) i) else obs j d)"
  by (auto simp: obs_def with_bridge_def update_conv' split: option.splits)

lemma view_of_simps [simp]:
  "view_of (rb\<lparr>rb_cfg := b\<rparr>) = view_of rb" "view_of (rb\<lparr>rb_name := n\<rparr>) = view_of rb"
  "view_of (rb\<lparr>rb_ports := ps\<rparr>) = (view_of rb)\<lparr>vw_ports := map_of ps\<rparr>" "vw_ports (view_of rb) = map_of (rb_ports rb)"
  by (simp_all add: view_of_def current_connector_def current_settings_def)

fun cmd_view :: "'net sup_cmd \<Rightarrow> 'net view \<Rightarrow> 'net view" where
  "cmd_view (Cmd_Settings s) v = v\<lparr>vw_settings := s\<rparr>"
| "cmd_view (Cmd_Connector k) v = v\<lparr>vw_connector := k\<rparr>"
| "cmd_view (Cmd_Kick i) v = v"
| "cmd_view (Cmd_Hold up) v = v"

lemma obs_bridge_cmd [obs_simps]:
  "obs j (bridge_cmd i c d) = (if j = i then map_option (cmd_view c) (obs i d) else obs j d)"
proof -
  have "view_of (rb\<lparr>rb_cmds := rb_cmds rb @ [c]\<rparr>) = cmd_view c (view_of rb)" for rb :: "'a running_bridge"
    by (cases c) (simp_all add: view_of_def current_connector_def current_settings_def)
  then show ?thesis
    by (simp add: bridge_cmd_def obs_with_bridge) (simp add: obs_def option.map_comp comp_def)
qed

lemma obs_quiet [obs_simps]:
  "obs j (hub_state a b c d) = obs j d" "obs j (tell_announcer ac d) = obs j d"
  "obs j (start_announcer E d) = obs j d" "obs j (announce_bridge E br d) = obs j d"
  "obs j (snd (start_following E rp d)) = obs j d" "obs j (snd (connector_for E p d)) = obs j d"
  "obs j (d\<lparr>dm_bluez_errors := es\<rparr>) = obs j d" "obs j (d\<lparr>dm_state := st\<rparr>) = obs j d"
  "obs j (d\<lparr>dm_log_level := lv\<rparr>) = obs j d" "obs j (d\<lparr>dm_cfg := cf\<rparr>) = obs j d"
  "obs j (d\<lparr>dm_known_warnings := kw\<rparr>) = obs j d"
proof -
  show q: "obs j (tell_announcer ac d) = obs j d" "obs j (start_announcer E d) = obs j d" for ac :: ann_cmd and d :: "'a daemon"
    by (simp_all add: obs_def tell_announcer_def start_announcer_def)
  show "obs j (announce_bridge E br d) = obs j d" by (simp add: announce_bridge_def q split: option.splits)
  show "obs j (snd (start_following E rp d)) = obs j d" by (simp add: start_following_def q Let_def)
  show "obs j (snd (connector_for E p d)) = obs j d"
    by (simp add: connector_for_def obs_def Let_def split: port_kind.splits option.splits)
qed (simp_all add: obs_def hub_state_def)

lemma obs_insert_port [obs_simps]:
  "obs j (insert_port i q rp d) =
     (if j = i then map_option (\<lambda>v. v\<lparr>vw_ports := (vw_ports v)(q \<mapsto> rp)\<rparr>) (obs i d) else obs j d)"
  by (simp add: insert_port_def obs_with_bridge)
     (simp add: obs_def option.map_comp comp_def map_of_btree_insert_any)

lemma obs_public_name [obs_simps]: "obs j (public_name_changed E b d) = obs j d"
proof -
  have "obs j (with_bridge (b_id b) (\<lambda>rb. rb\<lparr>rb_name := b_public_name b\<rparr>) d') = obs j d'" for d' :: "'a daemon"
    by (simp add: obs_with_bridge) (simp add: obs_def comp_def)
  then show ?thesis by (simp add: public_name_changed_def Let_def obs_simps)
qed

lemma obs_set_cfg [obs_simps]: "obs j (with_bridge i (\<lambda>rb. rb\<lparr>rb_cfg := b\<rparr>) d) = obs j d"
  by (simp add: obs_with_bridge) (simp add: obs_def comp_def)

lemma obs_stop_port [obs_simps]:
  "obs j (stop_port i q d) = (if j = i then map_option (\<lambda>v. v\<lparr>vw_ports := (vw_ports v)(q := None)\<rparr>) (obs i d) else obs j d)"
proof (cases "get_port d i q")
  case None
  then have "map_option (\<lambda>v. v\<lparr>vw_ports := (vw_ports v)(q := None)\<rparr>) (obs i d) = obs i d"
    by (cases "obs i d") (auto simp: get_port_obs fun_upd_idem)
  with None show ?thesis by (simp add: stop_port_def)
next
  case (Some rp)
  have "obs j (with_bridge i (\<lambda>rb. rb\<lparr>rb_ports := AList.delete q (rb_ports rb)\<rparr>) d) =
      (if j = i then map_option (\<lambda>v. v\<lparr>vw_ports := (vw_ports v)(q := None)\<rparr>) (obs i d) else obs j d)"
    by (simp add: obs_with_bridge) (simp add: obs_def option.map_comp comp_def delete_conv')
  with Some show ?thesis
    by (cases rp) (simp_all add: stop_port_def Let_def obs_simps)
qed

section \<open>Ports, when BlueZ and Avahi are there\<close>

definition env_ok :: "'net sup_env \<Rightarrow> bool" where
  "env_ok E \<longleftrightarrow> se_announcer E \<and> (\<forall>b p. se_add_ble E b p = None)"

definition started_as :: "'net port \<Rightarrow> 'net running_port option" where
  "started_as p =
     (case p_kind p of
        TcpServer l mx allow an \<Rightarrow> Some (RP_Tcp \<lparr>max_clients = mx, live_allow = allow\<rparr> l an)
      | BleServer a mx \<Rightarrow> Some (RP_Ble a mx)
      | _ \<Rightarrow> None)"

definition updated_as :: "'net port \<Rightarrow> 'net running_port \<Rightarrow> 'net running_port" where
  "updated_as p rp =
     (case (p_kind p, rp) of
        (TcpServer _ mx allow an, RP_Tcp _ l _) \<Rightarrow> RP_Tcp \<lparr>max_clients = mx, live_allow = allow\<rparr> l an
      | (BleServer _ mx, RP_Ble a _) \<Rightarrow> RP_Ble a mx
      | _ \<Rightarrow> rp)"

lemma start_following_ok: "env_ok E \<Longrightarrow> start_following E (RP_Tcp live l f) d = (RP_Tcp live l True, start_announcer E d)"
  by (simp add: start_following_def env_ok_def start_announcer_def Let_def)

lemma obs_start_port [obs_simps]:
  assumes "env_ok E"
  shows "obs j (start_port E b p d) =
    (if j = b_id b then map_option (\<lambda>v. case started_as p of Some rp \<Rightarrow> v\<lparr>vw_ports := (vw_ports v)(p_id p \<mapsto> rp)\<rparr> | None \<Rightarrow> v) (obs j d)
     else obs j d)"
proof (cases "map_of (dm_bridges d) (b_id b)")
  case None
  then have "obs (b_id b) d = None" by (simp add: obs_def)
  with None show ?thesis by (simp add: start_port_def)
next
  case (Some rb)
  with assms show ?thesis
    by (cases "p_kind p")
       (auto simp: start_port_def started_as_def start_following_ok env_ok_def obs_simps option.map_ident Let_def)
qed

lemma obs_update_port [obs_simps]:
  assumes "env_ok E"
  shows "obs j (update_port E b p d) =
    (if j = b_id b then map_option (\<lambda>v. v\<lparr>vw_ports := (vw_ports v)(p_id p := map_option (updated_as p) (vw_ports v (p_id p)))\<rparr>) (obs j d)
     else obs j d)"
proof -
  have same: "map_option (\<lambda>v. v\<lparr>vw_ports := (vw_ports v)(p_id p := map_option (updated_as p) (vw_ports v (p_id p)))\<rparr>) (obs (b_id b) d) = obs (b_id b) d"
    if "\<And>v rp. obs (b_id b) d = Some v \<Longrightarrow> vw_ports v (p_id p) = Some rp \<Longrightarrow> updated_as p rp = rp"
  proof (cases "obs (b_id b) d")
    case (Some v)
    with that have "map_option (updated_as p) (vw_ports v (p_id p)) = vw_ports v (p_id p)"
      by (cases "vw_ports v (p_id p)") auto
    with Some show ?thesis by simp
  qed simp
  show ?thesis
  proof (cases "get_port d (b_id b) (p_id p)")
    case None
    then have "updated_as p rp = rp" if "obs (b_id b) d = Some v" "vw_ports v (p_id p) = Some rp" for v rp
      using that by (simp add: get_port_obs)
    with None same show ?thesis by (auto simp: update_port_def split: port_kind.splits)
  next
    case (Some rp)
    then obtain v where v: "obs (b_id b) d = Some v" "vw_ports v (p_id p) = Some rp"
      by (auto simp: get_port_obs bind_eq_Some_conv)
    show ?thesis
    proof (cases "updated_as p rp = rp \<and> update_port E b p d = d")
      case True
      with v have "(vw_ports v)(p_id p := map_option (updated_as p) (vw_ports v (p_id p))) = vw_ports v" by auto
      with True v show ?thesis by simp
    next
      case False
      with Some v assms show ?thesis
        by (cases "p_kind p"; cases rp)
           (auto simp: update_port_def updated_as_def start_following_ok obs_simps Let_def)
    qed
  qed
qed

section \<open>Folds over plans\<close>

text \<open>Entries with distinct keys act independently: what is observed under a key changes by its entry only.\<close>

lemma foldl_other: "(\<And>d y. y \<in> set xs \<Longrightarrow> G (f d y) = G d) \<Longrightarrow> G (foldl f d xs) = G d"
  by (induction xs arbitrary: d) auto

lemma foldl_local:
  assumes "distinct (map key xs)" and "x \<in> set xs"
    and "\<And>d y. y \<in> set xs \<Longrightarrow> key x \<noteq> key y \<Longrightarrow> G (f d y) = G d"
    and "\<And>d. P (G d) \<Longrightarrow> Q (G (f d x))" and "P (G d)"
  shows "Q (G (foldl f d xs))"
proof -
  obtain ys zs where xs: "xs = ys @ x # zs" using assms(2) by (auto simp: in_set_conv_decomp)
  have "key x \<notin> key ` (set ys \<union> set zs)" using assms(1) xs by (simp add: image_Un)
  then have "key x \<noteq> key y" if "y \<in> set ys \<union> set zs" for y using that by (metis imageI)
  then have "G (foldl f d' ys) = G d'" "G (foldl f d' zs) = G d'" for d'
    using assms(3) xs by (auto intro!: foldl_other)
  with assms(4,5) xs show ?thesis by simp
qed

section \<open>The three phases on an updated bridge\<close>

definition stop_eff :: "port_plan \<Rightarrow> 'net running_port option \<Rightarrow> 'net running_port option" where
  "stop_eff pp x =
     (if pp_action pp = action.Stopped \<or> pp_action pp = Restarted \<and> x \<noteq> Some RP_Tnc then None else x)"

definition update_eff :: "'net bridge \<Rightarrow> port_plan \<Rightarrow> 'net running_port option \<Rightarrow> 'net running_port option" where
  "update_eff nb pp x =
     (case bridge_port nb (pp_id pp) of
        Some np \<Rightarrow> if pp_action pp = Updated then map_option (updated_as np) x else x
      | None \<Rightarrow> x)"

definition start_eff :: "'net bridge \<Rightarrow> port_plan \<Rightarrow> 'net running_port option \<Rightarrow> 'net running_port option" where
  "start_eff nb pp x =
     (case bridge_port nb (pp_id pp) of
        Some np \<Rightarrow>
          if pp_action pp = Started \<or> pp_action pp = Restarted \<and> x = None
          then (case started_as np of Some rp \<Rightarrow> Some rp | None \<Rightarrow> x) else x
      | None \<Rightarrow> x)"

text \<open>A port of an updated bridge: its entry in the plan.\<close>

definition entry :: "bridge_plan \<Rightarrow> string \<Rightarrow> port_plan option" where
  "entry bp q = find (\<lambda>pp. pp_id pp = q) (bp_ports bp)"

definition at_entry :: "(port_plan \<Rightarrow> 'a \<Rightarrow> 'a) \<Rightarrow> bridge_plan \<Rightarrow> string \<Rightarrow> 'a \<Rightarrow> 'a" where
  "at_entry e bp q x = (case entry bp q of None \<Rightarrow> x | Some pp \<Rightarrow> e pp x)"

definition alive :: "string \<Rightarrow> 'net daemon \<Rightarrow> bool" where
  "alive i d \<longleftrightarrow> obs i d \<noteq> None"

lemma stop_phase_port_obs:
  "obs j (stop_phase_port i d pp) =
     (if j = i then map_option (\<lambda>v. v\<lparr>vw_ports := (vw_ports v)(pp_id pp := stop_eff pp (vw_ports v (pp_id pp)))\<rparr>) (obs i d)
      else obs j d)"
proof (cases "obs i d")
  case None
  then show ?thesis by (simp add: stop_phase_port_def obs_simps)
next
  case (Some v)
  then show ?thesis
    by (auto simp: stop_phase_port_def obs_simps get_port_obs stop_eff_def)
qed

lemma start_phase_port_obs:
  assumes "env_ok E" and "b_id nb = i"
  shows "obs j (start_phase_port E nb i d pp) =
     (if j = i then map_option (\<lambda>v. v\<lparr>vw_ports := (vw_ports v)(pp_id pp := start_eff nb pp (vw_ports v (pp_id pp)))\<rparr>) (obs i d)
      else obs j d)"
proof (cases "obs i d")
  case None
  with assms show ?thesis by (simp add: start_phase_port_def obs_simps split: option.splits)
next
  case (Some v)
  have "bridge_port nb q = Some np \<Longrightarrow> p_id np = q" for q np by (auto dest: bridge_port_in)
  with Some assms show ?thesis
    by (auto simp: start_phase_port_def has_port_def obs_simps get_port_obs start_eff_def fun_upd_idem split: option.splits)
qed

lemma find_distinct_None: "distinct (map key (x # xs)) \<Longrightarrow> find (\<lambda>y. key y = key x) xs = None"
  by (simp add: find_None_iff) (metis imageI)

lemma ports_fold:
  assumes "distinct (map key pps)" and "obs i d = Some v"
    and step: "\<And>d pp. obs i (f d pp) =
      map_option (\<lambda>v. v\<lparr>vw_ports := (vw_ports v)(key pp := e pp (vw_ports v (key pp)))\<rparr>) (obs i d)"
  shows "obs i (foldl f d pps) =
    Some (v\<lparr>vw_ports := (\<lambda>q. case find (\<lambda>pp. key pp = q) pps of None \<Rightarrow> vw_ports v q | Some pp \<Rightarrow> e pp (vw_ports v q))\<rparr>)"
  using assms(1,2)
proof (induction pps arbitrary: d v)
  case (Cons pp pps)
  let ?v = "v\<lparr>vw_ports := (vw_ports v)(key pp := e pp (vw_ports v (key pp)))\<rparr>"
  have "obs i (foldl f d (pp # pps)) =
      Some (?v\<lparr>vw_ports := (\<lambda>q. case find (\<lambda>pp. key pp = q) pps of None \<Rightarrow> vw_ports ?v q | Some pp \<Rightarrow> e pp (vw_ports ?v q))\<rparr>)"
    using Cons.IH [of "f d pp" ?v] Cons.prems step [of d pp] by simp
  also have "?v\<lparr>vw_ports := (\<lambda>q. case find (\<lambda>pp. key pp = q) pps of None \<Rightarrow> vw_ports ?v q | Some pp \<Rightarrow> e pp (vw_ports ?v q))\<rparr>
      = v\<lparr>vw_ports := (\<lambda>q. case find (\<lambda>pp. key pp = q) (pp # pps) of None \<Rightarrow> vw_ports v q | Some pp \<Rightarrow> e pp (vw_ports v q))\<rparr>"
    using find_distinct_None [OF Cons.prems(1)] by (auto intro!: arg_cong [of _ _ "\<lambda>h. v\<lparr>vw_ports := h\<rparr>"] ext split: option.splits)
  finally show ?case .
qed simp

lemma stop_phase_obs:
  assumes "bp_action bp = Updated" and "distinct (map pp_id (bp_ports bp))" and "obs (bp_id bp) d = Some v"
  shows "obs (bp_id bp) (stop_phase d bp) = Some (v\<lparr>vw_ports := (\<lambda>q. at_entry stop_eff bp q (vw_ports v q))\<rparr>)"
  using assms ports_fold [where key = pp_id, OF assms(2,3), of "stop_phase_port (bp_id bp)" stop_eff]
  by (simp add: stop_phase_def at_entry_def entry_def stop_phase_port_obs)

lemma start_phase_obs:
  assumes "env_ok E" and "find_bridge new (bp_id bp) = Some nb" and "b_id nb = bp_id bp"
    and "bp_action bp = Updated" and "distinct (map pp_id (bp_ports bp))" and "obs (bp_id bp) d = Some v"
  shows "obs (bp_id bp) (start_phase E new d bp) = Some (v\<lparr>vw_ports := (\<lambda>q. at_entry (start_eff nb) bp q (vw_ports v q))\<rparr>)"
  using assms ports_fold [where key = pp_id, OF assms(5,6), of "start_phase_port E nb (bp_id bp)" "start_eff nb"]
  by (simp add: start_phase_def at_entry_def entry_def start_phase_port_obs)

text \<open>The updates also give the bridge a connector, when its TNC port restarts.\<close>

definition connectable :: "'net sup_env \<Rightarrow> 'net port \<Rightarrow> bool" where
  "connectable E p \<longleftrightarrow> port_connect_policy p \<noteq> None \<and> se_connector E p = None"

lemma connector_for_ok: "connectable E p \<Longrightarrow> connector_for E p d = (Some (p_kind p), d)"
  by (cases "p_kind p") (simp_all add: connectable_def connector_for_def port_connect_policy_def)

definition new_connector :: "'net bridge \<Rightarrow> port_plan \<Rightarrow> 'net view \<Rightarrow> 'net port_kind" where
  "new_connector nb pp v =
     (if pp_action pp = Restarted \<and> vw_ports v (pp_id pp) = Some RP_Tnc
      then case bridge_port nb (pp_id pp) of Some np \<Rightarrow> p_kind np | None \<Rightarrow> vw_connector v
      else vw_connector v)"

lemma obs_kicks: "obs j (foldl (\<lambda>d s. bridge_cmd i (Cmd_Kick s) d) d ss) = obs j d"
proof (rule foldl_other)
  have id: "cmd_view (Cmd_Kick s) = (\<lambda>v. v)" for s by (rule ext) simp
  show "obs j (bridge_cmd i (Cmd_Kick s) d) = obs j d" for d :: "'a daemon" and s
    unfolding obs_bridge_cmd id by (simp add: option.map_ident)
qed

lemma update_phase_port_obs:
  assumes "env_ok E" and "b_id nb = i" and "\<And>np. bridge_port nb (pp_id pp) = Some np \<Longrightarrow>
      vw_ports v (pp_id pp) = Some RP_Tnc \<Longrightarrow> connectable E np" and "obs i d = Some v"
  shows "obs i (update_phase_port E nb i d pp) =
     Some (v\<lparr>vw_ports := (vw_ports v)(pp_id pp := update_eff nb pp (vw_ports v (pp_id pp))),
             vw_connector := new_connector nb pp v\<rparr>)"
proof (cases "bridge_port nb (pp_id pp)")
  case None
  with assms show ?thesis by (simp add: update_phase_port_def update_eff_def new_connector_def)
next
  case (Some np)
  then have np: "p_id np = pp_id pp" by (auto dest: bridge_port_in)
  show ?thesis
  proof (cases "pp_action pp")
    case Restarted
    with Some assms show ?thesis
      by (cases "vw_ports v (pp_id pp) = Some RP_Tnc")
         (auto simp: update_phase_port_def update_eff_def new_connector_def get_port_obs connector_for_ok obs_simps
           fun_upd_idem split: option.splits running_port.splits)
  next
    case Updated
    with Some assms np show ?thesis
      by (cases "vw_ports v (pp_id pp)")
         (auto simp: update_phase_port_def update_eff_def new_connector_def get_port_obs obs_kicks obs_simps fun_upd_idem)
  qed (use Some assms in \<open>auto simp: update_phase_port_def update_eff_def new_connector_def\<close>)
qed

lemma update_fold:
  assumes "env_ok E" and "b_id nb = i" and "distinct (map pp_id pps)" and "obs i d = Some v"
    and "\<forall>q. vw_ports v q = Some RP_Tnc \<longleftrightarrow> q = t"
    and "\<And>np. bridge_port nb t = Some np \<Longrightarrow> connectable E np"
  shows "obs i (foldl (update_phase_port E nb i) d pps) =
    Some (v\<lparr>vw_ports := (\<lambda>q. case find (\<lambda>pp. pp_id pp = q) pps of None \<Rightarrow> vw_ports v q | Some pp \<Rightarrow> update_eff nb pp (vw_ports v q)),
            vw_connector := (case find (\<lambda>pp. pp_id pp = t) pps of None \<Rightarrow> vw_connector v | Some pp \<Rightarrow> new_connector nb pp v)\<rparr>)"
  using assms(3-5)
proof (induction pps arbitrary: d v)
  case (Cons pp pps)
  define v' where "v' = v\<lparr>vw_ports := (vw_ports v)(pp_id pp := update_eff nb pp (vw_ports v (pp_id pp))),
      vw_connector := new_connector nb pp v\<rparr>"
  have d': "obs i (update_phase_port E nb i d pp) = Some v'"
    unfolding v'_def using assms(6) Cons.prems(3) by (intro update_phase_port_obs [OF assms(1,2) _ Cons.prems(2)]) auto
  have "update_eff nb pp x = Some RP_Tnc \<longleftrightarrow> x = Some RP_Tnc" for x
    by (cases x rule: option.exhaust)
       (auto simp: update_eff_def updated_as_def split: option.splits port_kind.splits running_port.splits)
  then have tnc': "\<forall>q. vw_ports v' q = Some RP_Tnc \<longleftrightarrow> q = t" using Cons.prems(3) by (auto simp: v'_def)
  note fd = find_distinct_None [OF Cons.prems(1)]
  have ports: "(\<lambda>q. case find (\<lambda>pp. pp_id pp = q) pps of None \<Rightarrow> vw_ports v' q | Some pp \<Rightarrow> update_eff nb pp (vw_ports v' q))
      = (\<lambda>q. case find (\<lambda>pp. pp_id pp = q) (pp # pps) of None \<Rightarrow> vw_ports v q | Some pp \<Rightarrow> update_eff nb pp (vw_ports v q))"
    using fd by (auto simp: v'_def fun_eq_iff split: option.splits)
  have conn: "(case find (\<lambda>pp. pp_id pp = t) pps of None \<Rightarrow> vw_connector v' | Some pp \<Rightarrow> new_connector nb pp v')
      = (case find (\<lambda>pp. pp_id pp = t) (pp # pps) of None \<Rightarrow> vw_connector v | Some pp \<Rightarrow> new_connector nb pp v)"
  proof (cases "pp_id pp = t")
    case True
    with fd show ?thesis by (auto simp: v'_def)
  next
    case False
    then have "vw_connector v' = vw_connector v" using Cons.prems(3) by (simp add: v'_def new_connector_def)
    moreover from this have "new_connector nb pp' v' = new_connector nb pp' v" if "pp_id pp' = t" for pp'
      using that False by (simp add: new_connector_def v'_def split: option.splits)
    ultimately show ?thesis
    proof (cases "find (\<lambda>pp. pp_id pp = t) pps")
      case (Some pp')
      then have "pp_id pp' = t" by (auto simp: find_Some_iff)
      with Some \<open>pp_id pp \<noteq> t\<close> \<open>pp_id pp' = t \<Longrightarrow> new_connector nb pp' v' = new_connector nb pp' v\<close> show ?thesis by simp
    qed (simp add: False)
  qed
  show ?case using Cons.IH [OF _ d' tnc'] Cons.prems(1) ports conn by (simp add: v'_def)
qed simp

definition settings_sent :: "bridge_plan \<Rightarrow> 'net view \<Rightarrow> bool" where
  "settings_sent bp v \<longleftrightarrow> ''app_params'' \<in> set (bp_changes bp)
     \<or> (\<exists>pp \<in> set (bp_ports bp). pp_action pp = Updated \<and> vw_ports v (pp_id pp) = Some RP_Tnc)"

lemma update_phase_obs:
  assumes "env_ok E" and "find_bridge new (bp_id bp) = Some nb" and "b_id nb = bp_id bp"
    and "bp_action bp = Updated" and "distinct (map pp_id (bp_ports bp))" and "obs (bp_id bp) d = Some v"
    and "\<forall>q. vw_ports v q = Some RP_Tnc \<longleftrightarrow> q = t" and "\<And>np. bridge_port nb t = Some np \<Longrightarrow> connectable E np"
    and "settings_for nb = Some sts"
  shows "obs (bp_id bp) (update_phase E new d bp) =
    Some \<lparr>vw_connector = at_entry (\<lambda>pp _. new_connector nb pp v) bp t (vw_connector v),
          vw_settings = (if settings_sent bp v then sts else vw_settings v),
          vw_ports = (\<lambda>q. at_entry (update_eff nb) bp q (vw_ports v q))\<rparr>"
proof -
  define d1 where "d1 = (if ''public_name'' \<in> set (bp_changes bp) then public_name_changed E nb d else d)"
  define v1 where "v1 = (if settings_sent bp v then v\<lparr>vw_settings := sts\<rparr> else v)"
  have d1: "obs (bp_id bp) d1 = Some v" using assms(6) by (simp add: d1_def obs_simps)
  have d2: "obs (bp_id bp) (update_settings nb bp d1) = Some v1"
    using d1 assms(9)
    by (auto simp: update_settings_def settings_sent_def v1_def get_port_obs list_ex_iff obs_simps)
  have v1: "vw_ports v1 = vw_ports v" "vw_connector v1 = vw_connector v" "new_connector nb pp v1 = new_connector nb pp v" for pp
    by (auto simp: v1_def new_connector_def split: option.splits)
  note fold = update_fold [OF assms(1,3,5) d2, of t, unfolded v1, OF assms(7,8)]
  have "obs (bp_id bp) (update_phase E new d bp) =
      obs (bp_id bp) (foldl (update_phase_port E nb (bp_id bp)) (update_settings nb bp d1) (bp_ports bp))"
    using assms(2,4) by (simp add: update_phase_def d1_def Let_def obs_simps)
  also have "\<dots> = Some (v1\<lparr>vw_ports := (\<lambda>q. at_entry (update_eff nb) bp q (vw_ports v q)),
      vw_connector := at_entry (\<lambda>pp _. new_connector nb pp v) bp t (vw_connector v)\<rparr>)"
    using fold by (simp add: at_entry_def entry_def)
  finally show ?thesis by (simp add: v1_def)
qed

section \<open>Running a bridge as configured\<close>

text \<open>The same link for a connector: the same device, adapters up to how they are named.\<close>

fun same_link :: "runtime \<Rightarrow> 'net port_kind \<Rightarrow> 'net port_kind \<Rightarrow> bool" where
  "same_link rt (TcpClient h p _ _) (TcpClient h' p' _ _) \<longleftrightarrow> h = h' \<and> p = p'"
| "same_link rt (SppClient _ m x _ _ _) (SppClient _ m' y _ _ _) \<longleftrightarrow>
     m = m' \<and> spp_address x = spp_address y \<and> spp_channel x = spp_channel y \<and> same_adapter rt (spp_adapter x) (spp_adapter y)"
| "same_link rt (BleClient _ m x _ _ _) (BleClient _ m' y _ _ _) \<longleftrightarrow>
     m = m' \<and> ble_address x = ble_address y \<and> same_adapter rt (ble_adapter x) (ble_adapter y)"
| "same_link rt (Serial _ m x _ _ _) (Serial _ m' y _ _ _) \<longleftrightarrow> m = m' \<and> x = y"
| "same_link rt _ _ \<longleftrightarrow> False"

text \<open>A running port, for the port of the configuration with its id. A client port of an app is not supported
  and does not run.\<close>

fun port_runs :: "runtime \<Rightarrow> 'net port option \<Rightarrow> 'net running_port option \<Rightarrow> bool" where
  "port_runs rt None x \<longleftrightarrow> x = None"
| "port_runs rt (Some p) None \<longleftrightarrow> p_role p = Role_App \<and> started_as p = None"
| "port_runs rt (Some p) (Some RP_Tnc) \<longleftrightarrow> p_role p = Role_Tnc"
| "port_runs rt (Some p) (Some (RP_Tcp live l f)) \<longleftrightarrow>
     p_role p = Role_App \<and> p_kind p = TcpServer l (max_clients live) (live_allow live) f"
| "port_runs rt (Some p) (Some (RP_Ble a mx)) \<longleftrightarrow>
     p_role p = Role_App \<and> (\<exists>a'. p_kind p = BleServer a' mx \<and> same_adapter rt a a')"

definition runs :: "runtime \<Rightarrow> 'net bridge \<Rightarrow> 'net view \<Rightarrow> bool" where
  "runs rt b v \<longleftrightarrow>
     (\<exists>t. tnc_ports b = [t] \<and> same_link rt (vw_connector v) (p_kind t))
     \<and> settings_for b = Some (vw_settings v)
     \<and> (\<forall>q. port_runs rt (bridge_port b q) (vw_ports v q))"

lemma same_adapter_trans: "same_adapter rt a b \<Longrightarrow> same_adapter rt b c \<Longrightarrow> same_adapter rt a c"
  by (auto simp: same_adapter_def split: if_splits option.splits)

lemma same_adapter_refl [simp]: "same_adapter rt a a"
  by (simp add: same_adapter_def)

lemma same_link_trans: "same_link rt a b \<Longrightarrow> same_link rt b c \<Longrightarrow> same_link rt a c"
  by (cases a; cases b; cases c) (auto elim: same_adapter_trans)

lemma same_link_refl: "port_connect_policy p \<noteq> None \<Longrightarrow> same_link rt (p_kind p) (p_kind p)"
  by (cases "p_kind p") (auto simp: port_connect_policy_def)

lemma kind_equiv_link:
  assumes "kind_equiv rt (p_kind p) (p_kind q)"
  shows "port_connect_policy p \<noteq> None \<Longrightarrow> same_link rt (p_kind p) (p_kind q)"
    "port_connect_policy p = port_connect_policy q" "exit_kiss_setting (p_kind p) = exit_kiss_setting (p_kind q)"
proof -
  show "port_connect_policy p \<noteq> None \<Longrightarrow> same_link rt (p_kind p) (p_kind q)"
    using assms by (cases "p_kind p"; cases "p_kind q") (auto simp: port_connect_policy_def)
  show "port_connect_policy p = port_connect_policy q"
    using assms by (cases "p_kind p") (auto simp: port_connect_policy_def)
  show "exit_kiss_setting (p_kind p) = exit_kiss_setting (p_kind q)"
    using assms by (cases "p_kind p") (auto simp: exit_kiss_setting_def)
qed

text \<open>What a comparison of two ports means when the port is not restarted.\<close>

lemma compare_port_kept:
  assumes "pp_action (compare_port nc br p q rt) \<noteq> Restarted"
  shows "p_role p = p_role q" "type_name p = type_name q"
    "port_connect_policy p \<noteq> None \<Longrightarrow> same_link rt (p_kind p) (p_kind q)"
    "p_kind p = TcpServer l mx al an \<Longrightarrow> \<exists>mx al an. p_kind q = TcpServer l mx al an"
    "p_kind p = BleServer a m \<Longrightarrow> \<exists>a' m'. p_kind q = BleServer a' m' \<and> same_adapter rt a a'"
proof -
  show rt: "p_role p = p_role q" "type_name p = type_name q"
    using assms by (auto simp: compare_port_def Let_def split: prod.splits if_splits)
  show "port_connect_policy p \<noteq> None \<Longrightarrow> same_link rt (p_kind p) (p_kind q)"
    using assms rt by (cases "p_kind p"; cases "p_kind q")
      (auto simp: compare_port_def Let_def type_name_def port_connect_policy_def split: if_splits)
  show "p_kind p = TcpServer l mx al an \<Longrightarrow> \<exists>mx al an. p_kind q = TcpServer l mx al an"
    using assms rt by (cases "p_kind q") (auto simp: compare_port_def Let_def type_name_def split: if_splits)
  show "p_kind p = BleServer a m \<Longrightarrow> \<exists>a' m'. p_kind q = BleServer a' m' \<and> same_adapter rt a a'"
    using assms rt by (cases "p_kind q") (auto simp: compare_port_def Let_def type_name_def split: if_splits)
qed

lemma port_runs_equiv:
  assumes "port_equiv rt p q" and "port_runs rt (Some p) x"
  shows "port_runs rt (Some q) x"
proof (cases x)
  case None
  with assms show ?thesis
    by (cases "p_kind p") (auto simp: port_equiv_def started_as_def)
next
  case (Some rp)
  with assms show ?thesis
    by (cases rp) (auto simp: port_equiv_def, blast intro: same_adapter_trans)
qed

lemma port_runs_updated:
  assumes "pp_action (compare_port nc br p q rt) \<noteq> Restarted" and "port_runs rt (Some p) x"
  shows "port_runs rt (Some q) (map_option (updated_as q) x)"
proof (cases x)
  case None
  with assms compare_port_kept(1,2) [OF assms(1)] show ?thesis
    by (cases "p_kind p"; cases "p_kind q") (auto simp: started_as_def type_name_def)
next
  case (Some rp)
  show ?thesis
  proof (cases rp)
    case RP_Tnc
    with Some assms(2) compare_port_kept(1) [OF assms(1)] show ?thesis
      by (cases "p_kind q") (auto simp: updated_as_def)
  next
    case (RP_Tcp live l f)
    with Some assms(2) have "p_kind p = TcpServer l (max_clients live) (live_allow live) f" "p_role p = Role_App" by auto
    with compare_port_kept(1,4) [OF assms(1)] Some RP_Tcp show ?thesis by (fastforce simp: updated_as_def)
  next
    case (RP_Ble a m)
    with Some assms(2) obtain a' where "p_kind p = BleServer a' m" "p_role p = Role_App" "same_adapter rt a a'" by auto
    with compare_port_kept(1,5) [OF assms(1)] Some RP_Ble show ?thesis
      by (fastforce simp: updated_as_def elim: same_adapter_trans)
  qed
qed

section \<open>One updated bridge\<close>

lemma find_map_key: "find P (map f xs) = map_option f (find (P \<circ> f) xs)"
  by (induction xs) auto

lemma find_filter_other: "(\<And>x. x \<in> set xs \<Longrightarrow> P x \<Longrightarrow> R x) \<Longrightarrow> find P (filter R xs) = find P xs"
  by (induction xs) auto

lemma pp_id_simps [simp]: "pp_id (stopped rt i p) = p_id p" "pp_id (kept_plan nc ob rt p) = p_id p"
    "pp_id (started p) = p_id p" "pp_id (compare_port nc i op p rt) = p_id p"
  by (auto simp: stopped_def kept_plan_def compare_port_def started_def Let_def split: option.splits prod.splits)

lemma compare_ids_distinct:
  "distinct (map p_id (b_ports ob)) \<Longrightarrow> distinct (map p_id (b_ports nb)) \<Longrightarrow>
   distinct (map pp_id (bp_ports (compare_bridge nc ob nb rt)))"
  by (auto simp: compare_bridge_ports comp_def distinct_map_filter)

lemma entry_compare:
  "entry (compare_bridge nc ob nb rt) q =
     (case bridge_port nb q of
        Some np \<Rightarrow> Some (kept_plan nc ob rt np)
      | None \<Rightarrow> map_option (stopped rt (b_id ob)) (bridge_port ob q))"
proof (cases "bridge_port nb q")
  case None
  then have "find (\<lambda>p. p_id p = q) (filter (\<lambda>op. p_id op \<notin> p_id ` set (b_ports nb)) (b_ports ob)) = bridge_port ob q"
    unfolding bridge_port_def by (intro find_filter_other) (auto simp: find_None_iff)
  with None show ?thesis
    by (cases "bridge_port ob q")
       (simp_all add: entry_def compare_bridge_ports find_append find_map_key comp_def bridge_port_def)
next
  case (Some np)
  then have "q \<in> p_id ` set (b_ports nb)" by (auto dest: bridge_port_in)
  then have "find (\<lambda>p. p_id p = q) (filter (\<lambda>op. p_id op \<notin> p_id ` set (b_ports nb)) (b_ports ob)) = None"
    by (auto simp: find_None_iff)
  with Some show ?thesis
    by (simp add: entry_def compare_bridge_ports find_append find_map_key comp_def bridge_port_def)
qed

text \<open>A port id keeps its role, and a new one belongs to an app.\<close>

definition roles_kept :: "'net bridge \<Rightarrow> 'net bridge \<Rightarrow> bool" where
  "roles_kept ob nb \<longleftrightarrow> (\<forall>q np. bridge_port nb q = Some np \<longrightarrow>
     (\<forall>op. bridge_port ob q = Some op \<longrightarrow> p_role op = p_role np) \<and> (bridge_port ob q = None \<longrightarrow> p_role np = Role_App))"

lemma roles_keptD:
  "roles_kept ob nb \<Longrightarrow> bridge_port nb q = Some np \<Longrightarrow> bridge_port ob q = None \<Longrightarrow> p_role np = Role_App"
  "roles_kept ob nb \<Longrightarrow> bridge_port nb q = Some np \<Longrightarrow> bridge_port ob q = Some op \<Longrightarrow> p_role op = p_role np"
  unfolding roles_kept_def by blast+

lemma port_runs_started: "p_role p = Role_App \<Longrightarrow> port_runs rt (Some p) (started_as p)"
  by (cases "p_kind p") (auto simp: started_as_def)

lemma port_final:
  assumes "port_runs rt (bridge_port ob q) x" and "roles_kept ob nb" and bp: "bp = compare_bridge nc ob nb rt"
  shows "port_runs rt (bridge_port nb q)
    (at_entry (start_eff nb) bp q (at_entry (update_eff nb) bp q (at_entry stop_eff bp q x)))"
proof (cases "bridge_port nb q")
  case None
  moreover have "p_id op = q" if "bridge_port ob q = Some op" for op using that by (auto dest: bridge_port_in)
  ultimately show ?thesis
    using assms(1)
    by (cases "bridge_port ob q")
       (simp_all add: bp at_entry_def entry_compare stop_eff_def update_eff_def start_eff_def, simp add: stopped_def)
next
  case (Some np)
  then have np: "p_id np = q" by (auto dest: bridge_port_in)
  show ?thesis
  proof (cases "bridge_port ob q")
    case None
    then have "p_role np = Role_App" using assms(2) Some roles_keptD(1) by blast
    moreover have "kept_plan nc ob rt np = started np" using None np by (simp add: kept_plan_def)
    ultimately show ?thesis
      using None Some np assms(1) port_runs_started [of np rt]
      by (cases "started_as np")
         (auto simp: bp at_entry_def entry_compare stop_eff_def update_eff_def start_eff_def started_def)
  next
    case (Some op)
    define pp where "pp = compare_port nc (b_id ob) op np rt"
    have e: "at_entry f bp q y = f pp y" for f :: "port_plan \<Rightarrow> 'a running_port option \<Rightarrow> 'a running_port option" and y
      using Some \<open>bridge_port nb q = Some np\<close> np by (simp add: bp at_entry_def entry_compare kept_plan_def pp_def)
    have role: "p_role op = p_role np" using assms(2) Some \<open>bridge_port nb q = Some np\<close> roles_keptD(2) by blast
    have pid: "pp_id pp = q" using np by (simp add: pp_def)
    show ?thesis
    proof (cases "pp_action pp")
      case Restarted
      show ?thesis
      proof (cases "x = Some RP_Tnc")
        case True
        with Restarted role assms(1) Some \<open>bridge_port nb q = Some np\<close> pid show ?thesis
          by (simp add: e stop_eff_def update_eff_def start_eff_def)
      next
        case False
        with role assms(1) Some have "p_role np = Role_App" by (cases x rule: option.exhaust; cases "the x") auto
        with False Restarted \<open>bridge_port nb q = Some np\<close> pid port_runs_started [of np rt] show ?thesis
          by (cases "started_as np") (simp_all add: e stop_eff_def update_eff_def start_eff_def)
      qed
    next
      case Updated
      with port_runs_updated [of nc "b_id ob" op np rt x] assms(1) Some \<open>bridge_port nb q = Some np\<close> pid show ?thesis
        by (simp add: e stop_eff_def update_eff_def start_eff_def flip: pp_def)
    next
      case Unchanged
      with port_runs_equiv [of rt op np x] compare_port_unchanged [of nc "b_id ob" op np rt] assms(1) Some
        \<open>bridge_port nb q = Some np\<close> pid show ?thesis
        by (simp add: e stop_eff_def update_eff_def start_eff_def flip: pp_def)
    qed (auto simp: pp_def compare_port_def Let_def split: prod.splits if_splits)
  qed
qed

definition bridge_ok :: "'net sup_env \<Rightarrow> 'net bridge \<Rightarrow> bool" where
  "bridge_ok E b \<longleftrightarrow> distinct (map p_id (b_ports b)) \<and> (\<exists>t. tnc_ports b = [t] \<and> connectable E t)"

text \<open>What the daemon handles when a bridge is updated: port ids keep their roles, and a TNC port that restarts
  does not also change its connect policy, idle timeout or exit sequence, unless \<open>app_params\<close> changes too.\<close>

definition update_handled :: "('net \<Rightarrow> ip_addr \<Rightarrow> bool) \<Rightarrow> runtime \<Rightarrow> 'net bridge \<Rightarrow> 'net bridge \<Rightarrow> bool" where
  "update_handled nc rt ob nb \<longleftrightarrow> roles_kept ob nb \<and> p_id (hd (tnc_ports ob)) = p_id (hd (tnc_ports nb))
     \<and> (pp_action (compare_port nc (b_id ob) (hd (tnc_ports ob)) (hd (tnc_ports nb)) rt) = Restarted \<longrightarrow>
        settings_for ob = settings_for nb \<or> b_app_params ob \<noteq> b_app_params nb)"

lemma tnc_port_unique:
  assumes "tnc_ports b = [t]" and "distinct (map p_id (b_ports b))"
  shows "bridge_port b (p_id t) = Some t" "bridge_port b q = Some p \<Longrightarrow> p_role p = Role_Tnc \<longleftrightarrow> q = p_id t"
proof -
  have only: "p \<in> set (b_ports b) \<and> p_role p = Role_Tnc \<longleftrightarrow> p = t" for p
    using arg_cong [OF assms(1), of set] by (auto simp: tnc_ports_def)
  then have t: "t \<in> set (b_ports b)" "p_role t = Role_Tnc" by auto
  show bt: "bridge_port b (p_id t) = Some t" using bridge_port_distinct [OF assms(2) t(1)] .
  assume p: "bridge_port b q = Some p"
  then have p': "p \<in> set (b_ports b)" "p_id p = q" by (auto dest: bridge_port_in)
  show "p_role p = Role_Tnc \<longleftrightarrow> q = p_id t"
  proof
    assume "p_role p = Role_Tnc"
    with p'(1) only [of p] have "p = t" by simp
    with p'(2) show "q = p_id t" by simp
  next
    assume "q = p_id t"
    with p bt t(2) show "p_role p = Role_Tnc" by simp
  qed
qed

lemma runs_tnc:
  assumes "runs rt b v" and "tnc_ports b = [t]" and "distinct (map p_id (b_ports b))"
  shows "vw_ports v q = Some RP_Tnc \<longleftrightarrow> q = p_id t"
proof -
  have pr: "port_runs rt (bridge_port b q) (vw_ports v q)" using assms(1) by (simp add: runs_def)
  show ?thesis
  proof (cases "bridge_port b q")
    case None
    with pr tnc_port_unique(1) [OF assms(2,3)] show ?thesis by auto
  next
    case (Some p)
    then have "p_role p = Role_Tnc \<longleftrightarrow> q = p_id t" using tnc_port_unique(2) [OF assms(2,3)] by blast
    with pr Some show ?thesis
      by (cases "vw_ports v q" rule: option.exhaust; cases "the (vw_ports v q)") auto
  qed
qed

lemma app_params_changes: "''app_params'' \<in> set (bp_changes (compare_bridge nc ob nb rt)) \<longleftrightarrow> b_app_params ob \<noteq> b_app_params nb"
  by (simp add: compare_bridge_def note_if_def Let_def)

lemma updated_settings:
  assumes "runs rt ob v" and "update_handled nc rt ob nb" and "bridge_ok E ob" and "bridge_ok E nb"
    and "\<not> settings_sent (compare_bridge nc ob nb rt) v"
  shows "settings_for nb = Some (vw_settings v)"
proof -
  obtain t where t: "tnc_ports ob = [t]" using assms(3) by (auto simp: bridge_ok_def)
  obtain n where n: "tnc_ports nb = [n]" using assms(4) by (auto simp: bridge_ok_def)
  have dist: "distinct (map p_id (b_ports ob))" "distinct (map p_id (b_ports nb))" using assms(3,4) by (auto simp: bridge_ok_def)
  have tid: "p_id n = p_id t" using assms(2) t n by (simp add: update_handled_def)
  let ?pp = "compare_port nc (b_id ob) t n rt"
  have "n \<in> set (b_ports nb)" using n by (metis filter_is_subset list.set_intros(1) subsetD tnc_ports_def)
  then have "?pp \<in> set (bp_ports (compare_bridge nc ob nb rt))"
    using tnc_port_unique(1) [OF t dist(1)] tid by (force simp: compare_bridge_ports kept_plan_def image_iff)
  moreover have "vw_ports v (p_id n) = Some RP_Tnc" using runs_tnc [OF assms(1) t dist(1)] tid by simp
  ultimately have a: "pp_action ?pp \<noteq> Updated" "b_app_params ob = b_app_params nb"
    using assms(5) by (fastforce simp: settings_sent_def app_params_changes)+
  have "settings_for ob = settings_for nb"
  proof (cases "pp_action ?pp = Restarted")
    case True
    with assms(2) t n a(2) show ?thesis by (simp add: update_handled_def)
  next
    case False
    with a(1) have "pp_action ?pp = Unchanged"
      by (auto simp: compare_port_def Let_def split: prod.splits if_splits)
    then have "kind_equiv rt (p_kind t) (p_kind n)" by (simp add: compare_port_unchanged port_equiv_def)
    then have "port_connect_policy t = port_connect_policy n \<and> exit_kiss_setting (p_kind t) = exit_kiss_setting (p_kind n)"
      using kind_equiv_link(2,3) by blast
    with a(2) t n tid show ?thesis by (simp add: settings_for_def)
  qed
  with assms(1) show ?thesis by (simp add: runs_def)
qed

text \<open>The three phases on an updated bridge, one after the other.\<close>

lemma phases_update:
  assumes "env_ok E" and "bridge_ok E ob" and "bridge_ok E nb" and "update_handled nc rt ob nb" and "b_id ob = b_id nb"
    and "find_bridge new (b_id nb) = Some nb"
    and bp: "bp = compare_bridge nc ob nb rt" "bp_action bp = Updated"
    and "runs rt ob v"
  obtains v1 v2 v3 where "\<And>d. obs (b_id nb) d = Some v \<Longrightarrow> obs (b_id nb) (stop_phase d bp) = Some v1"
    "\<And>d. obs (b_id nb) d = Some v1 \<Longrightarrow> obs (b_id nb) (update_phase E new d bp) = Some v2"
    "\<And>d. obs (b_id nb) d = Some v2 \<Longrightarrow> obs (b_id nb) (start_phase E new d bp) = Some v3"
    "runs rt nb v3"
proof -
  obtain t where t: "tnc_ports ob = [t]" using assms(2) by (auto simp: bridge_ok_def)
  obtain n where n: "tnc_ports nb = [n]" "connectable E n" using assms(3) by (auto simp: bridge_ok_def)
  have dist: "distinct (map p_id (b_ports ob))" "distinct (map p_id (b_ports nb))" using assms(2,3) by (auto simp: bridge_ok_def)
  have tid: "p_id n = p_id t" using assms(4) t n by (simp add: update_handled_def)
  have bid: "bp_id bp = b_id nb" by (simp add: bp compare_bridge_def Let_def)
  have ids: "distinct (map pp_id (bp_ports bp))" using compare_ids_distinct [OF dist] bp by simp
  have bt: "bridge_port ob (p_id t) = Some t" "bridge_port nb (p_id t) = Some n"
    using tnc_port_unique(1) [OF t dist(1)] tnc_port_unique(1) [OF n(1) dist(2)] tid by simp_all
  define pp where "pp = compare_port nc (b_id ob) t n rt"
  have et: "at_entry f bp (p_id t) x = f pp x" for f :: "port_plan \<Rightarrow> 'x \<Rightarrow> 'x" and x
    using bt tid by (simp add: bp at_entry_def entry_compare kept_plan_def pp_def)
  define v1 where "v1 = v\<lparr>vw_ports := (\<lambda>q. at_entry stop_eff bp q (vw_ports v q))\<rparr>"
  have tnc: "vw_ports v q = Some RP_Tnc \<longleftrightarrow> q = p_id t" for q by (rule runs_tnc [OF assms(9) t dist(1)])
  have tnc1: "vw_ports v1 q = Some RP_Tnc \<longleftrightarrow> q = p_id t" for q
  proof (cases "q = p_id t")
    case True
    have "pp_action pp \<noteq> action.Stopped" by (auto simp: pp_def compare_port_def Let_def split: prod.splits if_splits)
    with True tnc [of q] show ?thesis by (simp add: v1_def et stop_eff_def)
  next
    case False
    with tnc [of q] show ?thesis by (auto simp: v1_def at_entry_def stop_eff_def split: option.splits)
  qed
  obtain sts where sts: "settings_for nb = Some sts"
    using n by (auto simp: settings_for_def connectable_def)
  define v2 where "v2 = \<lparr>vw_connector = new_connector nb pp v1, vw_settings = (if settings_sent bp v1 then sts else vw_settings v1),
      vw_ports = (\<lambda>q. at_entry (update_eff nb) bp q (vw_ports v1 q))\<rparr>"
  define v3 where "v3 = v2\<lparr>vw_ports := (\<lambda>q. at_entry (start_eff nb) bp q (vw_ports v2 q))\<rparr>"
  have p1: "obs (b_id nb) (stop_phase d bp) = Some v1" if "obs (b_id nb) d = Some v" for d
    using stop_phase_obs [OF bp(2) ids, of d v] that by (simp add: bid v1_def)
  have p2: "obs (b_id nb) (update_phase E new d bp) = Some v2" if "obs (b_id nb) d = Some v1" for d
    using update_phase_obs [OF assms(1) _ bid [symmetric] bp(2) ids, of new d v1 "p_id t" sts] assms(6) that tnc1 bt(2) n(2) sts
    by (simp add: bid v2_def et)
  have p3: "obs (b_id nb) (start_phase E new d bp) = Some v3" if "obs (b_id nb) d = Some v2" for d
    using start_phase_obs [OF assms(1) _ bid [symmetric] bp(2) ids, of new d v2] assms(6) that by (simp add: bid v3_def)
  have link: "same_link rt (vw_connector v3) (p_kind n)"
  proof (cases "pp_action pp = Restarted")
    case True
    then have "vw_connector v3 = p_kind n"
      using tnc1 [of "p_id t"] bt(2) tid by (simp add: v3_def v2_def new_connector_def pp_def)
    with n(2) show ?thesis by (simp add: same_link_refl connectable_def)
  next
    case False
    then have "same_link rt (p_kind t) (p_kind n)"
      using compare_port_kept(3) [of nc "b_id ob" t n rt] assms(2) t by (simp add: pp_def bridge_ok_def connectable_def)
    moreover have "same_link rt (vw_connector v) (p_kind t)" using assms(9) t by (simp add: runs_def)
    ultimately show ?thesis using False same_link_trans by (auto simp: v3_def v2_def v1_def new_connector_def)
  qed
  have "settings_sent bp v1 \<longleftrightarrow> settings_sent bp v" by (simp add: settings_sent_def tnc tnc1)
  then have "settings_for nb = Some (vw_settings v3)"
    using updated_settings [OF assms(9,4,2,3)] sts bp(1) by (auto simp: v3_def v2_def v1_def)
  moreover have "port_runs rt (bridge_port nb q) (vw_ports v3 q)" for q
    using port_final [OF _ _ bp(1), of q "vw_ports v q"] assms(4,9)
    by (simp add: v3_def v2_def v1_def runs_def update_handled_def)
  ultimately have "runs rt nb v3" using link n(1) by (simp add: runs_def)
  with p1 p2 p3 that show ?thesis by blast
qed

section \<open>Starting and stopping bridges\<close>

lemma find_filter_distinct:
  "distinct (map p_id ps) \<Longrightarrow> find (\<lambda>p. p_id p = q) (filter R ps) =
     (case find (\<lambda>p. p_id p = q) ps of Some p \<Rightarrow> if R p then Some p else None | None \<Rightarrow> None)"
proof (induction ps)
  case (Cons p ps)
  have "find (\<lambda>x. p_id x = p_id p) ps = None" using find_distinct_None [OF Cons.prems] .
  with Cons show ?case by (cases "p_id p = q") auto
qed simp

lemma obs_insert_bridge:
  "obs j (d\<lparr>dm_state := st, dm_bridges := btree_insert i rb (dm_bridges d)\<rparr>) = (if j = i then Some (view_of rb) else obs j d)"
  by (simp add: obs_def map_of_btree_insert_any)

lemma start_bridge_other: "env_ok E \<Longrightarrow> j \<noteq> b_id b \<Longrightarrow> obs j (start_bridge E b d) = obs j d"
proof -
  assume E: "env_ok E" and j: "j \<noteq> b_id b"
  have ports: "obs j (foldl (\<lambda>d p. start_port E b p d) d' ps) = obs j d'" for d' ps
    using j by (intro foldl_other) (simp add: obs_simps E)
  have conn: "connector_for E t d = (c, d') \<Longrightarrow> obs j d' = obs j d" for t c d'
    using obs_quiet(6) [of j E t d] by simp
  show ?thesis
    using j
    by (auto simp: start_bridge_def ports obs_insert_bridge Let_def obs_simps
        split: list.splits prod.splits option.splits dest: conn)
qed

lemma start_bridge_runs:
  assumes "env_ok E" and "bridge_ok E b"
  shows "\<exists>v. obs (b_id b) (start_bridge E b d) = Some v \<and> runs rt b v"
proof -
  obtain t where t: "tnc_ports b = [t]" "connectable E t" and dist: "distinct (map p_id (b_ports b))"
    using assms(2) by (auto simp: bridge_ok_def)
  obtain sts where sts: "settings_for b = Some sts" using t by (auto simp: settings_for_def connectable_def)
  define v where "v = \<lparr>vw_connector = p_kind t, vw_settings = sts, vw_ports = [p_id t \<mapsto> RP_Tnc]\<rparr>"
  obtain d' where d': "start_bridge E b d = foldl (\<lambda>d p. start_port E b p d) d' (app_ports b)" "obs (b_id b) d' = Some v"
    using t sts that
    by (fastforce simp: start_bridge_def connector_for_ok obs_insert_bridge Let_def obs_simps view_of_def
        current_connector_def current_settings_def v_def split: prod.splits)
  have app_dist: "distinct (map p_id (app_ports b))" using dist by (simp add: app_ports_def distinct_map_filter)
  define ps where "ps q = (case find (\<lambda>p. p_id p = q) (app_ports b) of None \<Rightarrow> vw_ports v q
      | Some p \<Rightarrow> (case started_as p of Some rp \<Rightarrow> Some rp | None \<Rightarrow> vw_ports v q))" for q
  have step: "obs (b_id b) (start_port E b p d) = map_option (\<lambda>v. v\<lparr>vw_ports := (vw_ports v)(p_id p :=
      (case started_as p of Some rp \<Rightarrow> Some rp | None \<Rightarrow> vw_ports v (p_id p)))\<rparr>) (obs (b_id b) d)" for d p
    by (cases "started_as p") (simp_all add: obs_simps assms(1) option.map_ident)
  have "obs (b_id b) (start_bridge E b d) = Some (v\<lparr>vw_ports := ps\<rparr>)"
    using ports_fold [where key = p_id and f = "\<lambda>d p. start_port E b p d" and e = "\<lambda>p x. case started_as p of Some rp \<Rightarrow> Some rp | None \<Rightarrow> x",
        OF app_dist d'(2) step]
    by (simp add: d'(1) ps_def [abs_def])
  moreover have "port_runs rt (bridge_port b q) (ps q)" for q
  proof (cases "bridge_port b q")
    case None
    moreover from this have "q \<noteq> p_id t" using tnc_port_unique(1) [OF t(1) dist] by auto
    ultimately show ?thesis
      using find_filter_distinct [OF dist, of q] by (simp add: ps_def v_def app_ports_def bridge_port_def)
  next
    case (Some p)
    then have role: "p_role p = Role_Tnc \<longleftrightarrow> q = p_id t" using tnc_port_unique(2) [OF t(1) dist] by blast
    have fnd: "find (\<lambda>p. p_id p = q) (app_ports b) = (if p_role p = Role_App then Some p else None)"
      using Some find_filter_distinct [OF dist, of q] by (simp add: app_ports_def bridge_port_def)
    show ?thesis
    proof (cases "p_role p")
      case Role_Tnc
      with role fnd Some show ?thesis by (simp add: ps_def v_def)
    next
      case Role_App
      with role fnd Some port_runs_started [OF Role_App] show ?thesis
        by (cases "started_as p") (simp_all add: ps_def v_def)
    qed
  qed
  ultimately show ?thesis
    using t sts by (intro exI [of _ "v\<lparr>vw_ports := ps\<rparr>"]) (simp add: runs_def v_def same_link_refl connectable_def)
qed

lemma stop_bridge_obs: "obs j (stop_bridge i d) = (if j = i then None else obs j d)"
proof (cases "map_of (dm_bridges d) i")
  case None
  then show ?thesis by (auto simp: stop_bridge_def obs_def)
next
  case (Some rb)
  let ?d = "foldl (\<lambda>d p. stop_port i p d) d (map fst (rb_ports rb))"
  have "obs j ?d = obs j d" if "j \<noteq> i" using that by (intro foldl_other) (simp add: obs_simps)
  moreover have "obs j (?d\<lparr>dm_bridges := AList.delete i (dm_bridges ?d)\<rparr>) = (if j = i then None else obs j ?d)"
    by (simp add: obs_def delete_conv')
  ultimately show ?thesis using Some by (simp add: stop_bridge_def Let_def obs_simps)
qed

section \<open>The whole configuration\<close>

text \<open>The daemon runs a configuration: exactly its enabled bridges, each as configured.\<close>

definition in_sync :: "runtime \<Rightarrow> 'net config \<Rightarrow> 'net daemon \<Rightarrow> bool" where
  "in_sync rt c d \<longleftrightarrow> dm_cfg d = c \<and>
     (\<forall>i. case map_of (running c) i of
        None \<Rightarrow> obs i d = None
      | Some b \<Rightarrow> \<exists>v. obs i d = Some v \<and> runs rt b v)"

lemma plan_ids_distinct: "distinct (map bp_id (pl_bridges (make_plan nc old new rt)))"
proof -
  have d: "distinct (map fst (running c))" for c :: "'a config"
    unfolding running_def by (rule btree_ok_distinct [OF btree_ok_collect])
  have stops: "map bp_id (map (\<lambda>(i, b). stop_bridge_plan b rt) (filter (\<lambda>(i, b). map_of (running new) i = None) (running old)))
      = map fst (filter (\<lambda>(i, b). map_of (running new) i = None) (running old))"
    by (auto simp: stop_bridge_plan_def Let_def running_in dest: running_id)
  have keeps: "map bp_id (map (\<lambda>(i, nb). case map_of (running old) i of Some ob \<Rightarrow> compare_bridge nc ob nb rt | None \<Rightarrow> started_bridge i nb) (running new))
      = map fst (running new)"
    by (auto simp: compare_bridge_def started_bridge_def Let_def running_in split: option.splits dest: running_id)
  have "fst ` {p \<in> set (running old). case p of (i, b) \<Rightarrow> map_of (running new) i = None} \<inter> fst ` set (running new) = {}"
    by (force simp: map_of_eq_None_iff)
  with d show ?thesis
    unfolding make_plan_def Let_def plan.select_convs map_append stops keeps by (simp add: distinct_map_filter)
qed

lemma plan_entry_id:
  assumes "x \<in> set (pl_bridges (make_plan nc old new rt))" and "find_bridge new (bp_id x) = Some nb"
  shows "b_id nb = bp_id x"
  using assms(2) by (auto simp: find_bridge_def find_Some_iff)

lemma stop_phase_other: "j \<noteq> bp_id bp \<Longrightarrow> obs j (stop_phase d bp) = obs j d"
  by (cases "bp_action bp") (simp_all add: stop_phase_def stop_bridge_obs, intro foldl_other, simp add: stop_phase_port_obs)

lemma update_phase_port_other: "env_ok E \<Longrightarrow> b_id nb = i \<Longrightarrow> j \<noteq> i \<Longrightarrow> obs j (update_phase_port E nb i d pp) = obs j d"
proof -
  assume a: "env_ok E" "b_id nb = i" "j \<noteq> i"
  have conn: "connector_for E t d = (c, d') \<Longrightarrow> obs j d' = obs j d" for t c d'
    using obs_quiet(6) [of j E t d] by simp
  show ?thesis
    using a by (auto simp: update_phase_port_def obs_kicks obs_simps Let_def
        split: option.splits action.splits running_port.splits prod.splits dest: conn)
qed

lemma update_phase_other:
  assumes "env_ok E" and "j \<noteq> bp_id bp"
  shows "obs j (update_phase E new d bp) = obs j d"
proof (cases "find_bridge new (bp_id bp)")
  case None
  then show ?thesis by (simp add: update_phase_def)
next
  case (Some nb)
  then have "b_id nb = bp_id bp" by (auto simp: find_bridge_def find_Some_iff)
  then have "obs j (foldl (update_phase_port E nb (bp_id bp)) d' pps) = obs j d'" for d' pps
    using assms by (intro foldl_other) (simp add: update_phase_port_other)
  with Some assms(2) show ?thesis
    by (simp add: update_phase_def update_settings_def obs_simps Let_def split: option.splits)
qed

lemma start_phase_other:
  assumes "env_ok E" and "j \<noteq> bp_id bp"
  shows "obs j (start_phase E new d bp) = obs j d"
proof (cases "find_bridge new (bp_id bp)")
  case None
  then show ?thesis by (simp add: start_phase_def)
next
  case (Some nb)
  then have id: "b_id nb = bp_id bp" by (auto simp: find_bridge_def find_Some_iff)
  then have "obs j (foldl (start_phase_port E nb (bp_id bp)) d' pps) = obs j d'" for d' pps
    using assms by (intro foldl_other) (simp add: start_phase_port_obs)
  with Some assms id show ?thesis
    by (cases "bp_action bp") (simp_all add: start_phase_def start_bridge_other)
qed

text \<open>What the three phases do to a bridge of the plan, and that they leave the others alone.\<close>

lemma apply_phases:
  assumes "env_ok E" and "distinct (map bp_id xs)" and "bp \<in> set xs" and "P (obs (bp_id bp) d)"
    and "\<And>d. P (obs (bp_id bp) d) \<Longrightarrow> Q (obs (bp_id bp) (stop_phase d bp))"
    and "\<And>d. Q (obs (bp_id bp) d) \<Longrightarrow> R (obs (bp_id bp) (update_phase E new d bp))"
    and "\<And>d. R (obs (bp_id bp) d) \<Longrightarrow> S (obs (bp_id bp) (start_phase E new d bp))"
    and "\<And>d. obs (bp_id bp) (g d) = obs (bp_id bp) d"
  shows "S (obs (bp_id bp) (foldl (start_phase E new) (foldl (update_phase E new) (g (foldl stop_phase d xs)) xs) xs))"
proof -
  let ?G = "obs (bp_id bp)"
  note local = foldl_local [where key = bp_id and G = ?G, OF assms(2,3)]
  have stop: "?G (stop_phase d y) = ?G d" if "bp_id bp \<noteq> bp_id y" for d :: "'a daemon" and y
    using that by (rule stop_phase_other)
  have upd: "?G (update_phase E new d y) = ?G d" if "bp_id bp \<noteq> bp_id y" for d y
    using assms(1) that by (rule update_phase_other)
  have start: "?G (start_phase E new d y) = ?G d" if "bp_id bp \<noteq> bp_id y" for d y
    using assms(1) that by (rule start_phase_other)
  have "Q (?G (foldl stop_phase d xs))"
    by (rule local [where P = P and f = stop_phase]) (rule stop, assumption, rule assms(5), assumption, rule assms(4))
  then have "Q (?G (g (foldl stop_phase d xs)))" by (simp only: assms(8))
  then have "R (?G (foldl (update_phase E new) (g (foldl stop_phase d xs)) xs))"
    by (rule local [where P = Q and f = "update_phase E new", rotated 2]) (rule upd, assumption, rule assms(6), assumption)
  then show ?thesis
    by (rule local [where P = R and f = "start_phase E new", rotated 2]) (rule start, assumption, rule assms(7), assumption)
qed

lemma plan_ids_known:
  assumes "x \<in> set (pl_bridges (make_plan nc old new rt))"
  shows "map_of (running old) (bp_id x) \<noteq> None \<or> map_of (running new) (bp_id x) \<noteq> None"
  using assms
proof (cases rule: plan_bridgesE)
  case (stop i b)
  then show ?thesis using running_id [OF stop(1)] by (simp add: stop_bridge_plan_def Let_def)
next
  case (compare i ob nb)
  then show ?thesis using running_id [OF compare(2)] by (simp add: compare_bridge_def Let_def)
next
  case (start i nb)
  then show ?thesis by (simp add: started_bridge_def)
qed

text \<open>A bridge that did not change keeps running as configured.\<close>

lemma runs_unchanged:
  assumes "runs rt ob v" and "bridge_equiv rt ob nb" and "bridge_ok E ob" and "bridge_ok E nb"
    and "p_id (hd (tnc_ports ob)) = p_id (hd (tnc_ports nb))"
  shows "runs rt nb v"
proof -
  obtain t where t: "tnc_ports ob = [t]" "connectable E t" using assms(3) by (auto simp: bridge_ok_def)
  obtain n where n: "tnc_ports nb = [n]" using assms(4) by (auto simp: bridge_ok_def)
  have dist: "distinct (map p_id (b_ports ob))" "distinct (map p_id (b_ports nb))" using assms(3,4) by (auto simp: bridge_ok_def)
  have eq: "\<exists>op. bridge_port ob q = Some op \<and> port_equiv rt op np" if "bridge_port nb q = Some np" for q np
    using assms(2) bridge_port_in [OF that] by (auto simp: bridge_equiv_def)
  have "port_equiv rt t n"
    using eq [OF tnc_port_unique(1) [OF n dist(2)]] tnc_port_unique(1) [OF t(1) dist(1)] assms(5) t n by simp
  then have k: "kind_equiv rt (p_kind t) (p_kind n)" by (simp add: port_equiv_def)
  have tn: "same_link rt (p_kind t) (p_kind n)" "port_connect_policy t = port_connect_policy n"
    "exit_kiss_setting (p_kind t) = exit_kiss_setting (p_kind n)"
    using kind_equiv_link [OF k] t(2) by (simp_all add: connectable_def)
  have "same_link rt (vw_connector v) (p_kind t)" using assms(1) t by (simp add: runs_def)
  then have "same_link rt (vw_connector v) (p_kind n)" using tn(1) by (rule same_link_trans)
  moreover have "settings_for ob = settings_for nb"
    using tn(2,3) assms(2,5) t n by (simp add: settings_for_def bridge_equiv_def)
  moreover have "port_runs rt (bridge_port nb q) (vw_ports v q)" for q
  proof (cases "bridge_port nb q")
    case None
    then have "bridge_port ob q = None" using assms(2) by (simp add: bridge_port_None bridge_equiv_def)
    with None assms(1) show ?thesis by (metis runs_def)
  next
    case (Some np)
    with eq [OF Some] assms(1) port_runs_equiv show ?thesis by (metis runs_def)
  qed
  ultimately show ?thesis using assms(1) n by (simp add: runs_def)
qed

definition config_ok :: "'net sup_env \<Rightarrow> 'net config \<Rightarrow> bool" where
  "config_ok E c \<longleftrightarrow> distinct (map b_id (cfg_bridges c)) \<and> (\<forall>b \<in> set (cfg_bridges c). b_enabled b \<longrightarrow> bridge_ok E b)"

text \<open>A configuration that passed validation is of this kind, if its TNC ports can be connected.\<close>

lemma config_okI:
  assumes "config_consistent c" and "\<forall>b \<in> set (cfg_bridges c). b_enabled b \<longrightarrow> (\<forall>t \<in> set (tnc_ports b). connectable E t)"
  shows "config_ok E c"
proof -
  have "bridge_ok E b" if "b \<in> set (cfg_bridges c)" "b_enabled b" for b
  proof -
    have "complete_bridge b" "distinct (map p_id (b_ports b))"
      using assms(1) that by (auto simp: config_consistent_def)
    then have "incomplete b = []" by (simp add: incomplete_Nil)
    then have "length (tnc_ports b) = 1" by (simp add: incomplete_def Let_def split: if_splits)
    then obtain t where "tnc_ports b = [t]" by (cases "tnc_ports b") auto
    with assms(2) that \<open>distinct (map p_id (b_ports b))\<close> show ?thesis by (simp add: bridge_ok_def)
  qed
  with assms(1) show ?thesis by (simp add: config_ok_def config_consistent_def)
qed

lemma running_find:
  assumes "config_ok E c" and "map_of (running c) i = Some b"
  shows "find_bridge c i = Some b" "bridge_ok E b" "b_id b = i"
proof -
  have b: "b \<in> set (cfg_bridges c)" "b_enabled b" "b_id b = i" using running_id [OF assms(2)] by auto
  then show "bridge_ok E b" "b_id b = i" using assms(1) by (auto simp: config_ok_def)
  show "find_bridge c i = Some b"
    using b assms(1) unfolding find_bridge_def config_ok_def
    by (auto simp: find_Some_iff distinct_conv_nth in_set_conv_nth)
qed

text \<open>What \<open>apply\<close> does to one bridge id, by what the plan says about it.\<close>

lemma apply_obs:
  assumes "env_ok E" and "pl = make_plan nc old new rt" and "config_ok E old" and "config_ok E new"
    and "in_sync rt old d"
    and "\<And>i ob nb. map_of (running old) i = Some ob \<Longrightarrow> map_of (running new) i = Some nb \<Longrightarrow> update_handled nc rt ob nb"
  shows "case map_of (running new) i of
      None \<Rightarrow> obs i (apply_plan E pl new d) = None
    | Some b \<Rightarrow> \<exists>v. obs i (apply_plan E pl new d) = Some v \<and> runs rt b v"
proof -
  define g where "g d = (if ''log_level'' \<in> set (pl_global pl) \<and> se_has_log_level E
      then d\<lparr>dm_log_level := g_log_level (cfg_global new)\<rparr> else d)" for d :: "'a daemon"
  define d4 where "d4 = foldl (start_phase E new) (foldl (update_phase E new) (g (foldl stop_phase d (pl_bridges pl))) (pl_bridges pl)) (pl_bridges pl)"
  have g: "obs j (g d') = obs j d'" for j d' by (simp add: g_def obs_simps)
  have ids: "distinct (map bp_id (pl_bridges pl))" using plan_ids_distinct assms(2) by blast
  have fin: "obs i (apply_plan E pl new d) = obs i d4"
  proof -
    have "map_of (map (refresh_cfg new) al) i = map_option (snd \<circ> refresh_cfg new \<circ> Pair i) (map_of al i)" for al
      by (induction al) (auto simp: refresh_cfg_def split: option.splits)
    moreover have "view_of (snd (refresh_cfg new (i, rb))) = view_of rb" for rb :: "'a running_bridge"
      by (simp add: refresh_cfg_def split: option.splits)
    ultimately show ?thesis
      by (simp add: apply_plan_def Let_def obs_def d4_def g_def option.map_comp comp_def)
  qed
  note phases = apply_phases [where g = g and new = new and d = d, OF assms(1) ids _ _ _ _ _ g, folded d4_def]
  have sync: "case map_of (running old) i of None \<Rightarrow> obs i d = None | Some b \<Rightarrow> \<exists>v. obs i d = Some v \<and> runs rt b v"
    using assms(5) by (simp add: in_sync_def)
  show ?thesis
  proof (cases "map_of (running new) i")
    case new: None
    show ?thesis
    proof (cases "map_of (running old) i")
      case None
      have "i \<noteq> bp_id x" if "x \<in> set (pl_bridges pl)" for x
        using plan_ids_known [of x nc old new rt] that None new by (auto simp: assms(2))
      then have "obs i d4 = obs i d"
        unfolding d4_def
        by (simp add: foldl_other [of _ "obs i"] stop_phase_other update_phase_other start_phase_other assms(1) g)
      with None new sync fin show ?thesis by simp
    next
      case (Some b)
      have b: "b_id b = i" using running_find(3) [OF assms(3) Some] .
      define bp where "bp = stop_bridge_plan b rt"
      have bp: "bp_id bp = i" "bp_action bp = action.Stopped" by (simp_all add: bp_def b stop_bridge_plan_def Let_def)
      have "bp \<in> set (pl_bridges pl)" using plan_stops [OF Some new] by (simp add: assms(2) bp_def)
      then have "(\<lambda>w. w = None) (obs (bp_id bp) d4)"
        by (rule phases [where P = "\<lambda>_. True" and Q = "\<lambda>w. w = None" and R = "\<lambda>w. w = None" and S = "\<lambda>w. w = None"])
           (simp_all add: stop_phase_def stop_bridge_obs update_phase_def start_phase_def bp split: option.splits)
      with bp(1) new fin show ?thesis by simp
    qed
  next
    case new: (Some nb)
    have nb: "find_bridge new i = Some nb" "bridge_ok E nb" "b_id nb = i" using running_find [OF assms(4) new] by auto
    show ?thesis
    proof (cases "map_of (running old) i")
      case None
      define bp where "bp = started_bridge i nb"
      have bp: "bp_id bp = i" "bp_action bp = Started" by (simp_all add: bp_def started_bridge_def)
      have "bp \<in> set (pl_bridges pl)" using plan_keeps [OF new, where old = old and nc = nc and rt = rt] None by (simp add: assms(2) bp_def)
      then have "(\<lambda>w. \<exists>v. w = Some v \<and> runs rt nb v) (obs (bp_id bp) d4)"
        by (rule phases [where P = "\<lambda>w. w = None" and Q = "\<lambda>w. w = None" and R = "\<lambda>w. w = None" and S = "\<lambda>w. \<exists>v. w = Some v \<and> runs rt nb v"])
           (use sync None nb start_bridge_runs [OF assms(1) nb(2)] in
             \<open>simp_all add: stop_phase_def update_phase_def start_phase_def bp\<close>)
      with bp(1) new fin show ?thesis by simp
    next
      case (Some ob)
      have ob: "bridge_ok E ob" "b_id ob = i" using running_find [OF assms(3) Some] by auto
      define bp where "bp = compare_bridge nc ob nb rt"
      have bid: "bp_id bp = i" by (simp add: bp_def compare_bridge_def nb Let_def)
      have mem: "bp \<in> set (pl_bridges pl)" using plan_keeps [OF new, where old = old and nc = nc and rt = rt] Some by (simp add: assms(2) bp_def)
      obtain v where v: "obs i d = Some v" "runs rt ob v" using sync Some by auto
      have upd: "update_handled nc rt ob nb" using assms(6) [OF Some new] .
      have "(\<lambda>w. \<exists>v. w = Some v \<and> runs rt nb v) (obs (bp_id bp) d4)"
      proof (cases "bp_action bp = Updated")
        case True
        obtain v1 v2 v3 where ph:
          "\<And>d. obs i d = Some v \<Longrightarrow> obs i (stop_phase d bp) = Some v1"
          "\<And>d. obs i d = Some v1 \<Longrightarrow> obs i (update_phase E new d bp) = Some v2"
          "\<And>d. obs i d = Some v2 \<Longrightarrow> obs i (start_phase E new d bp) = Some v3" "runs rt nb v3"
          using phases_update [OF assms(1) ob(1) nb(2) upd _ _ bp_def True v(2), of new] ob(2) nb by metis
        show ?thesis
          by (rule phases [where P = "\<lambda>w. w = Some v" and Q = "\<lambda>w. w = Some v1" and R = "\<lambda>w. w = Some v2" and S = "\<lambda>w. \<exists>v. w = Some v \<and> runs rt nb v", OF mem])
             (use v ph in \<open>simp_all add: bid\<close>)
      next
        case False
        then have un: "bp_action bp = Unchanged" by (simp add: bp_def compare_bridge_def Let_def split: if_split_asm)
        then have "runs rt nb v"
          using runs_unchanged [OF v(2) _ ob(1) nb(2)] upd by (simp add: bp_def compare_bridge_unchanged update_handled_def)
        then show ?thesis
          by (intro phases [where P = "\<lambda>w. w = Some v" and Q = "\<lambda>w. w = Some v" and R = "\<lambda>w. w = Some v" and S = "\<lambda>w. \<exists>v. w = Some v \<and> runs rt nb v", OF mem])
             (use v nb un in \<open>simp_all add: bid stop_phase_def update_phase_def start_phase_def\<close>)
      qed
      with bid new fin show ?thesis by simp
    qed
  qed
qed

lemma dm_cfg_simps [simp]: "dm_cfg (apply_plan E pl new d) = new" "dm_cfg (hub_state a b c d) = dm_cfg d"
  by (simp_all add: apply_plan_def hub_state_def Let_def)

lemma in_sync_same: "(\<And>i. obs i d' = obs i d) \<Longrightarrow> dm_cfg d' = dm_cfg d \<Longrightarrow> in_sync rt c d' \<longleftrightarrow> in_sync rt c d"
  by (simp add: in_sync_def cong: option.case_cong)

section \<open>Properties\<close>



section \<open>Examples, and what a plan does not carry over\<close>

definition sup_cfg :: "ip_addr port \<Rightarrow> u32 option \<Rightarrow> ip_addr config" where
  "sup_cfg t mx = \<lparr>cfg_global = \<lparr>g_log_level = ''info'', g_adapter = Sel_Default\<rparr>, cfg_control = \<lparr>c_group = ''g''\<rparr>,
     cfg_adapters = [], cfg_tncs = [],
     cfg_bridges = [\<lparr>b_id = ''ktbr0'', b_name = ''Field'', b_public_name = ''Field'', b_enabled = True,
       b_enabled_override = None, b_app_params = Params_Pass, b_ports = [t, ex_lan mx []], b_source = Dynamic\<rparr>]\<rparr>"

definition ex_env :: "ip_addr sup_env" where
  "ex_env = \<lparr>se_connector = (\<lambda>_. None), se_add_ble = (\<lambda>_ _. None), se_announcer = True, se_store = (\<lambda>f s. s),
     se_has_log_level = True, se_show = (\<lambda>_. [])\<rparr>"

definition ex_daemon :: "ip_addr daemon" where
  "ex_daemon = \<lparr>dm_cfg = sup_cfg ex_radio (Some 3),
     dm_bridges = [(''ktbr0'', \<lparr>rb_cfg = hd (cfg_bridges (sup_cfg ex_radio (Some 3))), rb_connector = p_kind ex_radio,
        rb_settings = \<lparr>ts_port_id = ''radio'', ts_connect = Always, ts_idle_timeout = 0, ts_app_params = Params_Pass,
          ts_exit_kiss_on_disconnect = False\<rparr>,
        rb_cmds = [], rb_name = ''Field'',
        rb_ports = [(''lan'', RP_Tcp \<lparr>max_clients = Some 3, live_allow = []\<rparr> (Addr (Sock (V4 [0, 0, 0, 0]) 8001 0)) False),
                    (''radio'', RP_Tnc)]\<rparr>)],
     dm_state = \<lparr>ss_path = [], ss_state = fmempty\<rparr>, dm_announcer = False, dm_announced = [], dm_log_level = ''info'',
     dm_bluez_errors = [], dm_hub = [], dm_known_warnings = {}\<rparr>"

lemma sup_cfg_running: "map_of (running (sup_cfg t mx)) i = (if i = ''ktbr0'' then Some (hd (cfg_bridges (sup_cfg t mx))) else None)"
  by (simp add: running_map sup_cfg_def)

lemma ex_env_ok: "env_ok ex_env"
  by (simp add: env_ok_def ex_env_def)

lemma sup_cfg_ok: "p_id t \<noteq> ''lan'' \<Longrightarrow> p_role t = Role_Tnc \<Longrightarrow> port_connect_policy t \<noteq> None \<Longrightarrow> config_ok ex_env (sup_cfg t mx)"
  by (simp add: config_ok_def bridge_ok_def sup_cfg_def tnc_ports_def ex_lan_def connectable_def ex_env_def)

definition ex_view :: "ip_addr view" where
  "ex_view = \<lparr>vw_connector = p_kind ex_radio, vw_settings = \<lparr>ts_port_id = ''radio'', ts_connect = Always, ts_idle_timeout = 0,
       ts_app_params = Params_Pass, ts_exit_kiss_on_disconnect = False\<rparr>,
     vw_ports = [''radio'' \<mapsto> RP_Tnc,
       ''lan'' \<mapsto> RP_Tcp \<lparr>max_clients = Some 3, live_allow = []\<rparr> (Addr (Sock (V4 [0, 0, 0, 0]) 8001 0)) False]\<rparr>"

lemma ex_daemon_obs: "obs i ex_daemon = (if i = ''ktbr0'' then Some ex_view else None)"
  by (simp add: obs_def ex_daemon_def ex_view_def view_of_def current_connector_def current_settings_def)

lemma ex_view_runs: "runs ex_runtime (hd (cfg_bridges (sup_cfg ex_radio (Some 3)))) ex_view"
  unfolding runs_def
proof (intro conjI allI)
  show "\<exists>t. tnc_ports (hd (cfg_bridges (sup_cfg ex_radio (Some 3)))) = [t] \<and> same_link ex_runtime (vw_connector ex_view) (p_kind t)"
    by (simp add: sup_cfg_def tnc_ports_def ex_radio_def ex_lan_def ex_view_def)
  show "settings_for (hd (cfg_bridges (sup_cfg ex_radio (Some 3)))) = Some (vw_settings ex_view)"
    by (simp add: sup_cfg_def tnc_ports_def ex_radio_def ex_lan_def ex_view_def settings_for_def port_connect_policy_def
        exit_kiss_setting_def)
  show "port_runs ex_runtime (bridge_port (hd (cfg_bridges (sup_cfg ex_radio (Some 3)))) q) (vw_ports ex_view q)" for q
    by (auto simp: sup_cfg_def bridge_port_def ex_radio_def ex_lan_def ex_view_def)
qed

lemma ex_daemon_sync: "in_sync ex_runtime (sup_cfg ex_radio (Some 3)) ex_daemon"
proof -
  have "dm_cfg ex_daemon = sup_cfg ex_radio (Some 3)" by (simp add: ex_daemon_def)
  then show ?thesis
    unfolding in_sync_def using ex_view_runs by (auto simp: sup_cfg_running ex_daemon_obs)
qed

lemma ex_update_handled:
  "update_handled nc rt (hd (cfg_bridges (sup_cfg ex_radio m))) (hd (cfg_bridges (sup_cfg ex_radio m')))"
  by (auto simp: update_handled_def roles_kept_def sup_cfg_def tnc_ports_def bridge_port_def ex_radio_def ex_lan_def
      settings_for_def port_connect_policy_def exit_kiss_setting_def)


lemma reload_case:
  assumes "case r of (Inl (Invalid ps), d') \<Rightarrow> Inr (cfg, ws) = (Inl ps :: problem list + ip_addr config \<times> problem list) \<and> d' = d
    | (Inl (WouldDisrupt pl), d') \<Rightarrow> True \<and> disruptive pl \<and> d' = d
    | (Inr (pl, ws'), d') \<Rightarrow> \<exists>c. Inr (cfg, ws) = (Inr (c, ws') :: problem list + ip_addr config \<times> problem list)
        \<and> pl = mk c \<and> (True \<longrightarrow> \<not> disruptive pl) \<and> in_sync rt c d'"
  shows "case r of (Inl (Invalid ps), d') \<Rightarrow> False
    | (Inl (WouldDisrupt pl), d') \<Rightarrow> disruptive pl \<and> d' = d
    | (Inr (pl, ws), d') \<Rightarrow> in_sync rt cfg d'"
  using assms by (auto split: prod.splits sum.splits reload_error.splits)


text \<open>A TNC port that restarts and at the same time changes its connect policy: the bridge gets the connector
  and never the settings, and goes on with the old policy.\<close>

definition moved_radio :: "ip_addr port" where
  "moved_radio = \<lparr>p_id = ''radio'', p_role = Role_Tnc, p_kind = TcpClient ''elsewhere'' 8001 OnDemand 0\<rparr>"

definition renamed_radio :: "ip_addr port" where
  "renamed_radio = \<lparr>p_id = ''rig'', p_role = Role_Tnc, p_kind = TcpClient ''elsewhere'' 8001 Always 0\<rparr>"

definition ex_applied :: "ip_addr port \<Rightarrow> ip_addr view option" where
  "ex_applied t = obs ''ktbr0'' (apply_plan ex_env
     (make_plan (=) (sup_cfg ex_radio (Some 3)) (sup_cfg t (Some 3)) ex_runtime) (sup_cfg t (Some 3)) ex_daemon)"

lemma restart_loses_settings:
  "map_option vw_connector (ex_applied moved_radio) = Some (p_kind moved_radio)
   \<and> map_option (ts_connect \<circ> vw_settings) (ex_applied moved_radio) = Some Always
   \<and> map_option ts_connect (settings_for (hd (cfg_bridges (sup_cfg moved_radio (Some 3))))) = Some OnDemand"
  by code_simp

text \<open>A TNC port under another id: the plan stops one port and starts another, and the bridge goes on with the
  connector of the port that is gone.\<close>

lemma renamed_tnc_port_keeps_connector:
  "map_option vw_connector (ex_applied renamed_radio) = Some (p_kind ex_radio)
   \<and> p_kind renamed_radio \<noteq> p_kind ex_radio
   \<and> map_option (\<lambda>v. vw_ports v ''rig'') (ex_applied renamed_radio) = Some None"
  by code_simp

end
