(* ===== verification/Announce.thy ===== *)
theory Announce
  imports Config_Values Config_State Btree_Map
begin

text \<open>
  \<^verbatim>\<open>src/announce.rs\<close>: the DNS-SD announcer. One entry group per bridge holds a service per
  listening port, under the bridge's public name; a name that is taken on the LAN is counted up,
  remembered in \<open>state.toml\<close> and told to the bridge's BLE ports. The names are watch channels the
  supervisor shares with the announcer, so they are cells of a store here. The mDNS backend and the
  host's interfaces are parameters; the Avahi backend is modelled over the D-Bus methods it calls.
\<close>

section \<open>Services\<close>

datatype iface = If_Any | If_Index u32

datatype proto = Proto_Any | Proto_V4 | Proto_V6

record service =
  sv_port :: u16
  sv_iface :: iface
  sv_proto :: proto

definition iface_or_any :: "u32 option \<Rightarrow> iface" where
  "iface_or_any i = (case i of None \<Rightarrow> If_Any | Some i \<Rightarrow> If_Index i)"

fun is_ipv6 :: "ip_addr \<Rightarrow> bool" where
  "is_ipv6 (V4 _) = False"
| "is_ipv6 (V6 _) = True"

fun for_listen :: "(string \<Rightarrow> u32 option) \<Rightarrow> (ip_addr \<Rightarrow> u32 option) \<Rightarrow> listen \<Rightarrow> socket_addr \<Rightarrow> service" where
  "for_listen if_index iface_holding (Interface name _) bound =
     \<lparr>sv_port = sock_port bound, sv_iface = iface_or_any (if_index name), sv_proto = Proto_V4\<rparr>"
| "for_listen if_index iface_holding (Addr a) bound =
     (if is_unspecified (sock_ip a)
      then \<lparr>sv_port = sock_port bound, sv_iface = If_Any, sv_proto = if is_ipv6 (sock_ip a) then Proto_Any else Proto_V4\<rparr>
      else \<lparr>sv_port = sock_port bound, sv_iface = iface_or_any (iface_holding (sock_ip a)),
            sv_proto = if is_ipv6 (sock_ip a) then Proto_V6 else Proto_V4\<rparr>)"

definition overlaps :: "service \<Rightarrow> service \<Rightarrow> bool" where
  "overlaps s t \<longleftrightarrow>
     (sv_iface s = sv_iface t \<or> sv_iface s = If_Any \<or> sv_iface t = If_Any)
     \<and> (sv_proto s = sv_proto t \<or> sv_proto s = Proto_Any \<or> sv_proto t = Proto_Any)"

text \<open>\<open>distinct\<close>: a bridge's services, minus any that would collide with one already taken.\<close>

definition distinct_step :: "service list \<Rightarrow> string \<times> service \<Rightarrow> service list" where
  "distinct_step out ps = (if list_ex (\<lambda>t. overlaps t (snd ps)) out then out else out @ [snd ps])"

definition distinct_services :: "(string \<times> service) list \<Rightarrow> service list" where
  "distinct_services services = foldl distinct_step [] services"

section \<open>Names\<close>

definition strip_suffix :: "char \<Rightarrow> string \<Rightarrow> string option" where
  "strip_suffix c s = (if s \<noteq> [] \<and> last s = c then Some (butlast s) else None)"

text \<open>\<open>rsplit_once\<close> at a string: the last occurrence.\<close>

fun rsplit_str :: "string \<Rightarrow> string \<Rightarrow> (string \<times> string) option" where
  "rsplit_str pat [] = (if pat = [] then Some ([], []) else None)"
| "rsplit_str pat (c # s) =
     (case rsplit_str pat s of
        Some (a, b) \<Rightarrow> Some (c # a, b)
      | None \<Rightarrow> map_option (\<lambda>r. ([], r)) (strip_prefix pat (c # s)))"

definition parse_u32 :: "string \<Rightarrow> u32 option" where
  "parse_u32 s = map_option of_nat (parse_unsigned 10 4294967296 s)"

definition numbered :: "string \<Rightarrow> u32 \<Rightarrow> string" where
  "numbered base n = base @ '' ('' @ show_nat (unat n) @ '')''"

text \<open>The name to try after a collision. \<open>n + 1\<close> is 32-bit addition, which wraps in a release build.\<close>

definition next_name :: "string \<Rightarrow> string" where
  "next_name name =
     (case Option.bind (strip_suffix CHR '')'' name) (rsplit_str '' ('') of
        Some (base, n) \<Rightarrow> (case parse_u32 n of Some k \<Rightarrow> numbered base (k + 1) | None \<Rightarrow> name @ '' (2)'')
      | None \<Rightarrow> name @ '' (2)'')"

section \<open>The announcer\<close>

text \<open>A bridge's name is the number of its watch channel.\<close>

datatype announce_cmd =
    An_Bridge string string nat
  | An_Forget string
  | An_Up string string service
  | An_Down string string

datatype announce_event =
    Established string
  | Name_Collision string
  | Ev_Failure string string
  | ServerUp
  | ServerDown

datatype publish_error = Collision | Unavailable string | Publish_Other string

record bridge_ann =
  ba_configured :: string
  ba_name :: nat
  ba_services :: "(string \<times> service) list"
  ba_group :: "string option"

record 'b announcer =
  an_backend :: 'b
  an_state :: state_store
  an_bridges :: "(string \<times> bridge_ann) list"
  an_available :: bool
  an_names :: "nat \<Rightarrow> string"

record 'b ann_env =
  ae_publish :: "'b \<Rightarrow> string option \<Rightarrow> string \<Rightarrow> service list \<Rightarrow> (publish_error + string) \<times> 'b"
  ae_withdraw :: "string \<Rightarrow> 'b \<Rightarrow> 'b"
  ae_update :: "(state \<Rightarrow> state) \<Rightarrow> state_store \<Rightarrow> state_store"

definition new_announcer :: "'b \<Rightarrow> state_store \<Rightarrow> bool \<Rightarrow> (nat \<Rightarrow> string) \<Rightarrow> 'b announcer" where
  "new_announcer B st available names =
     \<lparr>an_backend = B, an_state = st, an_bridges = [], an_available = available, an_names = names\<rparr>"

definition set_group :: "string \<Rightarrow> string option \<Rightarrow> 'b announcer \<Rightarrow> 'b announcer" where
  "set_group i g A =
     (case map_of (an_bridges A) i of
        None \<Rightarrow> A
      | Some b \<Rightarrow> A\<lparr>an_bridges := AList.update i (b\<lparr>ba_group := g\<rparr>) (an_bridges A)\<rparr>)"

definition withdraw_group :: "'b ann_env \<Rightarrow> string \<Rightarrow> 'b announcer \<Rightarrow> 'b announcer" where
  "withdraw_group E g A = A\<lparr>an_backend := ae_withdraw E g (an_backend A)\<rparr>"

definition adjust_name :: "'b ann_env \<Rightarrow> string \<Rightarrow> 'b announcer \<Rightarrow> bool \<times> 'b announcer" where
  "adjust_name E i A =
     (case map_of (an_bridges A) i of
        None \<Rightarrow> (False, A)
      | Some b \<Rightarrow>
          (let next = next_name (an_names A (ba_name b)) in
           (True, A\<lparr>an_state := ae_update E (\<lambda>s. set_adjusted_public_name s i (ba_configured b) next) (an_state A),
                    an_names := (an_names A)(ba_name b := next)\<rparr>)))"

text \<open>\<open>for _ in 0..20\<close>, with the tries left as an argument.\<close>

fun sync_tries :: "'b ann_env \<Rightarrow> nat \<Rightarrow> string \<Rightarrow> 'b announcer \<Rightarrow> 'b announcer" where
  "sync_tries E 0 i A = A"
| "sync_tries E (Suc n) i A =
     (case map_of (an_bridges A) i of
        None \<Rightarrow> A
      | Some b \<Rightarrow>
          (let services = distinct_services (ba_services b) in
           if services = [] then
             (case ba_group b of
                None \<Rightarrow> A
              | Some g \<Rightarrow> withdraw_group E g (set_group i None A))
           else
             (case ae_publish E (an_backend A) (ba_group b) (an_names A (ba_name b)) services of
                (Inr g, B) \<Rightarrow> set_group i (Some g) (A\<lparr>an_backend := B\<rparr>)
              | (Inl e, B) \<Rightarrow>
                  (let A' = set_group i None (A\<lparr>an_backend := B\<rparr>) in
                   case e of
                     Collision \<Rightarrow>
                       (case adjust_name E i A' of
                          (False, A'') \<Rightarrow> A''
                        | (True, A'') \<Rightarrow> sync_tries E n i A'')
                   | Unavailable why \<Rightarrow> A'\<lparr>an_available := False\<rparr>
                   | Publish_Other why \<Rightarrow> A'))))"

definition SYNC_TRIES :: nat where "SYNC_TRIES = 20"

definition sync :: "'b ann_env \<Rightarrow> string \<Rightarrow> 'b announcer \<Rightarrow> 'b announcer" where
  "sync E i A = (if \<not> an_available A then A else sync_tries E SYNC_TRIES i A)"

definition rename :: "'b ann_env \<Rightarrow> string \<Rightarrow> 'b announcer \<Rightarrow> 'b announcer" where
  "rename E i A = (case adjust_name E i A of (True, A') \<Rightarrow> sync E i A' | (False, A') \<Rightarrow> A')"

definition bridge_for :: "'b announcer \<Rightarrow> string \<Rightarrow> string option" where
  "bridge_for A g = map_option fst (find (\<lambda>(_, b). ba_group b = Some g) (an_bridges A))"

definition set_ann :: "string \<Rightarrow> bridge_ann \<Rightarrow> 'b announcer \<Rightarrow> 'b announcer" where
  "set_ann i b A = A\<lparr>an_bridges := btree_insert i b (an_bridges A)\<rparr>"

fun on_announce_cmd :: "'b ann_env \<Rightarrow> announce_cmd \<Rightarrow> 'b announcer \<Rightarrow> 'b announcer" where
  "on_announce_cmd E (An_Bridge i configured name) A =
     (case map_of (an_bridges A) i of
        Some b \<Rightarrow> sync E i (set_ann i (b\<lparr>ba_configured := configured, ba_name := name\<rparr>) A)
      | None \<Rightarrow> set_ann i \<lparr>ba_configured = configured, ba_name = name, ba_services = [], ba_group = None\<rparr> A)"
| "on_announce_cmd E (An_Forget i) A =
     (case map_of (an_bridges A) i of
        None \<Rightarrow> A
      | Some b \<Rightarrow>
          (let A' = A\<lparr>an_bridges := AList.delete i (an_bridges A)\<rparr> in
           case ba_group b of None \<Rightarrow> A' | Some g \<Rightarrow> withdraw_group E g A'))"
| "on_announce_cmd E (An_Up i port sv) A =
     (case map_of (an_bridges A) i of
        None \<Rightarrow> A
      | Some b \<Rightarrow>
          (let A' = set_ann i (b\<lparr>ba_services := btree_insert port sv (ba_services b)\<rparr>) A in
           if map_of (ba_services b) port \<noteq> Some sv then sync E i A' else A'))"
| "on_announce_cmd E (An_Down i port) A =
     (case map_of (an_bridges A) i of
        None \<Rightarrow> A
      | Some b \<Rightarrow>
          (let A' = set_ann i (b\<lparr>ba_services := AList.delete port (ba_services b)\<rparr>) A in
           if map_of (ba_services b) port \<noteq> None then sync E i A' else A'))"

text \<open>Every group is taken from its bridge and then withdrawn: on shutdown and when Avahi goes away.\<close>

definition groups_of :: "(string \<times> bridge_ann) list \<Rightarrow> string list" where
  "groups_of bs = List.map_filter (\<lambda>(_, b). ba_group b) bs"

definition withdraw_all :: "'b ann_env \<Rightarrow> 'b announcer \<Rightarrow> 'b announcer" where
  "withdraw_all E A =
     foldl (\<lambda>A g. withdraw_group E g A)
       (A\<lparr>an_bridges := map (\<lambda>(i, b). (i, b\<lparr>ba_group := None\<rparr>)) (an_bridges A)\<rparr>)
       (groups_of (an_bridges A))"

fun on_announce_event :: "'b ann_env \<Rightarrow> announce_event \<Rightarrow> 'b announcer \<Rightarrow> 'b announcer" where
  "on_announce_event E (Established g) A = A"
| "on_announce_event E (Name_Collision g) A = (case bridge_for A g of Some i \<Rightarrow> rename E i A | None \<Rightarrow> A)"
| "on_announce_event E (Ev_Failure g why) A = A"
| "on_announce_event E ServerUp A =
     foldl (\<lambda>A i. sync E i A) (A\<lparr>an_available := True\<rparr>)
       (map fst (filter (\<lambda>(_, b). ba_group b = None) (an_bridges A)))"
| "on_announce_event E ServerDown A = (withdraw_all E A)\<lparr>an_available := False\<rparr>"

text \<open>What the announcer's task meets: a command, an event, and the supervisor writing a name.\<close>

datatype announce_input =
    In_Cmd announce_cmd
  | In_Event announce_event
  | In_Name nat string

fun on_input :: "'b ann_env \<Rightarrow> 'b announcer \<Rightarrow> announce_input \<Rightarrow> 'b announcer" where
  "on_input E A (In_Cmd c) = on_announce_cmd E c A"
| "on_input E A (In_Event e) = on_announce_event E e A"
| "on_input E A (In_Name ch name) = A\<lparr>an_names := (an_names A)(ch := name)\<rparr>"

definition announcer_run :: "'b ann_env \<Rightarrow> announce_input list \<Rightarrow> 'b announcer \<Rightarrow> 'b announcer" where
  "announcer_run E ins A = withdraw_all E (foldl (on_input E) A ins)"

end
