(* ===== verification/Announce_Props.thy ===== *)
theory Announce_Props
  imports Announce
begin

text \<open>
  What the announcer promises: the names it tries are all different, so a bridge is announced whenever
  fewer than twenty names are taken; and what the mDNS backend holds is, at any time, what listens.
\<close>

section \<open>Names count up\<close>

lemma rsplit_str_no_space: "CHR '' '' \<notin> set t \<Longrightarrow> rsplit_str '' ('' t = None"
  by (induction t) (auto simp: strip_prefix_def starts_with_def)

lemma rsplit_str_last: "CHR '' '' \<notin> set t \<Longrightarrow> rsplit_str '' ('' (base @ '' ('' @ t) = Some (base, t)"
proof (induction base)
  case Nil
  then have "rsplit_str '' ('' (CHR ''('' # t) = None" by (intro rsplit_str_no_space) auto
  then show ?case by (simp add: strip_prefix_def starts_with_def)
next
  case (Cons c base)
  then show ?case by simp
qed

lemma show_nat_no_space: "CHR '' '' \<notin> set (show_nat n)"
  using decimal_digits_all [of "CHR '' ''" n] by (auto simp: show_nat_def is_ascii_digit_def code_def)

lemma unat_u32_less [simp]: "unat (n :: u32) < 4294967296"
  by (rule order_less_le_trans [OF unsigned_less]) simp

lemma parse_u32_show [simp]: "parse_u32 (show_nat (unat n)) = Some n"
  by (simp add: parse_u32_def parse_unsigned_show)

lemma next_name_numbered [simp]: "next_name (numbered base n) = numbered base (n + 1)"
proof -
  have "strip_suffix CHR '')'' (numbered base n) = Some (base @ '' ('' @ show_nat (unat n))"
    by (simp add: strip_suffix_def numbered_def butlast_append)
  then show ?thesis
    using rsplit_str_last [OF show_nat_no_space, of base "unat n"] by (simp add: next_name_def)
qed

lemma next_name_is_numbered: "\<exists>base n. next_name name = numbered base n"
proof -
  have "name @ '' (2)'' = numbered name 2" by (simp add: numbered_def, code_simp)
  then show ?thesis by (auto simp: next_name_def split: option.splits)
qed

lemma funpow_numbered: "(next_name ^^ k) (numbered base n) = numbered base (n + of_nat k)"
  by (induction k) (simp_all add: ac_simps)

lemma numbered_inject [simp]: "numbered base n = numbered base m \<longleftrightarrow> n = m"
proof
  assume "numbered base n = numbered base m"
  then have "parse_u32 (show_nat (unat n)) = parse_u32 (show_nat (unat m))" by (simp add: numbered_def)
  then show "n = m" by simp
qed simp

lemma of_nat_u32_inject: "(of_nat j :: u32) = of_nat k \<Longrightarrow> j < 4294967296 \<Longrightarrow> k < 4294967296 \<Longrightarrow> j = k"
  by (drule arg_cong [where f = unat]) (simp add: unat_of_nat take_bit_nat_eq_self)

lemma tried_names_inj: "inj_on (\<lambda>k. (next_name ^^ k) name) {..<4294967296}"
proof -
  obtain base n where n: "next_name name = numbered base n" using next_name_is_numbered by blast
  have later: "(next_name ^^ Suc k) name = numbered base (n + of_nat k)" for k
    by (simp add: funpow_Suc_right n funpow_numbered del: funpow.simps)
  have first: "name = numbered base (n - 1)" if "name = (next_name ^^ Suc k) name" for k
  proof -
    have m: "name = numbered base (n + of_nat k)" using that by (simp only: later)
    then have "next_name name = numbered base (n + of_nat k + 1)" by (metis next_name_numbered)
    with n have "n = n + of_nat k + 1" by simp
    then have "of_nat k = (- 1 :: u32)" by (simp add: eq_neg_iff_add_eq_0 add.assoc)
    with m show ?thesis by simp
  qed
  have zero: "k = 0" if "name = (next_name ^^ k) name" "k < 4294967296" for k
  proof (cases k)
    case (Suc j)
    with first [of j] that(1) have "name = numbered base (n - 1)" by blast
    with that(1) Suc later [of j] have "n - 1 = n + of_nat j" by (metis numbered_inject)
    then have "(of_nat (Suc j) :: u32) = of_nat 0" by (simp add: diff_eq_eq algebra_simps)
    with that(2) Suc show ?thesis by (metis of_nat_u32_inject zero_less_numeral)
  qed simp
  show ?thesis
  proof (rule inj_onI)
    fix j k assume jk: "j \<in> {..<4294967296}" "k \<in> {..<4294967296}" "(next_name ^^ j) name = (next_name ^^ k) name"
    show "j = k"
    proof (cases "j = 0 \<or> k = 0")
      case True
      with jk zero show ?thesis by force
    next
      case False
      then obtain j' k' where s: "j = Suc j'" "k = Suc k'" by (meson not0_implies_Suc)
      with jk(3) have "(of_nat j' :: u32) = of_nat k'" by (simp add: later del: funpow.simps)
      with jk(1,2) s show ?thesis using of_nat_u32_inject [of j' k'] by simp
    qed
  qed
qed

text \<open>Fewer than twenty names taken leave one of the twenty tried free, and the first such is found.\<close>

lemma first_free_name:
  assumes "finite taken" "card taken < m" "m \<le> 4294967296"
  obtains k where "k < m" "(next_name ^^ k) name \<notin> taken" "\<And>j. j < k \<Longrightarrow> (next_name ^^ j) name \<in> taken"
proof -
  let ?f = "\<lambda>k. (next_name ^^ k) name"
  have "card (?f ` {..<m}) = m"
    using inj_on_subset [OF tried_names_inj, of "{..<m}" name] assms(3) by (simp add: card_image)
  then have "\<not> ?f ` {..<m} \<subseteq> taken" using card_mono [OF assms(1), of "?f ` {..<m}"] assms(2) by auto
  then obtain k where "k < m" "?f k \<notin> taken" by auto
  then show thesis
    using that [of "LEAST k. ?f k \<notin> taken"] LeastI [of "\<lambda>k. ?f k \<notin> taken" k] Least_le [of "\<lambda>k. ?f k \<notin> taken" k]
      not_less_Least by fastforce
qed

section \<open>Syncing a bridge\<close>

lemma map_of_set_group [simp]:
  "map_of (an_bridges (set_group i g A)) j =
     (if j = i then map_option (\<lambda>b. b\<lparr>ba_group := g\<rparr>) (map_of (an_bridges A) i) else map_of (an_bridges A) j)"
  by (auto simp: set_group_def update_conv' split: option.splits)

lemma set_group_other [simp]:
  "an_backend (set_group i g A) = an_backend A" "an_state (set_group i g A) = an_state A"
  "an_available (set_group i g A) = an_available A" "an_names (set_group i g A) = an_names A"
  by (simp_all add: set_group_def split: option.splits)

lemma withdraw_group_other [simp]:
  "an_bridges (withdraw_group E g A) = an_bridges A" "an_state (withdraw_group E g A) = an_state A"
  "an_available (withdraw_group E g A) = an_available A" "an_names (withdraw_group E g A) = an_names A"
  "an_backend (withdraw_group E g A) = ae_withdraw E g (an_backend A)"
  by (simp_all add: withdraw_group_def)

lemma adjusted_set [simp]:
  "adjusted_public_name (set_adjusted_public_name st i c n) j c' =
     (if j = i then if c' = c then Some n else None else adjusted_public_name st j c')"
  by (simp add: adjusted_public_name_def set_adjusted_public_name_def)

text \<open>A LAN on which exactly the names in \<open>taken\<close> are in use by others.\<close>

definition names_taken :: "'b ann_env \<Rightarrow> string set \<Rightarrow> bool" where
  "names_taken E taken \<longleftrightarrow>
     (\<forall>B go name services. case fst (ae_publish E B go name services) of
        Inl e \<Rightarrow> e = Collision \<and> name \<in> taken
      | Inr g \<Rightarrow> name \<notin> taken)"

definition updates_succeed :: "'b ann_env \<Rightarrow> bool" where
  "updates_succeed E \<longleftrightarrow> (\<forall>f s. ss_state (ae_update E f s) = f (ss_state s))"

lemma names_takenD:
  "names_taken E taken \<Longrightarrow>
     (case fst (ae_publish E B go name services) of Inl e \<Rightarrow> e = Collision \<and> name \<in> taken | Inr g \<Rightarrow> name \<notin> taken)"
  for B go name services
  unfolding names_taken_def by blast

lemma publish_taken:
  assumes "names_taken E taken" "name \<in> taken"
  obtains B' where "ae_publish E B go name services = (Inl Collision, B')"
  using names_takenD [OF assms(1), where B = B and go = go and name = name and services = services] assms(2)
  by (cases "ae_publish E B go name services") (auto split: sum.splits)

lemma publish_free:
  assumes "names_taken E taken" "name \<notin> taken"
  obtains g B' where "ae_publish E B go name services = (Inr g, B')"
  using names_takenD [OF assms(1), where B = B and go = go and name = name and services = services] assms(2)
  by (cases "ae_publish E B go name services") (auto split: sum.splits)

text \<open>One try that collides, and the announcer the next try starts from.\<close>

definition after_collision :: "'b ann_env \<Rightarrow> string \<Rightarrow> bridge_ann \<Rightarrow> 'b \<Rightarrow> 'b announcer \<Rightarrow> 'b announcer" where
  "after_collision E i b B A = snd (adjust_name E i (set_group i None (A\<lparr>an_backend := B\<rparr>)))"

lemma after_collision_simps:
  assumes "map_of (an_bridges A) i = Some b"
  shows "map_of (an_bridges (after_collision E i b B A)) i = Some (b\<lparr>ba_group := None\<rparr>)"
    and "an_names (after_collision E i b B A) = (an_names A)(ba_name b := next_name (an_names A (ba_name b)))"
    and "an_available (after_collision E i b B A) = an_available A"
    and "an_state (after_collision E i b B A) =
      ae_update E (\<lambda>s. set_adjusted_public_name s i (ba_configured b) (next_name (an_names A (ba_name b)))) (an_state A)"
  using assms by (simp_all add: after_collision_def adjust_name_def Let_def)

lemma sync_tries_collides:
  assumes "map_of (an_bridges A) i = Some b" "distinct_services (ba_services b) \<noteq> []"
    and "ae_publish E (an_backend A) (ba_group b) (an_names A (ba_name b)) (distinct_services (ba_services b)) = (Inl Collision, B)"
  shows "sync_tries E (Suc n) i A = sync_tries E n i (after_collision E i b B A)"
  using assms by (simp add: after_collision_def adjust_name_def Let_def)

text \<open>The bridge's services are out under \<open>name\<close>, which its BLE ports follow.\<close>

definition announced_as :: "'b ann_env \<Rightarrow> string \<Rightarrow> bridge_ann \<Rightarrow> string \<Rightarrow> 'b announcer \<Rightarrow> bool" where
  "announced_as E i b name A \<longleftrightarrow>
     an_names A (ba_name b) = name
     \<and> (\<exists>g B go. map_of (an_bridges A) i = Some (b\<lparr>ba_group := Some g\<rparr>)
          \<and> ae_publish E B go name (distinct_services (ba_services b)) = (Inr g, an_backend A))"

lemma sync_tries_free:
  assumes "names_taken E taken" "updates_succeed E"
    and "map_of (an_bridges A) i = Some b" "distinct_services (ba_services b) \<noteq> []" "k < n"
    and "\<forall>j<k. (next_name ^^ j) (an_names A (ba_name b)) \<in> taken"
    and "(next_name ^^ k) (an_names A (ba_name b)) \<notin> taken"
  shows "announced_as E i b ((next_name ^^ k) (an_names A (ba_name b))) (sync_tries E n i A)
    \<and> adjusted_public_name (ss_state (an_state (sync_tries E n i A))) i (ba_configured b) =
        (if k = 0 then adjusted_public_name (ss_state (an_state A)) i (ba_configured b)
         else Some ((next_name ^^ k) (an_names A (ba_name b))))"
  using assms(3-)
proof (induction k arbitrary: n A b)
  case 0
  then obtain n' where n: "n = Suc n'" by (cases n) auto
  obtain g B where "ae_publish E (an_backend A) (ba_group b) (an_names A (ba_name b)) (distinct_services (ba_services b)) = (Inr g, B)"
    using publish_free [OF assms(1)] 0 by (metis funpow_0)
  with 0 n show ?case by (auto simp: announced_as_def)
next
  case (Suc k)
  let ?nm = "an_names A (ba_name b)" and ?b = "b\<lparr>ba_group := None\<rparr>"
  obtain n' where n: "n = Suc n'" using Suc by (cases n) auto
  have "?nm \<in> taken" using Suc.prems(4) by force
  then obtain B where "ae_publish E (an_backend A) (ba_group b) ?nm (distinct_services (ba_services b)) = (Inl Collision, B)"
    using publish_taken [OF assms(1)] by blast
  note step = sync_tries_collides [OF Suc.prems(1,2) this, of n']
  let ?A = "after_collision E i b B A"
  note a = after_collision_simps [OF Suc.prems(1), of E B]
  have nm: "(next_name ^^ j) (an_names ?A (ba_name ?b)) = (next_name ^^ Suc j) ?nm" for j
    by (simp add: a funpow_swap1)
  have free: "\<forall>j<k. (next_name ^^ j) (an_names ?A (ba_name ?b)) \<in> taken" "(next_name ^^ k) (an_names ?A (ba_name ?b)) \<notin> taken"
    unfolding nm using Suc.prems(4,5) by (blast, simp)
  have "announced_as E i ?b ((next_name ^^ k) (an_names ?A (ba_name ?b))) (sync_tries E n' i ?A)
    \<and> adjusted_public_name (ss_state (an_state (sync_tries E n' i ?A))) i (ba_configured ?b) =
        (if k = 0 then adjusted_public_name (ss_state (an_state ?A)) i (ba_configured ?b)
         else Some ((next_name ^^ k) (an_names ?A (ba_name ?b))))"
    using Suc.prems n by (intro Suc.IH a free) simp_all
  then show ?case using assms(2) n step unfolding nm by (simp add: announced_as_def a updates_succeed_def)
qed

text \<open>Every name taken: the bridge is left unannounced under the last name counted, and syncing ends.\<close>

lemma sync_tries_all_taken:
  assumes "names_taken E taken" "map_of (an_bridges A) i = Some b" "distinct_services (ba_services b) \<noteq> []"
    and "\<forall>j<n. (next_name ^^ j) (an_names A (ba_name b)) \<in> taken" "0 < n"
  shows "map_of (an_bridges (sync_tries E n i A)) i = Some (b\<lparr>ba_group := None\<rparr>)
    \<and> an_names (sync_tries E n i A) (ba_name b) = (next_name ^^ n) (an_names A (ba_name b))"
  using assms(2-)
proof (induction n arbitrary: A b)
  case (Suc n)
  let ?nm = "an_names A (ba_name b)" and ?b = "b\<lparr>ba_group := None\<rparr>"
  have "?nm \<in> taken" using Suc.prems(3) by force
  then obtain B where "ae_publish E (an_backend A) (ba_group b) ?nm (distinct_services (ba_services b)) = (Inl Collision, B)"
    using publish_taken [OF assms(1)] by blast
  note step = sync_tries_collides [OF Suc.prems(1,2) this, of n]
  let ?A = "after_collision E i b B A"
  note a = after_collision_simps [OF Suc.prems(1), of E B]
  have nm: "(next_name ^^ j) (an_names ?A (ba_name ?b)) = (next_name ^^ Suc j) ?nm" for j
    by (simp add: a funpow_swap1)
  show ?case
  proof (cases "n = 0")
    case True
    then show ?thesis using step a by simp
  next
    case False
    have tk: "\<forall>j<n. (next_name ^^ j) (an_names ?A (ba_name ?b)) \<in> taken"
      unfolding nm using Suc.prems(3) by blast
    have "map_of (an_bridges (sync_tries E n i ?A)) i = Some (?b\<lparr>ba_group := None\<rparr>)
      \<and> an_names (sync_tries E n i ?A) (ba_name ?b) = (next_name ^^ n) (an_names ?A (ba_name ?b))"
      using Suc.prems False by (intro Suc.IH a tk) simp_all
    then show ?thesis using step unfolding nm by simp
  qed
qed simp

text \<open>C40: if fewer than twenty names are taken on the LAN, syncing a bridge that listens ends with it announced
  under the first free name of the count, the name its BLE ports use, and remembered in the state when it is
  not the name the bridge started from.\<close>

theorem sync_announces:
  assumes "names_taken E taken" "updates_succeed E" "finite taken" "card taken < 20"
    and "an_available A" "map_of (an_bridges A) i = Some b" "distinct_services (ba_services b) \<noteq> []"
  shows "\<exists>k<20. let name = (next_name ^^ k) (an_names A (ba_name b)) in
      name \<notin> taken \<and> (\<forall>j<k. (next_name ^^ j) (an_names A (ba_name b)) \<in> taken)
      \<and> announced_as E i b name (sync E i A)
      \<and> (0 < k \<longrightarrow> adjusted_public_name (ss_state (an_state (sync E i A))) i (ba_configured b) = Some name)"
proof -
  obtain k where k: "k < 20" "(next_name ^^ k) (an_names A (ba_name b)) \<notin> taken"
      "\<forall>j<k. (next_name ^^ j) (an_names A (ba_name b)) \<in> taken"
    by (rule first_free_name [OF assms(3,4), of "an_names A (ba_name b)"]) auto
  with sync_tries_free [OF assms(1,2,6,7) k(1,3,2)] assms(5) show ?thesis
    by (auto simp: sync_def SYNC_TRIES_def Let_def intro!: exI [of _ k])
qed

section \<open>What is announced is what listens\<close>

text \<open>What an mDNS backend promises, with \<open>tbl\<close> the groups it holds: publishing replaces the group it is given
  or makes a new one, a failed publish leaves the group it was given with nothing, withdrawing removes it.\<close>

definition backend_ok :: "'b ann_env \<Rightarrow> ('b \<Rightarrow> string \<rightharpoonup> string \<times> service list) \<Rightarrow> bool" where
  "backend_ok E tbl \<longleftrightarrow>
     (\<forall>B go name services g B'. ae_publish E B go name services = (Inr g, B') \<longrightarrow>
        tbl B' = (tbl B)(g \<mapsto> (name, services)) \<and> (case go of Some g' \<Rightarrow> g = g' | None \<Rightarrow> tbl B g = None))
     \<and> (\<forall>B go name services e B'. ae_publish E B go name services = (Inl e, B') \<longrightarrow>
        tbl B' = (case go of Some g' \<Rightarrow> (tbl B)(g' := None) | None \<Rightarrow> tbl B))
     \<and> (\<forall>B g. tbl (ae_withdraw E g B) = (tbl B)(g := None))"

definition grp :: "'b announcer \<Rightarrow> string \<Rightarrow> string option" where
  "grp A i = Option.bind (map_of (an_bridges A) i) ba_group"

definition chn :: "'b announcer \<Rightarrow> string \<Rightarrow> nat option" where
  "chn A i = map_option ba_name (map_of (an_bridges A) i)"

definition svc :: "'b announcer \<Rightarrow> string \<Rightarrow> (string \<times> service) list option" where
  "svc A i = map_option ba_services (map_of (an_bridges A) i)"

text \<open>Each group held belongs to exactly one bridge, and each bridge has a name of its own.\<close>

definition base_ok :: "('b \<Rightarrow> string \<rightharpoonup> string \<times> service list) \<Rightarrow> 'b announcer \<Rightarrow> bool" where
  "base_ok tbl A \<longleftrightarrow> btree_ok (an_bridges A)
     \<and> (\<forall>g. tbl (an_backend A) g = None \<longleftrightarrow> (\<forall>i. grp A i \<noteq> Some g))
     \<and> (\<forall>i j g. grp A i = Some g \<longrightarrow> grp A j = Some g \<longrightarrow> i = j)
     \<and> (\<forall>i j c. chn A i = Some c \<longrightarrow> chn A j = Some c \<longrightarrow> i = j)
     \<and> (\<forall>i sv. svc A i = Some sv \<longrightarrow> btree_ok sv)"

definition exact :: "('b \<Rightarrow> string \<rightharpoonup> string \<times> service list) \<Rightarrow> 'b announcer \<Rightarrow> string \<Rightarrow> bool" where
  "exact tbl A i \<longleftrightarrow>
     (\<forall>b g. map_of (an_bridges A) i = Some b \<longrightarrow> ba_group b = Some g \<longrightarrow>
        distinct_services (ba_services b) \<noteq> []
        \<and> tbl (an_backend A) g = Some (an_names A (ba_name b), distinct_services (ba_services b)))"

text \<open>What syncing one bridge leaves alone.\<close>

definition frame :: "('b \<Rightarrow> string \<rightharpoonup> string \<times> service list) \<Rightarrow> string \<Rightarrow> 'b announcer \<Rightarrow> 'b announcer \<Rightarrow> bool" where
  "frame tbl i A A' \<longleftrightarrow>
     (an_available A' \<longrightarrow> an_available A)
     \<and> (\<exists>g. map_of (an_bridges A') i = map_option (\<lambda>b. b\<lparr>ba_group := g\<rparr>) (map_of (an_bridges A) i))
     \<and> (\<forall>j. j \<noteq> i \<longrightarrow> map_of (an_bridges A') j = map_of (an_bridges A) j)
     \<and> (\<forall>j c. j \<noteq> i \<longrightarrow> chn A j = Some c \<longrightarrow> an_names A' c = an_names A c)
     \<and> (\<forall>j g. j \<noteq> i \<longrightarrow> grp A j = Some g \<longrightarrow> tbl (an_backend A') g = tbl (an_backend A) g)"

lemma backend_okD:
  assumes "backend_ok E tbl"
  shows "ae_publish E B go name services = (Inr g, B') \<Longrightarrow>
      tbl B' = (tbl B)(g \<mapsto> (name, services)) \<and> (case go of Some g' \<Rightarrow> g = g' | None \<Rightarrow> tbl B g = None)"
    and "ae_publish E B go name services = (Inl e, B') \<Longrightarrow>
      tbl B' = (case go of Some g' \<Rightarrow> (tbl B)(g' := None) | None \<Rightarrow> tbl B)"
    and "tbl (ae_withdraw E g B) = (tbl B)(g := None)"
  using assms unfolding backend_ok_def by blast+

lemma keys_update: "map_of al k \<noteq> None \<Longrightarrow> map fst (AList.update k v al) = map fst al"
  by (induction al) auto

lemma btree_ok_set_group [simp]: "btree_ok (an_bridges A) \<Longrightarrow> btree_ok (an_bridges (set_group i g A))"
  by (auto simp: set_group_def btree_ok_def keys_update split: option.splits)

lemma grp_set_group [simp]:
  "grp (set_group i g A) = (if map_of (an_bridges A) i = None then grp A else (grp A)(i := g))"
  by (auto simp: grp_def fun_eq_iff)

lemma chn_set_group [simp]: "chn (set_group i g A) = chn A" "svc (set_group i g A) = svc A"
  by (auto simp: chn_def svc_def fun_eq_iff option.map_comp comp_def)

lemma grp_chn_upd [simp]:
  "grp (A\<lparr>an_backend := B\<rparr>) = grp A" "grp (A\<lparr>an_state := S\<rparr>) = grp A" "grp (A\<lparr>an_available := v\<rparr>) = grp A"
  "grp (A\<lparr>an_names := N\<rparr>) = grp A" "grp (withdraw_group E g A) = grp A"
  "chn (A\<lparr>an_backend := B\<rparr>) = chn A" "chn (A\<lparr>an_state := S\<rparr>) = chn A" "chn (A\<lparr>an_available := v\<rparr>) = chn A"
  "chn (A\<lparr>an_names := N\<rparr>) = chn A" "chn (withdraw_group E g A) = chn A"
  "svc (A\<lparr>an_backend := B\<rparr>) = svc A" "svc (A\<lparr>an_state := S\<rparr>) = svc A" "svc (A\<lparr>an_available := v\<rparr>) = svc A"
  "svc (A\<lparr>an_names := N\<rparr>) = svc A" "svc (withdraw_group E g A) = svc A"
  by (simp_all add: grp_def chn_def svc_def fun_eq_iff)

lemma frame_refl: "frame tbl i A A"
  unfolding frame_def by (cases "map_of (an_bridges A) i") (auto intro!: exI [of _ "grp A i"] simp: grp_def)

lemma frame_trans: "frame tbl i A A' \<Longrightarrow> frame tbl i A' A'' \<Longrightarrow> frame tbl i A A''"
  unfolding frame_def by (auto simp: grp_def chn_def option.map_comp comp_def)

lemma base_okD:
  assumes "base_ok tbl A"
  shows "btree_ok (an_bridges A)" and "tbl (an_backend A) g = None \<longleftrightarrow> (\<forall>i. grp A i \<noteq> Some g)"
    and "grp A i = Some g \<Longrightarrow> grp A j = Some g \<Longrightarrow> i = j" and "chn A i = Some c \<Longrightarrow> chn A j = Some c \<Longrightarrow> i = j"
    and "svc A i = Some sv \<Longrightarrow> btree_ok sv"
  using assms unfolding base_ok_def by blast+

lemma base_okI:
  assumes "base_ok tbl A" and "btree_ok (an_bridges A')" and "chn A' = chn A" and "svc A' = svc A"
    and "\<And>g. tbl (an_backend A') g = None \<longleftrightarrow> (\<forall>i. grp A' i \<noteq> Some g)"
    and "\<And>i j g. grp A' i = Some g \<Longrightarrow> grp A' j = Some g \<Longrightarrow> i = j"
  shows "base_ok tbl A'"
  unfolding base_ok_def using assms(2,5,6) base_okD(4,5) [OF assms(1)] assms(3,4) by simp

lemma update_same: "map_of al k = Some v \<Longrightarrow> AList.update k v al = al"
  by (induction al) auto

lemma ann_group_same: "ba_group b = g \<Longrightarrow> b\<lparr>ba_group := g\<rparr> = b"
  by (cases b) simp

lemma take_group:
  assumes "base_ok tbl A" and "tbl B = (case grp A i of Some g \<Rightarrow> (tbl (an_backend A))(g := None) | None \<Rightarrow> tbl (an_backend A))"
  shows "base_ok tbl (set_group i None (A\<lparr>an_backend := B\<rparr>))" and "frame tbl i A (set_group i None (A\<lparr>an_backend := B\<rparr>))"
proof -
  note inj = base_okD(3) [OF assms(1)] and held = base_okD(2) [OF assms(1)]
  let ?A = "set_group i None (A\<lparr>an_backend := B\<rparr>)"
  have grp: "grp ?A j = (if j = i then None else grp A j)" for j
    by (auto simp: grp_def)
  show "base_ok tbl ?A"
  proof (rule base_okI [OF assms(1)])
    show "tbl (an_backend ?A) g = None \<longleftrightarrow> (\<forall>j. grp ?A j \<noteq> Some g)" for g
    proof (cases "grp A i = Some g")
      case True
      then show ?thesis using assms(2) inj unfolding grp by auto
    next
      case False
      then have "(\<forall>j. grp ?A j \<noteq> Some g) \<longleftrightarrow> (\<forall>j. grp A j \<noteq> Some g)" by (auto simp: grp)
      with False show ?thesis using assms(2) held [of g] by (auto split: option.splits)
    qed
  qed (use inj grp base_okD(1) [OF assms(1)] in \<open>auto split: if_splits\<close>)
  show "frame tbl i A (set_group i None (A\<lparr>an_backend := B\<rparr>))"
    using assms(2) inj by (auto simp: frame_def split: option.splits)
qed

lemma give_group:
  assumes "base_ok tbl A" and "tbl B = (tbl (an_backend A))(g \<mapsto> x)" and "map_of (an_bridges A) i \<noteq> None"
    and "case grp A i of Some g' \<Rightarrow> g = g' | None \<Rightarrow> tbl (an_backend A) g = None"
  shows "base_ok tbl (set_group i (Some g) (A\<lparr>an_backend := B\<rparr>))" and "frame tbl i A (set_group i (Some g) (A\<lparr>an_backend := B\<rparr>))"
proof -
  note inj = base_okD(3) [OF assms(1)] and held = base_okD(2) [OF assms(1)]
  let ?A = "set_group i (Some g) (A\<lparr>an_backend := B\<rparr>)"
  have grp: "grp ?A j = (if j = i then Some g else grp A j)" for j
    using assms(3) by (auto simp: grp_def)
  have own: "j = i" if "grp A j = Some g" for j
    using assms(4) that inj held by (auto split: option.splits)
  show "base_ok tbl ?A"
  proof (rule base_okI [OF assms(1)])
    show "tbl (an_backend ?A) g' = None \<longleftrightarrow> (\<forall>j. grp ?A j \<noteq> Some g')" for g'
    proof (cases "g' = g")
      case False
      with assms(4) have "grp A i \<noteq> Some g'" by auto
      with False have "(\<forall>j. grp ?A j \<noteq> Some g') \<longleftrightarrow> (\<forall>j. grp A j \<noteq> Some g')" unfolding grp by (metis option.inject)
      with False show ?thesis using assms(2) held [of g'] by simp
    qed (use assms(2) grp in auto)
  qed (use inj own grp base_okD(1) [OF assms(1)] in \<open>auto split: if_splits\<close>)
  show "frame tbl i A (set_group i (Some g) (A\<lparr>an_backend := B\<rparr>))"
    using assms(2) own by (auto simp: frame_def)
qed

lemma adjust_name_ok:
  assumes "base_ok tbl A"
  shows "base_ok tbl (snd (adjust_name E i A))" and "frame tbl i A (snd (adjust_name E i A))"
proof -
  show "base_ok tbl (snd (adjust_name E i A))"
    using assms by (simp add: base_ok_def adjust_name_def Let_def split: option.splits)
  have "\<And>j c b. j \<noteq> i \<Longrightarrow> chn A j = Some c \<Longrightarrow> map_of (an_bridges A) i = Some b \<Longrightarrow> c \<noteq> ba_name b"
    using assms by (force simp: base_ok_def chn_def)
  then show "frame tbl i A (snd (adjust_name E i A))"
    using frame_refl [of tbl i A] by (auto simp: frame_def adjust_name_def Let_def split: option.splits)
qed

lemma unavailable_ok:
  "base_ok tbl (A\<lparr>an_available := v\<rparr>) = base_ok tbl A" "exact tbl (A\<lparr>an_available := v\<rparr>) i = exact tbl A i"
  "frame tbl i A A' \<Longrightarrow> frame tbl i A (A'\<lparr>an_available := False\<rparr>)"
  by (simp_all add: base_ok_def exact_def frame_def)

lemma exact_set_None: "exact tbl (set_group i None A) i"
  by (auto simp: exact_def)

text \<open>Syncing a bridge, however often it is renamed on the way.\<close>

lemma sync_tries_ok:
  assumes "backend_ok E tbl" "base_ok tbl A" "n = 0 \<Longrightarrow> grp A i = None"
  shows "base_ok tbl (sync_tries E n i A) \<and> frame tbl i A (sync_tries E n i A) \<and> exact tbl (sync_tries E n i A) i"
  using assms(2,3)
proof (induction n arbitrary: A)
  case 0
  then show ?case by (auto simp: frame_refl exact_def grp_def)
next
  case (Suc n)
  note law = backend_okD [OF assms(1)]
  show ?case
  proof (cases "map_of (an_bridges A) i")
    case None
    then show ?thesis using Suc.prems by (simp add: frame_refl exact_def)
  next
    case (Some b)
    let ?svs = "distinct_services (ba_services b)"
    have g: "grp A i = ba_group b" by (simp add: grp_def Some)
    show ?thesis
    proof (cases "?svs = []")
      case True
      define B where "B = (case ba_group b of None \<Rightarrow> an_backend A | Some g \<Rightarrow> ae_withdraw E g (an_backend A))"
      have t: "tbl B = (case grp A i of Some g \<Rightarrow> (tbl (an_backend A))(g := None) | None \<Rightarrow> tbl (an_backend A))"
        by (auto simp: B_def g law(3) split: option.splits)
      have eq: "sync_tries E (Suc n) i A = set_group i None (A\<lparr>an_backend := B\<rparr>)"
        using True Some Suc.prems by (cases "ba_group b")
          (auto simp: B_def Let_def set_group_def withdraw_group_def update_same ann_group_same)
      show ?thesis unfolding eq using take_group [OF Suc.prems(1) t] by (auto simp: exact_def)
    next
      case False
      obtain r B where p: "ae_publish E (an_backend A) (ba_group b) (an_names A (ba_name b)) ?svs = (r, B)" by fastforce
      show ?thesis
      proof (cases r)
        case (Inr gr)
        then have pub: "tbl B = (tbl (an_backend A))(gr \<mapsto> (an_names A (ba_name b), ?svs))"
            "case grp A i of Some g' \<Rightarrow> gr = g' | None \<Rightarrow> tbl (an_backend A) gr = None"
          using law(1) p unfolding g by auto
        have eq: "sync_tries E (Suc n) i A = set_group i (Some gr) (A\<lparr>an_backend := B\<rparr>)"
          using Some False p Inr by (simp add: Let_def)
        show ?thesis unfolding eq using give_group [OF Suc.prems(1) pub(1) _ pub(2)] Some False pub(1)
          by (auto simp: exact_def)
      next
        case (Inl e)
        let ?A = "set_group i None (A\<lparr>an_backend := B\<rparr>)"
        have A: "base_ok tbl ?A" "frame tbl i A ?A"
          using take_group [OF Suc.prems(1), of B i] law(2) [of _ _ _ _ e B] p Inl g by auto
        show ?thesis
        proof (cases e)
          case Collision
          have "sync_tries E (Suc n) i A = sync_tries E n i (after_collision E i b B A)"
            using sync_tries_collides [OF Some False] p Inl Collision by simp
          moreover have "grp (after_collision E i b B A) i = None"
            using after_collision_simps(1) [OF Some] by (simp add: grp_def)
          ultimately show ?thesis
            using Suc.IH [of "after_collision E i b B A"] adjust_name_ok [OF A(1)] frame_trans [OF A(2)]
            by (metis after_collision_def frame_trans)
        next
          case (Unavailable why)
          then have "sync_tries E (Suc n) i A = ?A\<lparr>an_available := False\<rparr>"
            using Some False p Inl by (simp add: Let_def)
          with A show ?thesis by (simp add: unavailable_ok exact_set_None)
        next
          case (Publish_Other why)
          then have "sync_tries E (Suc n) i A = ?A" using Some False p Inl by (simp add: Let_def)
          with A show ?thesis by (simp add: exact_set_None)
        qed
      qed
    qed
  qed
qed

text \<open>The invariant. \<open>P\<close> holds the names the supervisor has changed and not told the announcer about; without
  Avahi the groups are those of an earlier time.\<close>

definition ann_inv :: "('b \<Rightarrow> string \<rightharpoonup> string \<times> service list) \<Rightarrow> nat set \<Rightarrow> 'b announcer \<Rightarrow> bool" where
  "ann_inv tbl P A \<longleftrightarrow> base_ok tbl A \<and> (an_available A \<longrightarrow> (\<forall>i c. chn A i = Some c \<longrightarrow> c \<notin> P \<longrightarrow> exact tbl A i))"

lemma exact_frame: "frame tbl i A A' \<Longrightarrow> j \<noteq> i \<Longrightarrow> exact tbl A j \<Longrightarrow> exact tbl A' j"
  by (auto simp: exact_def frame_def chn_def grp_def)

lemma frame_chn: "frame tbl i A A' \<Longrightarrow> chn A' j = chn A j"
  by (cases "j = i") (auto simp: frame_def chn_def option.map_comp comp_def)

lemma sync_inv:
  assumes "backend_ok E tbl" "base_ok tbl A"
    and "\<And>j c. an_available A \<Longrightarrow> j \<noteq> i \<Longrightarrow> chn A j = Some c \<Longrightarrow> c \<notin> P \<Longrightarrow> exact tbl A j"
  shows "ann_inv tbl P (sync E i A)"
proof (cases "an_available A")
  case True
  let ?A = "sync_tries E SYNC_TRIES i A"
  have s: "base_ok tbl ?A" "frame tbl i A ?A" "exact tbl ?A i"
    using sync_tries_ok [OF assms(1,2), of SYNC_TRIES i] by (simp_all add: SYNC_TRIES_def)
  have "exact tbl ?A j" if "chn ?A j = Some c" "c \<notin> P" for j c
    using that s assms(3) [OF True] exact_frame [OF s(2)] frame_chn [OF s(2)] by (cases "j = i") metis+
  with s True show ?thesis by (simp add: sync_def ann_inv_def)
qed (use assms(2) in \<open>simp add: sync_def ann_inv_def\<close>)

lemma ann_invD: "ann_inv tbl P A \<Longrightarrow> base_ok tbl A"
    "ann_inv tbl P A \<Longrightarrow> an_available A \<Longrightarrow> chn A i = Some c \<Longrightarrow> c \<notin> P \<Longrightarrow> exact tbl A i"
  by (simp_all add: ann_inv_def)

lemma set_ann_simps [simp]:
  "an_backend (set_ann i b A) = an_backend A" "an_available (set_ann i b A) = an_available A" "an_names (set_ann i b A) = an_names A"
  by (simp_all add: set_ann_def)

lemma map_of_set_ann: "btree_ok (an_bridges A) \<Longrightarrow> map_of (an_bridges (set_ann i b A)) = (map_of (an_bridges A))(i \<mapsto> b)"
  by (simp add: set_ann_def map_of_btree_insert)

lemma set_ann_ok:
  assumes "base_ok tbl A" "ba_group b = grp A i" "btree_ok (ba_services b)" "\<And>j. j \<noteq> i \<Longrightarrow> chn A j \<noteq> Some (ba_name b)"
  shows "base_ok tbl (set_ann i b A)" and "j \<noteq> i \<Longrightarrow> exact tbl (set_ann i b A) j \<longleftrightarrow> exact tbl A j"
    and "chn (set_ann i b A) = (chn A)(i \<mapsto> ba_name b)"
proof -
  note m = map_of_set_ann [OF base_okD(1) [OF assms(1)]]
  have g: "grp (set_ann i b A) = grp A" using assms(2) by (auto simp: grp_def m fun_eq_iff)
  show c: "chn (set_ann i b A) = (chn A)(i \<mapsto> ba_name b)" by (auto simp: chn_def m fun_eq_iff)
  have v: "svc (set_ann i b A) = (svc A)(i \<mapsto> ba_services b)" by (auto simp: svc_def m fun_eq_iff)
  show "j \<noteq> i \<Longrightarrow> exact tbl (set_ann i b A) j \<longleftrightarrow> exact tbl A j" by (simp add: exact_def m)
  have "btree_ok (an_bridges (set_ann i b A))"
    using base_okD(1) [OF assms(1)] by (simp add: set_ann_def btree_ok_insert)
  then show "base_ok tbl (set_ann i b A)"
    unfolding base_ok_def g c v using assms(3,4) base_okD(2-) [OF assms(1)] by (auto split: if_splits)
qed

text \<open>A bridge replaced by one with the same group, then synced or not.\<close>

lemma set_ann_inv:
  assumes "backend_ok E tbl" "ann_inv tbl P A" "ba_group b = grp A i" "btree_ok (ba_services b)" "\<And>j. j \<noteq> i \<Longrightarrow> chn A j \<noteq> Some (ba_name b)"
  shows "ann_inv tbl (P - {ba_name b}) (sync E i (set_ann i b A))" and "ann_inv tbl P (sync E i (set_ann i b A))"
    and "grp A i = None \<Longrightarrow> ann_inv tbl (P - {ba_name b}) (set_ann i b A)"
    and "map_of (an_bridges A) i = Some b \<Longrightarrow> ann_inv tbl P (set_ann i b A)"
proof -
  note s = set_ann_ok [OF ann_invD(1) [OF assms(2)] assms(3,4,5)]
  have other: "exact tbl (set_ann i b A) j"
    if "an_available A" "j \<noteq> i" "chn (set_ann i b A) j = Some c" "c \<notin> P - {ba_name b}" for j c
    using that s(2,3) ann_invD(2) [OF assms(2), of j c] assms(5) [of j] by auto
  then show "ann_inv tbl (P - {ba_name b}) (sync E i (set_ann i b A))"
    by (intro sync_inv [OF assms(1) s(1)]) simp_all
  show "ann_inv tbl P (sync E i (set_ann i b A))"
    using other by (intro sync_inv [OF assms(1) s(1)]) simp_all
  show "ann_inv tbl (P - {ba_name b}) (set_ann i b A)" if "grp A i = None"
  proof -
    have "exact tbl (set_ann i b A) i" using that assms(3) map_of_set_ann [OF base_okD(1) [OF ann_invD(1) [OF assms(2)]]]
      by (simp add: exact_def)
    with s(1) other show ?thesis unfolding ann_inv_def by (metis set_ann_simps(2))
  qed
  show "ann_inv tbl P (set_ann i b A)" if "map_of (an_bridges A) i = Some b"
  proof -
    have "exact tbl (set_ann i b A) i = exact tbl A i" "chn A i = Some (ba_name b)"
      using that map_of_set_ann [OF base_okD(1) [OF ann_invD(1) [OF assms(2)]]] by (simp_all add: exact_def chn_def)
    with s assms(2) other show ?thesis unfolding ann_inv_def by (metis set_ann_simps(2) DiffD1 fun_upd_triv)
  qed
qed

lemma forget_ok:
  assumes "base_ok tbl A"
    and "tbl B = (case grp A i of Some g \<Rightarrow> (tbl (an_backend A))(g := None) | None \<Rightarrow> tbl (an_backend A))"
  shows "base_ok tbl (A\<lparr>an_bridges := AList.delete i (an_bridges A), an_backend := B\<rparr>)"
    and "j \<noteq> i \<Longrightarrow> exact tbl A j \<Longrightarrow> exact tbl (A\<lparr>an_bridges := AList.delete i (an_bridges A), an_backend := B\<rparr>) j"
proof -
  let ?A = "A\<lparr>an_bridges := AList.delete i (an_bridges A), an_backend := B\<rparr>"
  note inj = base_okD(3) [OF assms(1)]
  note m = delete_conv' [of i "an_bridges A"]
  have gr: "grp ?A = grp (set_group i None (A\<lparr>an_backend := B\<rparr>))" by (auto simp: grp_def m fun_eq_iff)
  have cs: "chn ?A = (chn A)(i := None)" "svc ?A = (svc A)(i := None)" by (auto simp: chn_def svc_def m fun_eq_iff)
  note t = take_group(1) [OF assms]
  show "base_ok tbl ?A" unfolding base_ok_def gr cs
  proof (intro conjI allI impI)
    show "btree_ok (an_bridges ?A)" using btree_ok_delete [OF base_okD(1) [OF assms(1)]] by simp
    show "(tbl (an_backend ?A) g = None) = (\<forall>j. grp (set_group i None (A\<lparr>an_backend := B\<rparr>)) j \<noteq> Some g)" for g
      using base_okD(2) [OF t, of g] by simp
    show "j = k" if "grp (set_group i None (A\<lparr>an_backend := B\<rparr>)) j = Some g" "grp (set_group i None (A\<lparr>an_backend := B\<rparr>)) k = Some g" for j k g
      by (rule base_okD(3) [OF t that])
    show "j = k" if "((chn A)(i := None)) j = Some c" "((chn A)(i := None)) k = Some c" for j k c
      by (rule base_okD(4) [OF assms(1)]) (use that in \<open>simp_all split: if_splits\<close>)
    show "btree_ok sv" if "((svc A)(i := None)) j = Some sv" for j sv
      by (rule base_okD(5) [OF assms(1), of j]) (use that in \<open>simp split: if_splits\<close>)
  qed
  show "exact tbl ?A j" if "j \<noteq> i" "exact tbl A j"
    using that assms(2) inj by (auto simp: exact_def m grp_def split: option.splits)
qed

lemma groups_of_iff: "btree_ok (an_bridges A) \<Longrightarrow> g \<in> set (groups_of (an_bridges A)) \<longleftrightarrow> (\<exists>i. grp A i = Some g)"
  by (force simp: groups_of_def List.map_filter_def grp_def bind_eq_Some_conv in_btree_iff [symmetric])

lemma foldl_withdraw:
  "an_bridges (foldl (\<lambda>A g. withdraw_group E g A) A gs) = an_bridges A"
  "backend_ok E tbl \<Longrightarrow> tbl (an_backend (foldl (\<lambda>A g. withdraw_group E g A) A gs))
      = (\<lambda>g. if g \<in> set gs then None else tbl (an_backend A) g)"
  by (induction gs arbitrary: A) (auto simp: backend_okD fun_eq_iff)

lemma withdraw_all_ok:
  assumes "backend_ok E tbl" "base_ok tbl A"
  shows "tbl (an_backend (withdraw_all E A)) = Map.empty" and "grp (withdraw_all E A) i = None"
    and "base_ok tbl (withdraw_all E A)"
proof -
  have b: "an_bridges (withdraw_all E A) = map (\<lambda>(i, b). (i, b\<lparr>ba_group := None\<rparr>)) (an_bridges A)"
    by (simp add: withdraw_all_def foldl_withdraw)
  have m: "map_of (an_bridges (withdraw_all E A)) i = map_option (\<lambda>b. b\<lparr>ba_group := None\<rparr>) (map_of (an_bridges A) i)" for i
    by (simp add: b map_of_map)
  show t: "tbl (an_backend (withdraw_all E A)) = Map.empty"
    using base_okD(2) [OF assms(2)] base_okD(1) [OF assms(2)]
    by (force simp: withdraw_all_def foldl_withdraw(2) [OF assms(1)] groups_of_iff fun_eq_iff)
  show g: "grp (withdraw_all E A) i = None" for i by (cases "map_of (an_bridges A) i") (simp_all add: grp_def m)
  have "chn (withdraw_all E A) = chn A" "svc (withdraw_all E A) = svc A" by (simp_all add: chn_def svc_def m fun_eq_iff option.map_comp comp_def)
  moreover have "map fst (an_bridges (withdraw_all E A)) = map fst (an_bridges A)" by (simp add: b case_prod_unfold)
  then have "btree_ok (an_bridges (withdraw_all E A))" using base_okD(1) [OF assms(2)] by (simp add: btree_ok_def)
  ultimately show "base_ok tbl (withdraw_all E A)" by (intro base_okI [OF assms(2)]) (simp_all add: t g)
qed

text \<open>What the inputs rely on: a bridge has a name channel of its own, and Avahi that was lost is reported gone
  before it is reported back.\<close>

fun input_ok :: "'b announcer \<Rightarrow> announce_input \<Rightarrow> bool" where
  "input_ok A (In_Cmd (An_Bridge i c ch)) = (\<forall>(j, b) \<in> set (an_bridges A). j \<noteq> i \<longrightarrow> ba_name b \<noteq> ch)"
| "input_ok A (In_Event ServerUp) = (an_available A \<or> groups_of (an_bridges A) = [])"
| "input_ok A _ = True"

fun pending :: "nat set \<Rightarrow> announce_input \<Rightarrow> nat set" where
  "pending P (In_Cmd (An_Bridge i c ch)) = P - {ch}"
| "pending P (In_Name ch name) = insert ch P"
| "pending P _ = P"

inductive ann_reach :: "'b ann_env \<Rightarrow> 'b announcer \<Rightarrow> nat set \<Rightarrow> 'b announcer \<Rightarrow> bool"
  for E :: "'b ann_env" and start :: "'b announcer" where
  reach_start: "ann_reach E start {} start"
| reach_step: "ann_reach E start P A \<Longrightarrow> input_ok A x \<Longrightarrow> ann_reach E start (pending P x) (on_input E A x)"

lemma known_ann:
  assumes "base_ok tbl A" "map_of (an_bridges A) i = Some b" "ba_name b' = ba_name b" "j \<noteq> i"
  shows "chn A j \<noteq> Some (ba_name b')"
  using base_okD(4) [OF assms(1), of i _ j] assms(2-) by (auto simp: chn_def)

lemma announce_cmd_inv:
  assumes "backend_ok E tbl" "ann_inv tbl P A" "input_ok A (In_Cmd c)"
  shows "ann_inv tbl (pending P (In_Cmd c)) (on_announce_cmd E c A)"
proof (cases c)
  case (An_Bridge i cf ch)
  have own: "chn A j \<noteq> Some ch" if "j \<noteq> i" for j
    using assms(3) An_Bridge that base_okD(1) [OF ann_invD(1) [OF assms(2)]] by (auto simp: chn_def in_btree_iff)
  show ?thesis
  proof (cases "map_of (an_bridges A) i")
    case None
    let ?b = "\<lparr>ba_configured = cf, ba_name = ch, ba_services = [], ba_group = None\<rparr>"
    have "grp A i = None" using None by (simp add: grp_def)
    then show ?thesis using set_ann_inv(3) [OF assms(1,2), of ?b i] own None An_Bridge by (simp add: btree_ok_def)
  next
    case (Some b)
    then have "btree_ok (ba_services b)" using base_okD(5) [OF ann_invD(1) [OF assms(2)], of i] by (simp add: svc_def)
    with Some show ?thesis
      using set_ann_inv(1) [OF assms(1,2), of "b\<lparr>ba_configured := cf, ba_name := ch\<rparr>" i] own An_Bridge by (simp add: grp_def)
  qed
next
  case (An_Forget i)
  note inv = ann_invD(1) [OF assms(2)]
  show ?thesis
  proof (cases "map_of (an_bridges A) i")
    case None
    then show ?thesis using assms(2) An_Forget by simp
  next
    case (Some b)
    define B where "B = (case ba_group b of None \<Rightarrow> an_backend A | Some g \<Rightarrow> ae_withdraw E g (an_backend A))"
    let ?A = "A\<lparr>an_bridges := AList.delete i (an_bridges A), an_backend := B\<rparr>"
    have "tbl B = (case grp A i of Some g \<Rightarrow> (tbl (an_backend A))(g := None) | None \<Rightarrow> tbl (an_backend A))"
      by (auto simp: B_def grp_def Some backend_okD [OF assms(1)] split: option.splits)
    note f = forget_ok [OF inv this]
    have eq: "on_announce_cmd E c A = ?A"
      using An_Forget Some by (cases "ba_group b") (simp_all add: B_def withdraw_group_def Let_def)
    have "chn ?A j = Some d \<Longrightarrow> j \<noteq> i \<and> chn A j = Some d" for j d
      by (cases "j = i") (auto simp: chn_def delete_conv')
    then show ?thesis unfolding eq using f ann_invD(2) [OF assms(2)] An_Forget by (auto simp: ann_inv_def)
  qed
next
  case (An_Up i port sv)
  show ?thesis
  proof (cases "map_of (an_bridges A) i")
    case (Some b)
    let ?b = "b\<lparr>ba_services := btree_insert port sv (ba_services b)\<rparr>"
    note k = known_ann [OF ann_invD(1) [OF assms(2)] Some]
    have sorted: "btree_ok (ba_services b)" using base_okD(5) [OF ann_invD(1) [OF assms(2)], of i] Some by (simp add: svc_def)
    have same: "?b = b" if "map_of (ba_services b) port = Some sv"
      using btree_insert_same [OF sorted that] by simp
    show ?thesis
      using set_ann_inv(2,4) [OF assms(1,2), of ?b i] k [of ?b] An_Up Some same btree_ok_insert [OF sorted] by (auto simp: grp_def Let_def)
  qed (use assms(2) An_Up in simp)
next
  case (An_Down i port)
  show ?thesis
  proof (cases "map_of (an_bridges A) i")
    case (Some b)
    let ?b = "b\<lparr>ba_services := AList.delete port (ba_services b)\<rparr>"
    note k = known_ann [OF ann_invD(1) [OF assms(2)] Some]
    have sorted: "btree_ok (ba_services b)" using base_okD(5) [OF ann_invD(1) [OF assms(2)], of i] Some by (simp add: svc_def)
    have same: "?b = b" if "map_of (ba_services b) port = None"
      using that by (cases b) (simp add: delete_id map_of_eq_None_iff)
    show ?thesis
      using set_ann_inv(2,4) [OF assms(1,2), of ?b i] k [of ?b] An_Down Some same btree_ok_delete [OF sorted] by (auto simp: grp_def Let_def)
  qed (use assms(2) An_Down in simp)
qed

lemma sync_keeps_inv: "backend_ok E tbl \<Longrightarrow> ann_inv tbl P A \<Longrightarrow> ann_inv tbl P (sync E i A)"
  by (rule sync_inv) (auto simp: ann_inv_def)

lemma foldl_sync_inv: "backend_ok E tbl \<Longrightarrow> ann_inv tbl P A \<Longrightarrow> ann_inv tbl P (foldl (\<lambda>A i. sync E i A) A ids)"
  by (induction ids arbitrary: A) (simp_all add: sync_keeps_inv)

lemma rename_inv:
  assumes "backend_ok E tbl" "ann_inv tbl P A"
  shows "ann_inv tbl P (rename E i A)"
proof -
  let ?A = "snd (adjust_name E i A)"
  note a = adjust_name_ok [OF ann_invD(1) [OF assms(2)], where E = E and i = i]
  have "an_available ?A \<Longrightarrow> an_available A" using a(2) by (simp add: frame_def)
  then have "ann_inv tbl P (sync E i ?A)"
    using exact_frame [OF a(2)] frame_chn [OF a(2)] ann_invD(2) [OF assms(2)]
    by (intro sync_inv [OF assms(1) a(1)]) metis
  moreover have "?A = A" if "\<not> fst (adjust_name E i A)"
    using that by (simp add: adjust_name_def Let_def split: option.splits)
  ultimately show ?thesis using assms(2) by (auto simp: rename_def split: prod.splits bool.splits)
qed

lemma announce_event_inv:
  assumes "backend_ok E tbl" "ann_inv tbl P A" "input_ok A (In_Event ev)"
  shows "ann_inv tbl P (on_announce_event E ev A)"
proof (cases ev)
  case ServerUp
  have "exact tbl A i" if "groups_of (an_bridges A) = []" for i
  proof -
    have "grp A i = None"
      using that groups_of_iff [OF base_okD(1) [OF ann_invD(1) [OF assms(2)]]] by (cases "grp A i") auto
    then show ?thesis by (auto simp: exact_def grp_def)
  qed
  with assms(2,3) ServerUp have "ann_inv tbl P (A\<lparr>an_available := True\<rparr>)"
    by (auto simp: ann_inv_def unavailable_ok)
  then show ?thesis using ServerUp foldl_sync_inv [OF assms(1)] by simp
next
  case ServerDown
  then show ?thesis using withdraw_all_ok(3) [OF assms(1) ann_invD(1) [OF assms(2)]] by (simp add: ann_inv_def unavailable_ok)
qed (use assms(2) rename_inv [OF assms(1,2)] in \<open>simp_all split: option.splits\<close>)

lemma on_input_inv:
  assumes "backend_ok E tbl" "ann_inv tbl P A" "input_ok A x"
  shows "ann_inv tbl (pending P x) (on_input E A x)"
proof (cases x)
  case (In_Name ch name)
  have "base_ok tbl (on_input E A x)" using In_Name ann_invD(1) [OF assms(2)] by (simp add: base_ok_def)
  moreover have "exact tbl (on_input E A x) i" if "an_available A" "chn A i = Some c" "c \<notin> insert ch P" for i c
    using In_Name that ann_invD(2) [OF assms(2), of i c] by (auto simp: exact_def chn_def)
  ultimately show ?thesis using In_Name by (auto simp: ann_inv_def)
qed (use announce_cmd_inv [OF assms(1,2)] announce_event_inv [OF assms(1,2)] assms(3) in simp_all)

lemma new_announcer_inv: "tbl B = Map.empty \<Longrightarrow> ann_inv tbl {} (new_announcer B st av names)"
  by (simp add: ann_inv_def base_ok_def exact_def new_announcer_def grp_def chn_def svc_def btree_ok_def)

lemma ann_reach_inv:
  assumes "backend_ok E tbl" "tbl B = Map.empty" "ann_reach E (new_announcer B st av names) P A"
  shows "ann_inv tbl P A"
  using assms(3) by induction (simp_all add: new_announcer_inv [of tbl, OF assms(2)] on_input_inv [OF assms(1)])


text \<open>The services of a bridge that are published do not overlap, and one that is left out overlaps one that is.\<close>

lemma distinct_services_snoc: "distinct_services (svs @ [ps]) = distinct_step (distinct_services svs) ps"
  by (simp add: distinct_services_def)

lemma distinct_services_spec:
  "sorted_wrt (\<lambda>s t. \<not> overlaps s t) (distinct_services svs)
   \<and> set (distinct_services svs) \<subseteq> snd ` set svs
   \<and> (\<forall>s \<in> snd ` set svs. s \<in> set (distinct_services svs) \<or> (\<exists>t \<in> set (distinct_services svs). overlaps t s))"
proof (induction svs rule: rev_induct)
  case Nil
  then show ?case by (simp add: distinct_services_def)
next
  case (snoc ps svs)
  then show ?case
    by (auto simp: distinct_services_snoc distinct_step_def list_ex_iff sorted_wrt_append)
qed

section \<open>A backend, and examples\<close>

text \<open>A backend that keeps its groups in a list; names in \<open>taken\<close> collide, those in \<open>down\<close> find it
  unavailable.\<close>

type_synonym groups = "(string \<times> string \<times> service list) list"

definition fresh_group :: "groups \<Rightarrow> string" where
  "fresh_group B = replicate (Suc (sum_list (map (\<lambda>p. length (fst p)) B))) CHR ''g''"

definition ex_publish :: "string list \<Rightarrow> string list \<Rightarrow> groups \<Rightarrow> string option \<Rightarrow> string \<Rightarrow> service list \<Rightarrow> (publish_error + string) \<times> groups" where
  "ex_publish taken down B go name services =
     (let rest = (case go of Some g \<Rightarrow> AList.delete g B | None \<Rightarrow> B);
          g = (case go of Some g \<Rightarrow> g | None \<Rightarrow> fresh_group B)
      in if List.member taken name then (Inl Collision, rest)
         else if List.member down name then (Inl (Unavailable ''gone''), rest)
         else (Inr g, AList.update g (name, services) B))"

definition ex_ann_env :: "string list \<Rightarrow> string list \<Rightarrow> groups ann_env" where
  "ex_ann_env taken down = \<lparr>ae_publish = ex_publish taken down, ae_withdraw = AList.delete, ae_update = (\<lambda>f s. s\<lparr>ss_state := f (ss_state s)\<rparr>)\<rparr>"

lemma fresh_group_new: "map_of B (fresh_group B) = None"
proof -
  have "length (fst p) \<le> sum_list (map (\<lambda>p. length (fst p)) B)" if "p \<in> set B" for p
    using that member_le_sum_list [of "length (fst p)" "map (\<lambda>p. length (fst p)) B"] by auto
  then show ?thesis unfolding map_of_eq_None_iff fresh_group_def by (force simp: not_less [symmetric])
qed

lemma ex_backend_ok: "backend_ok (ex_ann_env taken down) map_of"
  unfolding backend_ok_def ex_ann_env_def
  by (auto simp: ex_publish_def Let_def update_conv' delete_conv' fresh_group_new split: option.splits if_splits)

definition ex_service :: service where
  "ex_service = \<lparr>sv_port = 8001, sv_iface = If_Any, sv_proto = Proto_V4\<rparr>"

definition ex_start :: "string \<Rightarrow> groups announcer" where
  "ex_start name = new_announcer [] \<lparr>ss_path = [], ss_state = fmempty\<rparr> True (\<lambda>c. if c = 0 then name else ''gone'')"

definition ex_up :: "string \<Rightarrow> nat \<Rightarrow> announce_input list" where
  "ex_up i c = [In_Cmd (An_Bridge i ''TH-D75'' c), In_Cmd (An_Up i ''lan'' ex_service)]"

lemma ex_names_taken: "names_taken (ex_ann_env taken []) (set taken)"
  by (auto simp: names_taken_def ex_ann_env_def ex_publish_def Let_def)

lemma ex_updates: "updates_succeed (ex_ann_env taken down)"
  by (simp add: updates_succeed_def ex_ann_env_def)

definition ex_listening :: "groups announcer" where
  "ex_listening = foldl (on_input (ex_ann_env [] [])) (ex_start ''TH-D75'') (ex_up ''b'' 0)"

lemma ex_listening_bridge:
  "map_of (an_bridges ex_listening) ''b'' = Some \<lparr>ba_configured = ''TH-D75'', ba_name = 0,
     ba_services = [(''lan'', ex_service)], ba_group = Some ''g''\<rparr> \<and> an_available ex_listening \<and> an_names ex_listening 0 = ''TH-D75''"
  by code_simp

theorem sync_announces_witness:
  "\<exists>k<20. (next_name ^^ k) ''TH-D75'' \<noteq> ''TH-D75''
     \<and> an_names (sync (ex_ann_env [''TH-D75''] []) ''b'' ex_listening) 0 = (next_name ^^ k) ''TH-D75''
     \<and> adjusted_public_name (ss_state (an_state (sync (ex_ann_env [''TH-D75''] []) ''b'' ex_listening))) ''b'' ''TH-D75''
         = Some ((next_name ^^ k) ''TH-D75'')"
proof -
  let ?b = "\<lparr>ba_configured = ''TH-D75'', ba_name = 0, ba_services = [(''lan'', ex_service)], ba_group = Some ''g''\<rparr>"
  have "distinct_services (ba_services ?b) \<noteq> []" by (simp add: distinct_services_def distinct_step_def)
  with sync_announces [OF ex_names_taken [of "[''TH-D75'']"] ex_updates, where A = ex_listening and i = "''b''" and b = ?b] ex_listening_bridge
  obtain k where k: "k < 20" "(next_name ^^ k) ''TH-D75'' \<noteq> ''TH-D75''"
      "announced_as (ex_ann_env [''TH-D75''] []) ''b'' ?b ((next_name ^^ k) ''TH-D75'') (sync (ex_ann_env [''TH-D75''] []) ''b'' ex_listening)"
      "0 < k \<longrightarrow> adjusted_public_name (ss_state (an_state (sync (ex_ann_env [''TH-D75''] []) ''b'' ex_listening))) ''b'' ''TH-D75''
         = Some ((next_name ^^ k) ''TH-D75'')"
    by (auto simp: Let_def)
  then have "0 < k" by (cases k) auto
  with k show ?thesis by (auto simp: announced_as_def)
qed

lemma ex_listening_reach: "ann_reach (ex_ann_env [] []) (new_announcer [] \<lparr>ss_path = [], ss_state = fmempty\<rparr> True (\<lambda>c. if c = 0 then ''TH-D75'' else ''gone'')) {} ex_listening"
proof -
  let ?A = "on_input (ex_ann_env [] []) (ex_start ''TH-D75'') (In_Cmd (An_Bridge ''b'' ''TH-D75'' 0))"
  have "ann_reach (ex_ann_env [] []) (ex_start ''TH-D75'') {} (ex_start ''TH-D75'')" by (rule reach_start)
  then have "ann_reach (ex_ann_env [] []) (ex_start ''TH-D75'') (pending {} (In_Cmd (An_Bridge ''b'' ''TH-D75'' 0))) ?A"
    by (rule reach_step) (simp add: ex_start_def new_announcer_def)
  then have "ann_reach (ex_ann_env [] []) (ex_start ''TH-D75'') (pending (pending {} (In_Cmd (An_Bridge ''b'' ''TH-D75'' 0))) (In_Cmd (An_Up ''b'' ''lan'' ex_service)))
      (on_input (ex_ann_env [] []) ?A (In_Cmd (An_Up ''b'' ''lan'' ex_service)))"
    by (rule reach_step) simp
  then show ?thesis by (simp add: ex_listening_def ex_up_def ex_start_def del: on_input.simps)
qed


text \<open>Two bridges, of which the second finds Avahi unavailable. Without \<open>ServerDown\<close> in between, a port that starts
  listening meanwhile is not announced when Avahi is back: a bridge that has a group is taken to be announced.\<close>

lemma stale_after_unavailable:
  "let E = ex_ann_env [] [''gone''];
       A = foldl (on_input E) (ex_start ''TH-D75'')
         (ex_up ''b'' 0 @ ex_up ''c'' 1
          @ [In_Cmd (An_Up ''b'' ''lan6'' (ex_service\<lparr>sv_proto := Proto_V6\<rparr>)), In_Name 1 ''Field'', In_Event ServerUp])
   in an_available A
      \<and> map_option (length \<circ> ba_services) (map_of (an_bridges A) ''b'') = Some 2
      \<and> map_of (an_backend A) ''g'' = Some (''TH-D75'', [ex_service])"
  by code_simp

end
