(* ===== verification/Store.thy ===== *)
theory Store
  imports Config_State Rust_Text
begin

unbundle bit_operations_syntax

text \<open>
  \<^verbatim>\<open>src/config/store.rs\<close>: \<open>dynamic.toml\<close>, the objects created through the control API. A TOML document is
  a tree of tables as \<open>toml_edit\<close> presents it; parsing and printing it (with the comments and the
  layout it keeps) are parameters, as are reading and writing the file.
\<close>

section \<open>TOML documents\<close>

datatype tvalue =
    TV_Str string
  | TV_Bool bool
  | TV_Int int
  | TV_Float u64  \<comment> \<open>the bits of a double\<close>
  | TV_Array "tvalue list"
  | TV_Inline "(string \<times> tvalue) list"

datatype item =
    It_Value tvalue
  | It_Table "(string \<times> item) list"
  | It_Array "(string \<times> item) list list"

type_synonym table = "(string \<times> item) list"

fun as_str :: "item \<Rightarrow> string option" where
  "as_str (It_Value (TV_Str s)) = Some s"
| "as_str _ = None"

fun as_array_of_tables :: "item \<Rightarrow> table list option" where
  "as_array_of_tables (It_Array ts) = Some ts"
| "as_array_of_tables _ = None"

definition get_str :: "table \<Rightarrow> string \<Rightarrow> string option" where
  "get_str t k = Option.bind (map_of t k) as_str"

definition insert_str :: "string \<Rightarrow> string \<Rightarrow> table \<Rightarrow> table" where
  "insert_str k s t = AList.update k (It_Value (TV_Str s)) t"

section \<open>Kinds and revisions\<close>

datatype kind = K_Adapter | K_Tnc | K_Bridge

fun kind_key :: "kind \<Rightarrow> string" where
  "kind_key K_Adapter = ''adapter''"
| "kind_key K_Tnc = ''tnc''"
| "kind_key K_Bridge = ''bridge''"

text \<open>FNV-1a, and its 16 lower-case hex digits.\<close>

definition fnv_step :: "u64 \<Rightarrow> u8 \<Rightarrow> u64" where
  "fnv_step h b = (h XOR ucast b) * 0x100000001b3"

definition fnv1a :: "bytes \<Rightarrow> u64" where
  "fnv1a bs = foldl fnv_step 0xcbf29ce484222325 bs"

definition hex_digits_lower :: string where
  "hex_digits_lower = ''0123456789abcdef''"

definition hex16 :: "u64 \<Rightarrow> string" where
  "hex16 h = map (\<lambda>i. hex_digits_lower ! unat (drop_bit (4 * (15 - i)) h AND 15)) [0..<16]"

definition revision :: "string \<Rightarrow> string" where
  "revision text = hex16 (fnv1a (as_bytes text))"

section \<open>The store\<close>

definition newline :: string where "newline = [CHR 0x0A]"

definition HEADER :: string where
  "HEADER = ''# Dynamic config for kiss-tnc-bridge: adapters, TNCs and bridges created'' @ newline
     @ ''# with ktbctl. The daemon writes this file. To change it by hand, use'' @ newline
     @ ''# `ktbctl edit`, which checks the result before the daemon uses it.'' @ newline @ newline"

datatype store_error = Err_Changed_On_Disk string | Err_Invalid invalid_toml | Err_Io string
  and invalid_toml =
    Not_Toml string
  | Also_Found kind "string list"
  | Found_Many kind nat
  | Expected_A kind

record dynamic_store =
  ds_path :: string
  ds_doc :: table
  ds_on_disk :: "string option"

text \<open>\<open>toml_edit\<close>: a document from text, or why not, and its text.\<close>

record toml_lib =
  tl_parse :: "string \<Rightarrow> string + table"
  tl_print :: "table \<Rightarrow> string"

definition strip_header :: "string \<Rightarrow> string" where
  "strip_header text = (case strip_prefix HEADER text of Some body \<Rightarrow> body | None \<Rightarrow> text)"

definition from_text :: "toml_lib \<Rightarrow> string \<Rightarrow> string option \<Rightarrow> store_error + dynamic_store" where
  "from_text L path text =
     (let body = strip_header (case text of Some t \<Rightarrow> t | None \<Rightarrow> []) in
      case tl_parse L body of
        Inl e \<Rightarrow> Inl (Err_Invalid (Not_Toml (path @ '': '' @ e)))
      | Inr doc \<Rightarrow> Inr \<lparr>ds_path = path, ds_doc = doc, ds_on_disk = map_option revision text\<rparr>)"

definition open_store :: "(string \<Rightarrow> read_error + string) \<Rightarrow> toml_lib \<Rightarrow> string \<Rightarrow> store_error + dynamic_store" where
  "open_store read_file L path =
     (case read_file path of
        Inr t \<Rightarrow> from_text L path (Some t)
      | Inl Not_Found \<Rightarrow> from_text L path None
      | Inl (Read_Failed e) \<Rightarrow> Inl (Err_Io e))"

definition store_text :: "toml_lib \<Rightarrow> dynamic_store \<Rightarrow> string" where
  "store_text L s = (let body = tl_print L (ds_doc s) in if trim body = [] then body else HEADER @ body)"

definition store_revision :: "toml_lib \<Rightarrow> dynamic_store \<Rightarrow> string" where
  "store_revision L s = revision (store_text L s)"

definition tables_array :: "dynamic_store \<Rightarrow> kind \<Rightarrow> table list option" where
  "tables_array s k = Option.bind (map_of (ds_doc s) (kind_key k)) as_array_of_tables"

definition tables_of :: "dynamic_store \<Rightarrow> kind \<Rightarrow> table list" where
  "tables_of s k = (case tables_array s k of Some a \<Rightarrow> a | None \<Rightarrow> [])"

fun index_where :: "('a \<Rightarrow> bool) \<Rightarrow> 'a list \<Rightarrow> nat option" where
  "index_where P [] = None"
| "index_where P (x # xs) = (if P x then Some 0 else map_option Suc (index_where P xs))"

definition index_of :: "dynamic_store \<Rightarrow> kind \<Rightarrow> string \<Rightarrow> nat option" where
  "index_of s k i = Option.bind (tables_array s k) (index_where (\<lambda>t. get_str t ''id'' = Some i))"

definition store_ids :: "dynamic_store \<Rightarrow> kind \<Rightarrow> string list" where
  "store_ids s k = List.map_filter (\<lambda>t. get_str t ''id'') (tables_of s k)"

definition get_table :: "dynamic_store \<Rightarrow> kind \<Rightarrow> string \<Rightarrow> table option" where
  "get_table s k i =
     (case index_of s k i of None \<Rightarrow> None | Some n \<Rightarrow> map_option (\<lambda>a. a ! n) (tables_array s k))"

definition get_object :: "toml_lib \<Rightarrow> dynamic_store \<Rightarrow> kind \<Rightarrow> string \<Rightarrow> string option" where
  "get_object L s k i = map_option (\<lambda>t. tl_print L [(kind_key k, It_Array [t])]) (get_table s k i)"

definition object_revision :: "toml_lib \<Rightarrow> dynamic_store \<Rightarrow> kind \<Rightarrow> string \<Rightarrow> string option" where
  "object_revision L s k i = map_option revision (get_object L s k i)"

definition parse_object :: "toml_lib \<Rightarrow> kind \<Rightarrow> string \<Rightarrow> store_error + table" where
  "parse_object L k text =
     (case tl_parse L text of
        Inl e \<Rightarrow> Inl (Err_Invalid (Not_Toml (trim_end e)))
      | Inr doc \<Rightarrow>
          (let others = filter (\<lambda>key. key \<noteq> kind_key k) (map fst doc) in
           if others \<noteq> [] then Inl (Err_Invalid (Also_Found k others))
           else case Option.bind (map_of doc (kind_key k)) as_array_of_tables of
                  Some [t] \<Rightarrow> Inr t
                | Some a \<Rightarrow> Inl (Err_Invalid (Found_Many k (length a)))
                | None \<Rightarrow> Inl (Err_Invalid (Expected_A k))))"

definition replace_text :: "toml_lib \<Rightarrow> string \<Rightarrow> dynamic_store \<Rightarrow> store_error + dynamic_store" where
  "replace_text L text s =
     (case tl_parse L (strip_header text) of
        Inl e \<Rightarrow> Inl (Err_Invalid (Not_Toml (trim_end e)))
      | Inr doc \<Rightarrow> Inr (s\<lparr>ds_doc := doc\<rparr>))"

text \<open>The object with an id, changed in place (\<open>table_mut\<close>).\<close>

definition set_tables :: "kind \<Rightarrow> table list \<Rightarrow> dynamic_store \<Rightarrow> dynamic_store" where
  "set_tables k a s = s\<lparr>ds_doc := AList.update (kind_key k) (It_Array a) (ds_doc s)\<rparr>"

definition update_table :: "kind \<Rightarrow> string \<Rightarrow> (table \<Rightarrow> table) \<Rightarrow> dynamic_store \<Rightarrow> dynamic_store" where
  "update_table k i f s =
     (case (index_of s k i, tables_array s k) of
        (Some n, Some a) \<Rightarrow> set_tables k (a[n := f (a ! n)]) s
      | _ \<Rightarrow> s)"

text \<open>\<open>put\<close>: an object in the place of the one with its id, or appended. What is under the kind's key and is
  not an array of tables stays, and then nothing is put. \<open>renumber\<close> changes only where tables are printed.\<close>

definition put :: "kind \<Rightarrow> string \<Rightarrow> table \<Rightarrow> dynamic_store \<Rightarrow> dynamic_store" where
  "put k i t s =
     (case index_of s k i of
        Some n \<Rightarrow> update_table k i (\<lambda>_. t) s
      | None \<Rightarrow>
          (case map_of (ds_doc s) (kind_key k) of
             None \<Rightarrow> set_tables k [t] s
           | Some it \<Rightarrow> (case as_array_of_tables it of Some a \<Rightarrow> set_tables k (a @ [t]) s | None \<Rightarrow> s)))"

definition remove_nth :: "nat \<Rightarrow> 'a list \<Rightarrow> 'a list" where
  "remove_nth n xs = take n xs @ drop (Suc n) xs"

definition remove_object :: "kind \<Rightarrow> string \<Rightarrow> dynamic_store \<Rightarrow> bool \<times> dynamic_store" where
  "remove_object k i s =
     (case (index_of s k i, tables_array s k) of
        (Some n, Some a) \<Rightarrow>
          (let a' = remove_nth n a in
           (True, if a' = [] then s\<lparr>ds_doc := AList.delete (kind_key k) (ds_doc s)\<rparr> else set_tables k a' s))
      | _ \<Rightarrow> (False, s))"

section \<open>Saving\<close>

definition unchanged_on_disk :: "(string \<Rightarrow> read_error + string) \<Rightarrow> dynamic_store \<Rightarrow> store_error + bool" where
  "unchanged_on_disk read_file s =
     (case read_file (ds_path s) of
        Inr t \<Rightarrow> Inr (Some (revision t) = ds_on_disk s)
      | Inl Not_Found \<Rightarrow> Inr (ds_on_disk s = None)
      | Inl (Read_Failed e) \<Rightarrow> Inl (Err_Io e))"

text \<open>\<open>save\<close>: the result, the store and what was written.\<close>

definition save_store ::
  "(string \<Rightarrow> read_error + string) \<Rightarrow> (string \<Rightarrow> string \<Rightarrow> string option) \<Rightarrow> toml_lib \<Rightarrow> dynamic_store
   \<Rightarrow> (store_error + unit) \<times> dynamic_store \<times> string option" where
  "save_store read_file write_atomic L s =
     (case unchanged_on_disk read_file s of
        Inl e \<Rightarrow> (Inl e, s, None)
      | Inr False \<Rightarrow> (Inl (Err_Changed_On_Disk (ds_path s)), s, None)
      | Inr True \<Rightarrow>
          (let text = store_text L s in
           case write_atomic (ds_path s) text of
             Some e \<Rightarrow> (Inl (Err_Io e), s, None)
           | None \<Rightarrow> (Inr (), s\<lparr>ds_on_disk := Some (revision text)\<rparr>, Some text)))"

end
