(* ===== verification/Edit.thy ===== *)
theory Edit
  imports Store Config_Resolve
begin

text \<open>
  \<^verbatim>\<open>src/control/edit.rs\<close>: what the control API's commands do to \<open>dynamic.toml\<close> before the result is validated
  and applied. Objects arrive as JSON. Errors carry what their messages say.
\<close>

section \<open>The rest of the world\<close>

type_synonym world = "(source \<times> config_file) list"

definition file_has :: "kind \<Rightarrow> string \<Rightarrow> config_file \<Rightarrow> bool" where
  "file_has k i f =
     (case k of
        K_Adapter \<Rightarrow> list_ex (\<lambda>a. ad_id a = i) (cf_adapter f)
      | K_Tnc \<Rightarrow> list_ex (\<lambda>t. td_id t = i) (cf_tnc f)
      | K_Bridge \<Rightarrow> list_ex (\<lambda>b. brd_id b = Some i) (cf_bridge f))"

definition static_source :: "world \<Rightarrow> kind \<Rightarrow> string \<Rightarrow> source option" where
  "static_source w k i = map_option fst (find (\<lambda>(_, f). file_has k i f) w)"

definition static_bridge_names :: "world \<Rightarrow> string list" where
  "static_bridge_names w = concat (map (\<lambda>(_, f). map brd_name (cf_bridge f)) w)"

datatype bad_request =
    Not_An_Object
  | Not_A_Toml_Number
  | Null_Has_No_Form
  | Needs_Name
  | Needs_Id kind
  | Id_Cant_Change string string
  | Not_A_Port string

datatype edit_error =
    Static_Readonly kind string source
  | Edit_Not_Found kind string
  | No_Such_Port string string
  | Bad_Request bad_request
  | Id_Taken kind string
  | Name_Taken_By_Static string
  | Name_Taken string
  | Port_Taken string string
  | In_Use kind string "string list"
  | Cant_Read_Source string string

definition editable :: "dynamic_store \<Rightarrow> world \<Rightarrow> kind \<Rightarrow> string \<Rightarrow> edit_error + table" where
  "editable s w k i =
     (case static_source w k i of
        Some src \<Rightarrow> Inl (Static_Readonly k i src)
      | None \<Rightarrow> (case get_table s k i of Some t \<Rightarrow> Inr t | None \<Rightarrow> Inl (Edit_Not_Found k i)))"

section \<open>JSON to TOML\<close>

datatype json_num = Num_Int int | Num_Float u64

datatype json =
    J_Null
  | J_Bool bool
  | J_Num json_num
  | J_Str string
  | J_Arr "json list"
  | J_Obj "(string \<times> json) list"

fun is_object :: "json \<Rightarrow> bool" where
  "is_object (J_Obj _) = True"
| "is_object _ = False"

fun as_i64 :: "json_num \<Rightarrow> int option" where
  "as_i64 (Num_Int i) = (if - (2 ^ 63) \<le> i \<and> i < 2 ^ 63 then Some i else None)"
| "as_i64 (Num_Float _) = None"

text \<open>\<open>as_f64\<close> is serde's conversion of a number to a double.\<close>

fun json_to_value :: "(json_num \<Rightarrow> u64 option) \<Rightarrow> json \<Rightarrow> edit_error + tvalue"
  and json_to_values :: "(json_num \<Rightarrow> u64 option) \<Rightarrow> json list \<Rightarrow> edit_error + tvalue list"
  and json_to_inline :: "(json_num \<Rightarrow> u64 option) \<Rightarrow> (string \<times> json) list \<Rightarrow> edit_error + (string \<times> tvalue) list" where
  "json_to_value as_f64 (J_Bool b) = Inr (TV_Bool b)"
| "json_to_value as_f64 (J_Str s) = Inr (TV_Str s)"
| "json_to_value as_f64 (J_Num n) =
     (case as_i64 n of
        Some i \<Rightarrow> Inr (TV_Int i)
      | None \<Rightarrow> (case as_f64 n of Some f \<Rightarrow> Inr (TV_Float f) | None \<Rightarrow> Inl (Bad_Request Not_A_Toml_Number)))"
| "json_to_value as_f64 (J_Arr items) = (case json_to_values as_f64 items of Inl e \<Rightarrow> Inl e | Inr vs \<Rightarrow> Inr (TV_Array vs))"
| "json_to_value as_f64 (J_Obj m) = (case json_to_inline as_f64 m of Inl e \<Rightarrow> Inl e | Inr t \<Rightarrow> Inr (TV_Inline t))"
| "json_to_value as_f64 J_Null = Inl (Bad_Request Null_Has_No_Form)"
| "json_to_values as_f64 [] = Inr []"
| "json_to_values as_f64 (v # vs) =
     (case json_to_value as_f64 v of
        Inl e \<Rightarrow> Inl e
      | Inr t \<Rightarrow> (case json_to_values as_f64 vs of Inl e \<Rightarrow> Inl e | Inr ts \<Rightarrow> Inr (t # ts)))"
| "json_to_inline as_f64 [] = Inr []"
| "json_to_inline as_f64 ((k, v) # m) =
     (if v = J_Null then json_to_inline as_f64 m
      else case json_to_value as_f64 v of
        Inl e \<Rightarrow> Inl e
      | Inr t \<Rightarrow> (case json_to_inline as_f64 m of Inl e \<Rightarrow> Inl e | Inr ts \<Rightarrow> Inr ((k, t) # ts)))"

text \<open>Nested objects become sub-tables and arrays of objects arrays of tables. The keys of a JSON object are distinct.\<close>

fun json_to_table :: "(json_num \<Rightarrow> u64 option) \<Rightarrow> json \<Rightarrow> edit_error + table"
  and json_to_items :: "(json_num \<Rightarrow> u64 option) \<Rightarrow> (string \<times> json) list \<Rightarrow> edit_error + table"
  and json_to_item :: "(json_num \<Rightarrow> u64 option) \<Rightarrow> string \<Rightarrow> json \<Rightarrow> edit_error + table"
  and json_to_tables :: "(json_num \<Rightarrow> u64 option) \<Rightarrow> json list \<Rightarrow> edit_error + table list" where
  "json_to_table as_f64 (J_Obj m) = json_to_items as_f64 m"
| "json_to_table as_f64 J_Null = Inl (Bad_Request Not_An_Object)"
| "json_to_table as_f64 (J_Bool _) = Inl (Bad_Request Not_An_Object)"
| "json_to_table as_f64 (J_Num _) = Inl (Bad_Request Not_An_Object)"
| "json_to_table as_f64 (J_Str _) = Inl (Bad_Request Not_An_Object)"
| "json_to_table as_f64 (J_Arr _) = Inl (Bad_Request Not_An_Object)"
| "json_to_items as_f64 [] = Inr []"
| "json_to_items as_f64 ((k, v) # m) =
     (case json_to_item as_f64 k v of
        Inl e \<Rightarrow> Inl e
      | Inr it \<Rightarrow> (case json_to_items as_f64 m of Inl e \<Rightarrow> Inl e | Inr t \<Rightarrow> Inr (it @ t)))"
| "json_to_item as_f64 k J_Null = Inr []"
| "json_to_item as_f64 k (J_Obj m) =
     (case json_to_items as_f64 m of Inl e \<Rightarrow> Inl e | Inr t \<Rightarrow> Inr [(k, It_Table t)])"
| "json_to_item as_f64 k (J_Arr items) =
     (if items \<noteq> [] \<and> list_all is_object items
      then case json_to_tables as_f64 items of Inl e \<Rightarrow> Inl e | Inr a \<Rightarrow> Inr [(k, It_Array a)]
      else case json_to_value as_f64 (J_Arr items) of Inl e \<Rightarrow> Inl e | Inr x \<Rightarrow> Inr [(k, It_Value x)])"
| "json_to_item as_f64 k (J_Bool b) = Inr [(k, It_Value (TV_Bool b))]"
| "json_to_item as_f64 k (J_Str s) = Inr [(k, It_Value (TV_Str s))]"
| "json_to_item as_f64 k (J_Num n) =
     (case json_to_value as_f64 (J_Num n) of Inl e \<Rightarrow> Inl e | Inr x \<Rightarrow> Inr [(k, It_Value x)])"
| "json_to_tables as_f64 [] = Inr []"
| "json_to_tables as_f64 (v # vs) =
     (case json_to_table as_f64 v of
        Inl e \<Rightarrow> Inl e
      | Inr t \<Rightarrow> (case json_to_tables as_f64 vs of Inl e \<Rightarrow> Inl e | Inr ts \<Rightarrow> Inr (t # ts)))"

definition str_key :: "json \<Rightarrow> string \<Rightarrow> string option" where
  "str_key v k = (case v of J_Obj m \<Rightarrow> (case map_of m k of Some (J_Str s) \<Rightarrow> Some s | _ \<Rightarrow> None) | _ \<Rightarrow> None)"

section \<open>Ids that are left out\<close>

text \<open>\<open>(0..).map(..).find(..)\<close>: the first number whose id is free.\<close>

lemma show_nat_inject: "show_nat m = show_nat n \<longleftrightarrow> m = n"
proof
  assume "show_nat m = show_nat n"
  then have "parse_unsigned 10 (Suc (m + n)) (show_nat m) = parse_unsigned 10 (Suc (m + n)) (show_nat n)" by simp
  then show "m = n" by (simp add: parse_unsigned_show)
qed simp

lemma finite_numbered_taken: "finite {m. prefix @ show_nat m \<in> set taken}"
proof (rule finite_imageD [where f = "\<lambda>m. prefix @ show_nat m"])
  show "inj_on (\<lambda>m. prefix @ show_nat m) {m. prefix @ show_nat m \<in> set taken}"
    by (auto simp: inj_on_def show_nat_inject)
qed (rule finite_subset [of _ "set taken"], auto)

function lowest_free :: "string \<Rightarrow> string list \<Rightarrow> nat \<Rightarrow> string" where
  "lowest_free prefix taken n =
     (if prefix @ show_nat n \<in> set taken then lowest_free prefix taken (Suc n) else prefix @ show_nat n)"
  by auto
termination
proof (relation "measure (\<lambda>(prefix, taken, n). card {m. n \<le> m \<and> prefix @ show_nat m \<in> set taken})")
  fix prefix n and taken :: "string list"
  assume "prefix @ show_nat n \<in> set taken"
  then have "{m. Suc n \<le> m \<and> prefix @ show_nat m \<in> set taken} \<subset> {m. n \<le> m \<and> prefix @ show_nat m \<in> set taken}"
    by (auto intro!: psubsetI dest!: equalityD2 subsetD [where c = n])
  moreover have "finite {m. n \<le> m \<and> prefix @ show_nat m \<in> set taken}"
    by (rule finite_subset [OF _ finite_numbered_taken]) auto
  ultimately show "((prefix, taken, Suc n), prefix, taken, n)
      \<in> measure (\<lambda>(prefix, taken, n). card {m. n \<le> m \<and> prefix @ show_nat m \<in> set taken})"
    by (simp add: psubset_card_mono)
qed simp

declare lowest_free.simps [simp del]

definition edit_bridge_ids :: "dynamic_store \<Rightarrow> world \<Rightarrow> string list" where
  "edit_bridge_ids s w = concat (map (\<lambda>(_, f). List.map_filter brd_id (cf_bridge f)) w) @ store_ids s K_Bridge"

definition next_bridge_id :: "dynamic_store \<Rightarrow> world \<Rightarrow> string" where
  "next_bridge_id s w = lowest_free ''ktbr'' (edit_bridge_ids s w) 0"

definition check_bridge_name :: "dynamic_store \<Rightarrow> world \<Rightarrow> string \<Rightarrow> string option \<Rightarrow> edit_error + unit" where
  "check_bridge_name s w name except =
     (if name \<in> set (static_bridge_names w) then Inl (Name_Taken_By_Static name)
      else if list_ex (\<lambda>t. get_str t ''name'' = Some name \<and> get_str t ''id'' \<noteq> except) (tables_of s K_Bridge)
           then Inl (Name_Taken name)
      else Inr ())"

text \<open>\<open>name_ports\<close>: an explicit id for each port that has none.\<close>

fun name_port_list :: "string list \<Rightarrow> table list \<Rightarrow> table list" where
  "name_port_list taken [] = []"
| "name_port_list taken (p # ps) =
     (if map_of p ''id'' = None then
        (let i = lowest_free (case get_str p ''type'' of Some ty \<Rightarrow> ty | None \<Rightarrow> ''port'') taken 0
         in insert_str ''id'' i p # name_port_list (taken @ [i]) ps)
      else p # name_port_list taken ps)"

definition table_ports :: "table \<Rightarrow> table list option" where
  "table_ports t = Option.bind (map_of t ''port'') as_array_of_tables"

definition name_ports :: "table \<Rightarrow> table" where
  "name_ports t =
     (case table_ports t of
        None \<Rightarrow> t
      | Some ps \<Rightarrow>
          AList.update ''port'' (It_Array (name_port_list (List.map_filter (\<lambda>p. get_str p ''id'') ps) ps)) t)"

section \<open>Bridges\<close>

text \<open>The question mark operator.\<close>

definition and_then :: "'e + 'a \<Rightarrow> ('a \<Rightarrow> 'e + 'b) \<Rightarrow> 'e + 'b" where
  "and_then r f = (case r of Inl e \<Rightarrow> Inl e | Inr x \<Rightarrow> f x)"

lemma and_then_simps [simp]: "and_then (Inl e) f = Inl e" "and_then (Inr x) f = f x"
  by (simp_all add: and_then_def)

lemma and_then_Inr_iff [simp]: "and_then r f = Inr y \<longleftrightarrow> (\<exists>x. r = Inr x \<and> f x = Inr y)"
  by (cases r) simp_all

definition check_new_bridge_id :: "dynamic_store \<Rightarrow> world \<Rightarrow> string option \<Rightarrow> edit_error + string" where
  "check_new_bridge_id s w new_id =
     (case new_id of
        Some i \<Rightarrow> if i \<in> set (edit_bridge_ids s w) then Inl (Id_Taken K_Bridge i) else Inr i
      | None \<Rightarrow> Inr (next_bridge_id s w))"

definition needs_name :: "json \<Rightarrow> edit_error + string" where
  "needs_name def = (case str_key def ''name'' of None \<Rightarrow> Inl (Bad_Request Needs_Name) | Some name \<Rightarrow> Inr name)"

definition create_bridge ::
  "(json_num \<Rightarrow> u64 option) \<Rightarrow> world \<Rightarrow> json \<Rightarrow> dynamic_store \<Rightarrow> edit_error + string \<times> dynamic_store" where
  "create_bridge as_f64 w def s =
     and_then (needs_name def) (\<lambda>name.
     and_then (check_new_bridge_id s w (str_key def ''id'')) (\<lambda>i.
     and_then (check_bridge_name s w name None) (\<lambda>_.
     and_then (json_to_table as_f64 def) (\<lambda>t.
       let t1 = insert_str ''id'' i t;
           t2 = (if map_of t1 ''enabled'' = None
                 then AList.update ''enabled'' (It_Value (TV_Bool False)) t1 else t1)
       in Inr (i, put K_Bridge i (name_ports t2) s)))))"

definition id_stays :: "string \<Rightarrow> json \<Rightarrow> edit_error + unit" where
  "id_stays i def =
     (case str_key def ''id'' of
        Some other \<Rightarrow> if other \<noteq> i then Inl (Bad_Request (Id_Cant_Change i other)) else Inr ()
      | None \<Rightarrow> Inr ())"

definition update_bridge ::
  "(json_num \<Rightarrow> u64 option) \<Rightarrow> world \<Rightarrow> string \<Rightarrow> json \<Rightarrow> dynamic_store \<Rightarrow> edit_error + dynamic_store" where
  "update_bridge as_f64 w i def s =
     and_then (editable s w K_Bridge i) (\<lambda>_.
     and_then (id_stays i def) (\<lambda>_.
     and_then (needs_name def) (\<lambda>name.
     and_then (check_bridge_name s w name (Some i)) (\<lambda>_.
     and_then (json_to_table as_f64 def) (\<lambda>t.
       Inr (put K_Bridge i (name_ports (insert_str ''id'' i t)) s))))))"

definition delete_bridge :: "world \<Rightarrow> string \<Rightarrow> dynamic_store \<Rightarrow> edit_error + dynamic_store" where
  "delete_bridge w i s = and_then (editable s w K_Bridge i) (\<lambda>_. Inr (snd (remove_object K_Bridge i s)))"

text \<open>\<open>static_bridge_table\<close>: a static bridge's table, read from its file as it is now.\<close>

definition static_bridge_table ::
  "(string \<Rightarrow> read_error + string) \<Rightarrow> toml_lib \<Rightarrow> (read_error \<Rightarrow> string) \<Rightarrow> string \<Rightarrow> string \<Rightarrow> edit_error + table" where
  "static_bridge_table read_file L show_error path i =
     (case read_file path of
        Inl e \<Rightarrow> Inl (Cant_Read_Source path (show_error e))
      | Inr text \<Rightarrow>
          (case tl_parse L text of
             Inl e \<Rightarrow> Inl (Cant_Read_Source path e)
           | Inr doc \<Rightarrow>
               (case Option.bind (Option.bind (map_of doc ''bridge'') as_array_of_tables)
                       (find (\<lambda>t. get_str t ''id'' = Some i)) of
                  Some t \<Rightarrow> Inr t
                | None \<Rightarrow> Inl (Edit_Not_Found K_Bridge i))))"

definition clone_bridge ::
  "(string \<Rightarrow> string \<Rightarrow> edit_error + table) \<Rightarrow> world \<Rightarrow> string \<Rightarrow> string option \<Rightarrow> string \<Rightarrow> dynamic_store
   \<Rightarrow> edit_error + string \<times> dynamic_store" where
  "clone_bridge static_table w from new_id name s =
     and_then (case static_source w K_Bridge from of
                 Some (Static path) \<Rightarrow> static_table path from
               | _ \<Rightarrow> (case get_table s K_Bridge from of Some t \<Rightarrow> Inr t | None \<Rightarrow> Inl (Edit_Not_Found K_Bridge from))) (\<lambda>t.
     and_then (check_new_bridge_id s w new_id) (\<lambda>i.
     and_then (check_bridge_name s w name None) (\<lambda>_.
       let t1 = AList.update ''enabled'' (It_Value (TV_Bool False)) (insert_str ''name'' name (insert_str ''id'' i t))
       in Inr (i, put K_Bridge i (name_ports (AList.delete ''public_name'' t1)) s))))"

definition edit_set_enabled :: "string \<Rightarrow> bool \<Rightarrow> dynamic_store \<Rightarrow> edit_error + dynamic_store" where
  "edit_set_enabled i enabled s =
     (if get_table s K_Bridge i = None then Inl (Edit_Not_Found K_Bridge i)
      else Inr (update_table K_Bridge i (AList.update ''enabled'' (It_Value (TV_Bool enabled))) s))"

section \<open>Ports\<close>

definition ports_of_table :: "table \<Rightarrow> table list" where
  "ports_of_table t = (case table_ports t of Some ps \<Rightarrow> ps | None \<Rightarrow> [])"

definition set_ports :: "table list \<Rightarrow> table \<Rightarrow> table" where
  "set_ports ps t = AList.update ''port'' (It_Array ps) t"

definition port_index :: "table \<Rightarrow> string \<Rightarrow> nat option" where
  "port_index t port = Option.bind (table_ports t) (index_where (\<lambda>p. get_str p ''id'' = Some port))"

text \<open>\<open>is_port\<close> is serde reading a \<open>PortDef\<close>: \<open>None\<close>, or why it cannot.\<close>

definition check_port_def :: "(json \<Rightarrow> string option) \<Rightarrow> json \<Rightarrow> edit_error + unit" where
  "check_port_def is_port def = (case is_port def of Some e \<Rightarrow> Inl (Bad_Request (Not_A_Port e)) | None \<Rightarrow> Inr ())"

definition add_port ::
  "(json \<Rightarrow> string option) \<Rightarrow> (json_num \<Rightarrow> u64 option) \<Rightarrow> world \<Rightarrow> string \<Rightarrow> json \<Rightarrow> dynamic_store
   \<Rightarrow> edit_error + string option \<times> dynamic_store" where
  "add_port is_port as_f64 w bridge def s =
     and_then (check_port_def is_port def) (\<lambda>_.
     and_then (editable s w K_Bridge bridge) (\<lambda>t.
     and_then (case str_key def ''id'' of
                 Some i \<Rightarrow> if port_index t i \<noteq> None then Inl (Port_Taken bridge i) else Inr ()
               | None \<Rightarrow> Inr ()) (\<lambda>_.
     and_then (json_to_table as_f64 def) (\<lambda>p.
       let t' = name_ports (set_ports (ports_of_table t @ [p]) t)
       in Inr (get_str (last (ports_of_table t')) ''id'', update_table K_Bridge bridge (\<lambda>_. t') s)))))"

definition find_port :: "string \<Rightarrow> string \<Rightarrow> table \<Rightarrow> edit_error + nat" where
  "find_port bridge port t =
     (case port_index t port of Some n \<Rightarrow> Inr n | None \<Rightarrow> Inl (No_Such_Port bridge port))"

definition edit_update_port ::
  "(json \<Rightarrow> string option) \<Rightarrow> (json_num \<Rightarrow> u64 option) \<Rightarrow> world \<Rightarrow> string \<Rightarrow> string \<Rightarrow> json \<Rightarrow> dynamic_store
   \<Rightarrow> edit_error + dynamic_store" where
  "edit_update_port is_port as_f64 w bridge port def s =
     and_then (check_port_def is_port def) (\<lambda>_.
     and_then (editable s w K_Bridge bridge) (\<lambda>t.
     and_then (find_port bridge port t) (\<lambda>n.
     and_then (json_to_table as_f64 def) (\<lambda>p.
       Inr (update_table K_Bridge bridge
              (\<lambda>t. set_ports ((ports_of_table t)[n := insert_str ''id'' port p]) t) s)))))"

definition remove_port :: "world \<Rightarrow> string \<Rightarrow> string \<Rightarrow> dynamic_store \<Rightarrow> edit_error + dynamic_store" where
  "remove_port w bridge port s =
     and_then (editable s w K_Bridge bridge) (\<lambda>t.
     and_then (find_port bridge port t) (\<lambda>n.
       Inr (update_table K_Bridge bridge (\<lambda>t. set_ports (remove_nth n (ports_of_table t)) t) s)))"

section \<open>TNCs and adapters\<close>

definition ids_of :: "dynamic_store \<Rightarrow> world \<Rightarrow> kind \<Rightarrow> string list" where
  "ids_of s w k =
     concat (map (\<lambda>(_, f). case k of K_Adapter \<Rightarrow> map ad_id (cf_adapter f) | K_Tnc \<Rightarrow> map td_id (cf_tnc f) | K_Bridge \<Rightarrow> []) w)
     @ store_ids s k"

definition create_object ::
  "(json_num \<Rightarrow> u64 option) \<Rightarrow> world \<Rightarrow> kind \<Rightarrow> json \<Rightarrow> dynamic_store \<Rightarrow> edit_error + string \<times> dynamic_store" where
  "create_object as_f64 w k def s =
     and_then (case str_key def ''id'' of None \<Rightarrow> Inl (Bad_Request (Needs_Id k)) | Some i \<Rightarrow> Inr i) (\<lambda>i.
     and_then (if i \<in> set (ids_of s w k) then Inl (Id_Taken k i) else Inr ()) (\<lambda>_.
     and_then (json_to_table as_f64 def) (\<lambda>t. Inr (i, put k i t s))))"

text \<open>Where a reference to a dynamic TNC or adapter is: a port's key, by the port's position, or a section of a TNC.\<close>

datatype ref_path = Ref_Port string nat string | Ref_Section string string

definition str_or_unknown :: "table \<Rightarrow> string" where
  "str_or_unknown t = (case get_str t ''id'' of Some i \<Rightarrow> i | None \<Rightarrow> ''?'')"

definition port_refs :: "string \<Rightarrow> string \<Rightarrow> table \<Rightarrow> (ref_path \<times> string) list" where
  "port_refs key i b =
     map (\<lambda>(n, p). (Ref_Port (str_or_unknown b) n key, ''bridge '' @ str_or_unknown b @ '' port '' @ str_or_unknown p))
       (filter (\<lambda>(n, p). get_str p key = Some i) (enumerate 0 (ports_of_table b)))"

text \<open>An item seen as a table: a table or an inline table.\<close>

definition section_adapter :: "item \<Rightarrow> string option" where
  "section_adapter it =
     (case it of
        It_Table t \<Rightarrow> get_str t ''adapter''
      | It_Value (TV_Inline t) \<Rightarrow> (case map_of t ''adapter'' of Some (TV_Str a) \<Rightarrow> Some a | _ \<Rightarrow> None)
      | _ \<Rightarrow> None)"

definition section_refs :: "string \<Rightarrow> table \<Rightarrow> (ref_path \<times> string) list" where
  "section_refs i t =
     List.map_filter
       (\<lambda>sec. if Option.bind (map_of t sec) section_adapter = Some i
              then Some (Ref_Section (str_or_unknown t) sec, ''tnc '' @ str_or_unknown t) else None)
       [''spp'', ''ble'']"

definition references :: "dynamic_store \<Rightarrow> kind \<Rightarrow> string \<Rightarrow> (ref_path \<times> string) list" where
  "references s k i =
     (case k of
        K_Bridge \<Rightarrow> []
      | K_Tnc \<Rightarrow> concat (map (port_refs ''tnc'' i) (tables_of s K_Bridge))
      | K_Adapter \<Rightarrow> concat (map (port_refs ''adapter'' i) (tables_of s K_Bridge))
                     @ concat (map (section_refs i) (tables_of s K_Tnc)))"

definition set_section_adapter :: "string \<Rightarrow> item \<Rightarrow> item" where
  "set_section_adapter to it =
     (case it of
        It_Table t \<Rightarrow> It_Table (insert_str ''adapter'' to t)
      | It_Value (TV_Inline t) \<Rightarrow> It_Value (TV_Inline (AList.update ''adapter'' (TV_Str to) t))
      | _ \<Rightarrow> it)"

definition set_port_key :: "nat \<Rightarrow> string \<Rightarrow> string \<Rightarrow> table \<Rightarrow> table" where
  "set_port_key n key to b =
     (case table_ports b of
        Some ps \<Rightarrow> if n < length ps then set_ports (ps[n := insert_str key to (ps ! n)]) b else b
      | None \<Rightarrow> b)"

definition set_section :: "string \<Rightarrow> string \<Rightarrow> table \<Rightarrow> table" where
  "set_section sec to t =
     (case map_of t sec of Some it \<Rightarrow> AList.update sec (set_section_adapter to it) t | None \<Rightarrow> t)"

fun set_reference :: "string \<Rightarrow> dynamic_store \<Rightarrow> ref_path \<Rightarrow> dynamic_store" where
  "set_reference to s (Ref_Port bridge n key) = update_table K_Bridge bridge (set_port_key n key to) s"
| "set_reference to s (Ref_Section tnc sec) = update_table K_Tnc tnc (set_section sec to) s"

definition update_object ::
  "(json_num \<Rightarrow> u64 option) \<Rightarrow> world \<Rightarrow> kind \<Rightarrow> string \<Rightarrow> json \<Rightarrow> dynamic_store \<Rightarrow> edit_error + string \<times> dynamic_store" where
  "update_object as_f64 w k i def s =
     and_then (editable s w k i) (\<lambda>_.
       let new_id = (case str_key def ''id'' of Some j \<Rightarrow> j | None \<Rightarrow> i) in
     and_then (if new_id \<noteq> i \<and> new_id \<in> set (ids_of s w k) then Inl (Id_Taken k new_id) else Inr ()) (\<lambda>_.
     and_then (json_to_table as_f64 def) (\<lambda>t.
       let t' = insert_str ''id'' new_id t in
       if new_id = i then Inr (new_id, put k i t' s)
       else
         (let s1 = update_table k i (\<lambda>_. t') s
          in Inr (new_id, foldl (set_reference new_id) s1 (map fst (references s1 k i)))))))"

definition delete_object :: "world \<Rightarrow> kind \<Rightarrow> string \<Rightarrow> dynamic_store \<Rightarrow> edit_error + dynamic_store" where
  "delete_object w k i s =
     and_then (editable s w k i) (\<lambda>_.
       let refs = references s k i in
       if refs \<noteq> [] then Inl (In_Use k i (map snd refs)) else Inr (snd (remove_object k i s)))"

end
