(* ===== verification/Store_Props.thy ===== *)
theory Store_Props
  imports Store
begin

text \<open>
  Laws of the object store of \<open>dynamic.toml\<close>, as the interface the edits of the control API rely on, and what
  its revisions detect.
\<close>

section \<open>Revisions\<close>

text \<open>The FNV prime is odd, so a step can be undone: two texts that differ in one byte differ in their revision.\<close>

lemma fnv_prime_inverse: "(0x100000001b3 :: u64) * 0xce965057aff6957b = 1"
  by simp

lemma mult_prime_inject: "(x :: u64) * 0x100000001b3 = y * 0x100000001b3 \<Longrightarrow> x = y"
proof -
  assume "x * 0x100000001b3 = y * 0x100000001b3"
  then have "x * (0x100000001b3 * 0xce965057aff6957b) = y * (0x100000001b3 * 0xce965057aff6957b)"
    by (simp only: mult.assoc [symmetric])
  then show "x = y" by (simp only: fnv_prime_inverse mult_1_right)
qed

lemma xor_inject: "(x :: 'a :: len word) XOR z = y XOR z \<Longrightarrow> x = y"
  by (metis xor.assoc xor_self_eq xor.right_neutral)

lemma ucast_byte_inject: "(ucast (b :: u8) :: u64) = ucast b' \<Longrightarrow> b = b'"
proof (rule bit_word_eqI)
  fix n assume "(ucast b :: u64) = ucast b'" "n < LENGTH(8)"
  then have "bit (ucast b :: u64) n = bit (ucast b' :: u64) n" by simp
  with \<open>n < LENGTH(8)\<close> show "bit b n = bit b' n" by (simp add: bit_simps)
qed

lemma fnv_step_inject: "fnv_step h b = fnv_step h' b \<Longrightarrow> h = h'"
  unfolding fnv_step_def by (drule mult_prime_inject) (rule xor_inject)

lemma fnv_step_inject_byte: "fnv_step h b = fnv_step h b' \<Longrightarrow> b = b'"
  unfolding fnv_step_def
  by (drule mult_prime_inject) (metis xor_inject xor.commute ucast_byte_inject)

lemma foldl_fnv_inject: "foldl fnv_step h bs = foldl fnv_step h' bs \<Longrightarrow> h = h'"
  by (induction bs arbitrary: h h') (auto dest: fnv_step_inject)

lemma hex_digit_inject: "a < 16 \<Longrightarrow> b < 16 \<Longrightarrow> hex_digits_lower ! a = hex_digits_lower ! b \<Longrightarrow> a = b"
proof -
  have "distinct hex_digits_lower" "length hex_digits_lower = 16" by (simp_all add: hex_digits_lower_def)
  then show "a < 16 \<Longrightarrow> b < 16 \<Longrightarrow> hex_digits_lower ! a = hex_digits_lower ! b \<Longrightarrow> a = b"
    by (metis nth_eq_iff_index_eq)
qed

lemma nibble_less: "unat (x AND 15 :: u64) < 16"
proof -
  have "x AND 15 = take_bit 4 x" by (simp add: take_bit_eq_mask mask_eq_exp_minus_1)
  then show ?thesis using take_bit_nat_less_exp [of 4 "unat x"] by (simp add: unsigned_take_bit_eq)
qed

lemma bit_nibble: "bit (drop_bit (4 * k) h AND (15 :: u64)) m \<longleftrightarrow> m < 4 \<and> bit h (4 * k + m)"
proof -
  have "(15 :: u64) = mask 4" by (simp add: mask_eq_exp_minus_1)
  then show ?thesis by (simp only: bit_and_iff bit_drop_bit_eq bit_mask_iff comp_def) (auto dest: bit_imp_le_length)
qed

lemma hex16_inject: "hex16 h = hex16 h' \<Longrightarrow> h = h'"
proof (rule bit_word_eqI)
  fix n assume eq: "hex16 h = hex16 h'" and n: "n < LENGTH(64)"
  define k where "k = n div 4"
  have k: "k < 16" "n = 4 * k + n mod 4" "15 - (15 - k) = k" using n by (simp_all add: k_def)
  have at: "hex16 x ! (15 - k) = hex_digits_lower ! unat (drop_bit (4 * k) x AND 15)" for x
    using k by (simp add: hex16_def del: upt_Suc)
  have "unat (drop_bit (4 * k) h AND 15) = unat (drop_bit (4 * k) h' AND 15)"
    by (rule hex_digit_inject) (simp_all only: nibble_less at [symmetric] eq)
  then have "drop_bit (4 * k) h AND 15 = drop_bit (4 * k) h' AND 15" by (rule unsigned_word_eqI)
  then have "bit (drop_bit (4 * k) h AND 15) (n mod 4) = bit (drop_bit (4 * k) h' AND 15) (n mod 4)" by simp
  then show "bit h n = bit h' n" using k(2) unfolding bit_nibble by simp
qed

lemma code_inject: "code c = code d \<Longrightarrow> c = d"
  by (simp add: code_def)

lemma revision_detects_byte:
  "c \<noteq> d \<Longrightarrow> revision (p @ c # q) \<noteq> revision (p @ d # q)"
proof
  assume "c \<noteq> d" "revision (p @ c # q) = revision (p @ d # q)"
  then have "fnv_step (foldl fnv_step 0xcbf29ce484222325 (as_bytes p)) (of_nat (code c)) =
      fnv_step (foldl fnv_step 0xcbf29ce484222325 (as_bytes p)) (of_nat (code d))"
    by (auto simp: revision_def fnv1a_def dest!: hex16_inject foldl_fnv_inject)
  then have "(of_nat (code c) :: u8) = of_nat (code d)" by (rule fnv_step_inject_byte)
  then have "byte_char (of_nat (code c)) = byte_char (of_nat (code d))" by simp
  with \<open>c \<noteq> d\<close> show False by simp
qed

text \<open>The values the clients hold.\<close>

lemma revision_values: "revision [] = ''cbf29ce484222325''" "revision ''a'' = ''af63dc4c8601ec8c''"
  by code_simp+

section \<open>The objects of the store\<close>

lemma kind_key_inject [simp]: "kind_key k = kind_key k' \<longleftrightarrow> k = k'"
  by (cases k; cases k') simp_all

lemma get_str_simps [simp]:
  "get_str (insert_str k v t) k' = (if k' = k then Some v else get_str t k')"
  by (simp add: get_str_def insert_str_def update_conv')

lemma index_where_None [simp]: "index_where P xs = None \<longleftrightarrow> (\<forall>x \<in> set xs. \<not> P x)"
  by (induction xs) auto

lemma index_where_Some:
  "index_where P xs = Some n \<longleftrightarrow> n < length xs \<and> P (xs ! n) \<and> (\<forall>m<n. \<not> P (xs ! m))"
proof (induction xs arbitrary: n)
  case (Cons x xs)
  then show ?case by (cases n) (auto simp: less_Suc_eq_0_disj)
qed simp

lemma find_index: "find P xs = map_option (\<lambda>n. xs ! n) (index_where P xs)"
  by (induction xs) (auto simp: option.map_comp comp_def)

text \<open>Under each kind's key there is an array of tables, or nothing.\<close>

definition arrays_ok :: "dynamic_store \<Rightarrow> bool" where
  "arrays_ok s \<longleftrightarrow> (\<forall>k. case map_of (ds_doc s) (kind_key k) of None \<Rightarrow> True | Some it \<Rightarrow> as_array_of_tables it \<noteq> None)"

definition store_ok :: "dynamic_store \<Rightarrow> bool" where
  "store_ok s \<longleftrightarrow> arrays_ok s \<and> (\<forall>k. distinct (store_ids s k))"

abbreviation has_id :: "string \<Rightarrow> table \<Rightarrow> bool" where
  "has_id i t \<equiv> get_str t ''id'' = Some i"

lemma index_of_tables: "index_of s k i = index_where (has_id i) (tables_of s k)"
  by (simp add: index_of_def tables_of_def split: option.splits)

lemma tables_array_index: "index_of s k i = Some n \<Longrightarrow> tables_array s k = Some (tables_of s k)"
  by (auto simp: index_of_def tables_of_def bind_eq_Some_conv)

lemma get_table_find: "get_table s k i = find (has_id i) (tables_of s k)"
  unfolding get_table_def find_index index_of_tables [symmetric]
  by (cases "index_of s k i") (simp_all add: tables_array_index)

lemma get_table_None: "get_table s k i = None \<longleftrightarrow> i \<notin> set (store_ids s k)"
  by (force simp: get_table_find find_None_iff store_ids_def List.map_filter_def)

lemma tables_of_set_tables [simp]: "tables_of (set_tables k a s) k' = (if k' = k then a else tables_of s k')"
  by (simp add: tables_of_def tables_array_def set_tables_def update_conv')

lemma set_tables_simps [simp]: "ds_path (set_tables k a s) = ds_path s" "ds_on_disk (set_tables k a s) = ds_on_disk s"
  by (simp_all add: set_tables_def)

lemma arrays_ok_set_tables [simp]: "arrays_ok s \<Longrightarrow> arrays_ok (set_tables k a s)"
  by (auto simp: arrays_ok_def set_tables_def update_conv')

lemma arrays_ok_delete: "arrays_ok s \<Longrightarrow> arrays_ok (s\<lparr>ds_doc := AList.delete (kind_key k) (ds_doc s)\<rparr>)"
  by (auto simp: arrays_ok_def delete_conv')

lemma tables_of_delete [simp]:
  "tables_of (s\<lparr>ds_doc := AList.delete (kind_key k) (ds_doc s)\<rparr>) k' = (if k' = k then [] else tables_of s k')"
  by (simp add: tables_of_def tables_array_def delete_conv')

lemma store_ids_cong: "tables_of s k = tables_of s' k' \<Longrightarrow> store_ids s k = store_ids s' k'"
  by (simp add: store_ids_def)

text \<open>What the operations do to the list of tables of a kind.\<close>

lemma update_table_tables:
  "tables_of (update_table k i f s) k' =
     (if k' = k then case index_where (has_id i) (tables_of s k) of
          Some n \<Rightarrow> (tables_of s k)[n := f (tables_of s k ! n)] | None \<Rightarrow> tables_of s k
      else tables_of s k')"
  unfolding update_table_def index_of_tables [symmetric]
  by (cases "index_of s k i") (auto simp: tables_array_index split: option.splits)

lemma put_tables:
  assumes "arrays_ok s"
  shows "tables_of (put k i t s) k' =
     (if k' = k then case index_where (has_id i) (tables_of s k) of
          Some n \<Rightarrow> (tables_of s k)[n := t] | None \<Rightarrow> tables_of s k @ [t]
      else tables_of s k')"
proof (cases "index_of s k i")
  case None
  then have no: "index_where (has_id i) (tables_of s k) = None" by (simp only: index_of_tables)
  show ?thesis
  proof (cases "map_of (ds_doc s) (kind_key k)")
    case None
    then have "tables_of s k = []" by (simp add: tables_of_def tables_array_def)
    with None \<open>index_of s k i = None\<close> show ?thesis by (simp add: put_def)
  next
    case (Some it)
    with assms [unfolded arrays_ok_def, rule_format, of k] obtain a where "as_array_of_tables it = Some a" by auto
    moreover from this Some have "tables_of s k = a" by (simp add: tables_of_def tables_array_def)
    ultimately show ?thesis using Some no \<open>index_of s k i = None\<close> by (simp add: put_def del: index_where_None)
  qed
next
  case (Some n)
  then show ?thesis by (simp add: put_def update_table_tables index_of_tables)
qed

lemma remove_tables:
  "tables_of (snd (remove_object k i s)) k' =
     (if k' = k then case index_where (has_id i) (tables_of s k) of
          Some n \<Rightarrow> remove_nth n (tables_of s k) | None \<Rightarrow> tables_of s k
      else tables_of s k')"
  unfolding remove_object_def index_of_tables [symmetric]
  by (cases "index_of s k i") (auto simp: tables_array_index Let_def split: option.splits)

lemma arrays_ok_ops:
  assumes "arrays_ok s"
  shows "arrays_ok (update_table k i f s)" "arrays_ok (put k i t s)" "arrays_ok (snd (remove_object k i s))"
  using assms by (auto simp: update_table_def put_def remove_object_def Let_def arrays_ok_delete split: option.splits)

section \<open>The store as an interface\<close>

text \<open>What the edits rely on: an object put is the one found under its kind and id, one removed is gone, and
  no other object is touched.\<close>

locale object_store =
  fixes ok :: "'s \<Rightarrow> bool"
    and lookup :: "'s \<Rightarrow> 'k \<Rightarrow> 'i \<Rightarrow> 't option"
    and put_obj :: "'k \<Rightarrow> 'i \<Rightarrow> 't \<Rightarrow> 's \<Rightarrow> 's"
    and remove_obj :: "'k \<Rightarrow> 'i \<Rightarrow> 's \<Rightarrow> 's"
    and fits :: "'i \<Rightarrow> 't \<Rightarrow> bool"
  assumes ok_put: "ok s \<Longrightarrow> fits i t \<Longrightarrow> ok (put_obj k i t s)"
    and lookup_put: "ok s \<Longrightarrow> fits i t \<Longrightarrow> lookup (put_obj k i t s) k' i' = (if k' = k \<and> i' = i then Some t else lookup s k' i')"
    and ok_remove: "ok s \<Longrightarrow> ok (remove_obj k i s)"
    and lookup_remove: "ok s \<Longrightarrow> lookup (remove_obj k i s) k' i' = (if k' = k \<and> i' = i then None else lookup s k' i')"
begin

lemma remove_put: "ok s \<Longrightarrow> fits i t \<Longrightarrow> lookup s k i = None \<Longrightarrow> lookup (remove_obj k i (put_obj k i t s)) = lookup s"
  by (auto simp: fun_eq_iff lookup_put lookup_remove ok_put)

lemma puts_ok: "ok s \<Longrightarrow> \<forall>(k, i, t) \<in> set os. fits i t \<Longrightarrow> ok (foldl (\<lambda>s (k, i, t). put_obj k i t s) s os)"
  by (induction os arbitrary: s) (auto simp: ok_put)

lemma last_put_found:
  assumes "ok s" "\<forall>(k, i, t) \<in> set os. fits i t"
  shows "lookup (foldl (\<lambda>s (k, i, t). put_obj k i t s) s os) k i =
     (case map_of (rev (map (\<lambda>(k, i, t). ((k, i), t)) os)) (k, i) of Some t \<Rightarrow> Some t | None \<Rightarrow> lookup s k i)"
  using assms by (induction os arbitrary: s) (auto simp: ok_put lookup_put map_add_def split: option.splits)

end

lemma store_ids_tables: "store_ids s k = List.map_filter (\<lambda>t. get_str t ''id'') (tables_of s k)"
  by (simp add: store_ids_def)

lemma map_filter_append: "List.map_filter f (xs @ ys) = List.map_filter f xs @ List.map_filter f ys"
  by (simp add: List.map_filter_def)

lemma map_filter_nth: "n < length xs \<Longrightarrow> List.map_filter f xs = List.map_filter f (take n xs) @ List.map_filter f [xs ! n] @ List.map_filter f (drop (Suc n) xs)"
  by (metis map_filter_append append_Cons append_Nil id_take_nth_drop)

lemma map_filter_update: "n < length xs \<Longrightarrow> f v = f (xs ! n) \<Longrightarrow> List.map_filter f (xs[n := v]) = List.map_filter f xs"
  by (induction xs arbitrary: n) (auto simp: List.map_filter_simps nth_Cons split: nat.splits option.splits)

lemma distinct_map_filter_remove: "distinct (List.map_filter f xs) \<Longrightarrow> distinct (List.map_filter f (remove_nth n xs))"
proof (cases "n < length xs")
  case True
  then show "distinct (List.map_filter f xs) \<Longrightarrow> distinct (List.map_filter f (remove_nth n xs))"
    by (auto simp: map_filter_nth [of n xs f] remove_nth_def map_filter_append)
qed (simp add: remove_nth_def)

lemma update_ids: "(\<And>t. has_id i t \<Longrightarrow> has_id i (f t)) \<Longrightarrow> store_ids (update_table k i f s) k' = store_ids s k'"
  by (auto simp: store_ids_tables update_table_tables index_where_Some map_filter_update split: option.splits)

lemma put_ids:
  "arrays_ok s \<Longrightarrow> has_id i t \<Longrightarrow>
     store_ids (put k i t s) k' = store_ids s k' @ (if k' = k \<and> i \<notin> set (store_ids s k) then [i] else [])"
proof -
  assume s: "arrays_ok s" "has_id i t"
  show ?thesis
  proof (cases "index_where (has_id i) (tables_of s k)")
    case None
    then have "i \<notin> set (store_ids s k)" by (auto simp: store_ids_tables List.map_filter_def)
    with None s show ?thesis
      by (simp add: store_ids_tables put_tables [OF s(1)] map_filter_append List.map_filter_simps del: index_where_None)
  next
    case (Some n)
    then have "i \<in> set (store_ids s k)"
      by (force simp: index_where_Some store_ids_tables List.map_filter_def in_set_conv_nth)
    moreover have "n < length (tables_of s k)" "has_id i (tables_of s k ! n)" using Some by (simp_all add: index_where_Some)
    ultimately show ?thesis using Some s by (simp add: store_ids_tables put_tables [OF s(1)] map_filter_update)
  qed
qed

lemma remove_ids: "distinct (store_ids s k') \<Longrightarrow> distinct (store_ids (snd (remove_object k i s)) k')"
  by (auto simp: store_ids_tables remove_tables distinct_map_filter_remove split: option.splits)

lemma store_ok_update: "(\<And>t. has_id i t \<Longrightarrow> has_id i (f t)) \<Longrightarrow> store_ok s \<Longrightarrow> store_ok (update_table k i f s)"
  by (simp add: store_ok_def arrays_ok_ops update_ids)

text \<open>Looking up in a list of tables with one entry changed, added or removed.\<close>

lemma find_update: "n < length xs \<Longrightarrow> P (xs ! n) \<longleftrightarrow> P v \<Longrightarrow> \<not> P v \<Longrightarrow> find P (xs[n := v]) = find P xs"
  by (induction xs arbitrary: n) (auto simp: nth_Cons split: nat.splits)

lemma find_update_hit: "n < length xs \<Longrightarrow> P v \<Longrightarrow> (\<forall>m<n. \<not> P (xs ! m)) \<Longrightarrow> find P (xs[n := v]) = Some v"
proof (induction xs arbitrary: n)
  case (Cons x xs)
  then show ?case by (cases n) force+
qed simp

lemma find_remove: "n < length xs \<Longrightarrow> \<not> P (xs ! n) \<Longrightarrow> find P (remove_nth n xs) = find P xs"
  unfolding remove_nth_def by (induction xs arbitrary: n) (auto simp: nth_Cons split: nat.splits)

lemma get_table_update:
  assumes "\<And>t. has_id i t \<Longrightarrow> has_id i (f t)"
  shows "get_table (update_table k i f s) k' i' =
     (if k' = k \<and> i' = i then map_option f (get_table s k i) else get_table s k' i')"
proof (cases "index_where (has_id i) (tables_of s k)")
  case None
  then have "find (has_id i) (tables_of s k) = None" by (simp add: find_index del: index_where_None)
  with None show ?thesis by (simp add: get_table_find update_table_tables del: index_where_None)
next
  case (Some n)
  let ?xs = "tables_of s k"
  have n: "n < length ?xs" "has_id i (?xs ! n)" "\<forall>m<n. \<not> has_id i (?xs ! m)" using Some by (auto simp: index_where_Some)
  have "find (has_id i) (?xs[n := f (?xs ! n)]) = Some (f (?xs ! n))" using n assms by (intro find_update_hit) auto
  moreover have "find (has_id i') (?xs[n := f (?xs ! n)]) = find (has_id i') ?xs" if "i' \<noteq> i"
    using that n assms [OF n(2)] by (intro find_update) auto
  ultimately show ?thesis using Some by (auto simp: get_table_find update_table_tables find_index)
qed

lemma get_table_put:
  assumes "store_ok s" "has_id i t"
  shows "get_table (put k i t s) k' i' = (if k' = k \<and> i' = i then Some t else get_table s k' i')"
proof (cases "index_of s k i")
  case None
  then have no: "index_where (has_id i) (tables_of s k) = None" by (simp only: index_of_tables)
  then have "find (has_id i) (tables_of s k) = None" by (simp add: find_index del: index_where_None)
  moreover have "arrays_ok s" using assms(1) by (simp add: store_ok_def)
  ultimately show ?thesis using no assms(2)
    by (auto simp: get_table_find put_tables find_append simp del: index_where_None split: option.splits)
next
  case (Some n)
  then have "get_table s k i \<noteq> None" by (simp add: get_table_find find_index index_of_tables)
  with Some show ?thesis using get_table_update [of i "\<lambda>_. t" k s k' i'] assms(2) by (auto simp: put_def)
qed

lemma get_table_remove:
  assumes "store_ok s"
  shows "get_table (snd (remove_object k i s)) k' i' = (if k' = k \<and> i' = i then None else get_table s k' i')"
proof (cases "index_where (has_id i) (tables_of s k)")
  case None
  then have "find (has_id i) (tables_of s k) = None" by (simp add: find_index del: index_where_None)
  with None show ?thesis by (simp add: get_table_find remove_tables del: index_where_None)
next
  case (Some n)
  let ?xs = "tables_of s k"
  have n: "n < length ?xs" "has_id i (?xs ! n)" using Some by (auto simp: index_where_Some)
  have "i \<notin> set (store_ids (snd (remove_object k i s)) k)"
  proof -
    have "distinct (List.map_filter (\<lambda>t. get_str t ''id'') ?xs)" using assms by (simp add: store_ok_def store_ids_tables)
    then have "i \<notin> set (List.map_filter (\<lambda>t. get_str t ''id'') (remove_nth n ?xs))"
      using n(2) unfolding map_filter_nth [OF n(1)] remove_nth_def map_filter_append by (simp add: List.map_filter_simps)
    with Some show ?thesis by (simp add: store_ids_tables remove_tables)
  qed
  then have "get_table (snd (remove_object k i s)) k i = None" by (simp add: get_table_None)
  moreover have "find (has_id i') (remove_nth n ?xs) = find (has_id i') ?xs" if "i' \<noteq> i"
    using that n by (intro find_remove) auto
  ultimately show ?thesis using Some by (auto simp: get_table_find remove_tables)
qed

interpretation dyn: object_store store_ok get_table put "\<lambda>k i s. snd (remove_object k i s)" has_id
proof
  show "store_ok s \<Longrightarrow> has_id i t \<Longrightarrow> store_ok (put k i t s)" for s i t k
    by (auto simp: store_ok_def arrays_ok_ops put_ids)
  show "store_ok s \<Longrightarrow> store_ok (snd (remove_object k i s))" for s k i
    by (simp add: store_ok_def arrays_ok_ops remove_ids)
qed (rule get_table_put get_table_remove; assumption)+

section \<open>Saving\<close>

text \<open>C35: the store writes its file only when the file is still what it last read or wrote, as its revision
  tells, and then writes its own text and remembers it. A file in which a single byte was changed by hand
  is always noticed: nothing is written.\<close>

theorem hand_edits_not_overwritten:
  assumes "ds_on_disk s = Some (revision (p @ c # q))" "read_file (ds_path s) = Inr (p @ d # q)"
  shows "case save_store read_file write_file L s of (r, s', written) \<Rightarrow>
      (c \<noteq> d \<longrightarrow> r = Inl (Err_Changed_On_Disk (ds_path s)) \<and> s' = s \<and> written = None)
      \<and> (c = d \<longrightarrow> (case write_file (ds_path s) (store_text L s) of
            Some e \<Rightarrow> r = Inl (Err_Io e) \<and> s' = s \<and> written = None
          | None \<Rightarrow> r = Inr () \<and> written = Some (store_text L s)
              \<and> s' = s\<lparr>ds_on_disk := Some (revision (store_text L s))\<rparr>))"
  using assms revision_detects_byte [of c d p q]
  by (auto simp: save_store_def unchanged_on_disk_def Let_def split: option.splits)

definition ex_toml :: toml_lib where
  "ex_toml = \<lparr>tl_parse = (\<lambda>_. Inr []), tl_print = (\<lambda>_. [])\<rparr>"

theorem hand_edits_not_overwritten_witness:
  "save_store (\<lambda>_. Inr ''b'') (\<lambda>_ _. None) ex_toml \<lparr>ds_path = ''d'', ds_doc = [], ds_on_disk = Some (revision ''a'')\<rparr>
     = (Inl (Err_Changed_On_Disk ''d''), \<lparr>ds_path = ''d'', ds_doc = [], ds_on_disk = Some (revision ''a'')\<rparr>, None)"
  using hand_edits_not_overwritten [where s = "\<lparr>ds_path = ''d'', ds_doc = [], ds_on_disk = Some (revision ''a'')\<rparr>"
      and p = "[]" and q = "[]" and c = "CHR ''a''" and d = "CHR ''b''" and read_file = "\<lambda>_. Inr ''b''"
      and write_file = "\<lambda>_ _. None" and L = ex_toml]
  by (simp split: prod.splits)

end
