(* ===== verification/Edit_Props.thy ===== *)
theory Edit_Props
  imports Edit Store_Props
begin

text \<open>
  What the edits of the control API keep: ids and names that are not taken twice, static objects, and the
  references between objects.
\<close>

section \<open>Ids that are made up\<close>

lemma lowest_free_spec:
  "\<exists>m\<ge>n. lowest_free prefix taken n = prefix @ show_nat m \<and> prefix @ show_nat m \<notin> set taken
     \<and> (\<forall>l. n \<le> l \<longrightarrow> l < m \<longrightarrow> prefix @ show_nat l \<in> set taken)"
proof (induction prefix taken n rule: lowest_free.induct)
  case (1 prefix taken n)
  show ?case
  proof (cases "prefix @ show_nat n \<in> set taken")
    case True
    with 1 obtain m where "Suc n \<le> m" "lowest_free prefix taken (Suc n) = prefix @ show_nat m"
        "prefix @ show_nat m \<notin> set taken" "\<forall>l. Suc n \<le> l \<longrightarrow> l < m \<longrightarrow> prefix @ show_nat l \<in> set taken" by blast
    moreover have "prefix @ show_nat l \<in> set taken" if "n \<le> l" "l < m" for l
      using that True calculation(4) by (cases "l = n") auto
    ultimately show ?thesis using True by (subst lowest_free.simps) (auto intro!: exI [of _ m])
  next
    case False
    then show ?thesis by (subst lowest_free.simps) (auto intro!: exI [of _ n])
  qed
qed

lemma lowest_free_new: "lowest_free prefix taken n \<notin> set taken"
  using lowest_free_spec [of n prefix taken] by auto

text \<open>C38: looking for an id for a new bridge ends, after at most as many tries as there are ids in use, with the
  lowest numbered one that neither a static nor a dynamic bridge has.\<close>

theorem next_bridge_id_lowest:
  "\<exists>n \<le> length (edit_bridge_ids s w). next_bridge_id s w = ''ktbr'' @ show_nat n
     \<and> next_bridge_id s w \<notin> set (edit_bridge_ids s w)
     \<and> (\<lambda>m. ''ktbr'' @ show_nat m) ` {..<n} \<subseteq> set (edit_bridge_ids s w)"
proof -
  obtain n where n: "next_bridge_id s w = ''ktbr'' @ show_nat n" "''ktbr'' @ show_nat n \<notin> set (edit_bridge_ids s w)"
      "\<forall>m<n. ''ktbr'' @ show_nat m \<in> set (edit_bridge_ids s w)"
    using lowest_free_spec [of 0 "''ktbr''" "edit_bridge_ids s w"] by (auto simp: next_bridge_id_def)
  have "card ((\<lambda>m. ''ktbr'' @ show_nat m) ` {..<n}) = n"
    by (simp add: card_image inj_on_def show_nat_inject)
  moreover have "(\<lambda>m. ''ktbr'' @ show_nat m) ` {..<n} \<subseteq> set (edit_bridge_ids s w)" using n(3) by auto
  then have "card ((\<lambda>m. ''ktbr'' @ show_nat m) ` {..<n}) \<le> card (set (edit_bridge_ids s w))" by (intro card_mono) auto
  ultimately have "n \<le> length (edit_bridge_ids s w)" using card_length [of "edit_bridge_ids s w"] by linarith
  with n show ?thesis by auto
qed

section \<open>Tables from JSON\<close>

lemma json_to_item_key: "json_to_item f k v = Inr it \<Longrightarrow> x \<in> set it \<Longrightarrow> fst x = k"
  by (cases v) (auto split: sum.splits if_splits)

lemma json_to_items_str:
  "json_to_items f m = Inr t \<Longrightarrow> map_of m k = Some (J_Str v) \<Longrightarrow> get_str t k = Some v"
proof (induction m arbitrary: t)
  case (Cons p m)
  obtain k' j where p: "p = (k', j)" by (cases p)
  from Cons.prems(1) obtain it t' where it: "json_to_items f m = Inr t'" "t = it @ t'" "json_to_item f k' j = Inr it"
    by (auto simp: p split: sum.splits)
  show ?case
  proof (cases "k' = k")
    case True
    with Cons.prems(2) p it show ?thesis by (auto simp: get_str_def)
  next
    case False
    then have "map_of it k = None" using json_to_item_key [OF it(3)] by (force simp: map_of_eq_None_iff)
    with False Cons.IH [OF it(1)] Cons.prems(2) p it(2) show ?thesis by (simp add: get_str_def map_add_def)
  qed
qed simp

lemma json_to_table_str: "json_to_table f def = Inr t \<Longrightarrow> str_key def k = Some v \<Longrightarrow> get_str t k = Some v"
  by (cases "def") (auto simp: str_key_def json_to_items_str split: option.splits json.splits)

lemma name_ports_get: "k \<noteq> ''port'' \<Longrightarrow> get_str (name_ports t) k = get_str t k"
  by (simp add: name_ports_def get_str_def update_conv' split: option.splits)

lemma get_str_update: "k \<noteq> k' \<Longrightarrow> get_str (AList.update k v t) k' = get_str t k'" "k \<noteq> k' \<Longrightarrow> get_str (AList.delete k t) k' = get_str t k'"
  by (simp_all add: get_str_def update_conv' delete_conv')

lemma set_ports_get: "k \<noteq> ''port'' \<Longrightarrow> get_str (set_ports ps t) k = get_str t k"
  by (simp add: set_ports_def get_str_update)

section \<open>Ids and names are taken once\<close>

definition all_named :: "dynamic_store \<Rightarrow> bool" where
  "all_named s \<longleftrightarrow> (\<forall>k. \<forall>t \<in> set (tables_of s k). get_str t ''id'' \<noteq> None)"

definition names_unique :: "dynamic_store \<Rightarrow> bool" where
  "names_unique s \<longleftrightarrow>
     (\<forall>i j t u name. get_table s K_Bridge i = Some t \<longrightarrow> get_table s K_Bridge j = Some u \<longrightarrow>
        get_str t ''name'' = Some name \<longrightarrow> get_str u ''name'' = Some name \<longrightarrow> i = j)"

text \<open>Every object has an id, no id is that of a static object, no two bridges have one name.\<close>

definition dyn_ok :: "world \<Rightarrow> dynamic_store \<Rightarrow> bool" where
  "dyn_ok w s \<longleftrightarrow> store_ok s \<and> all_named s \<and> (\<forall>k i. get_table s k i \<noteq> None \<longrightarrow> static_source w k i = None)
     \<and> names_unique s
     \<and> (\<forall>i t name. get_table s K_Bridge i = Some t \<longrightarrow> get_str t ''name'' = Some name \<longrightarrow> name \<notin> set (static_bridge_names w))"

inductive edit_step :: "world \<Rightarrow> dynamic_store \<Rightarrow> dynamic_store \<Rightarrow> bool" for w s where
  step_create_bridge: "create_bridge f w def s = Inr (i, s') \<Longrightarrow> edit_step w s s'"
| step_update_bridge: "update_bridge f w i def s = Inr s' \<Longrightarrow> edit_step w s s'"
| step_delete_bridge: "delete_bridge w i s = Inr s' \<Longrightarrow> edit_step w s s'"
| step_clone_bridge: "clone_bridge st w from new_id name s = Inr (i, s') \<Longrightarrow> edit_step w s s'"
| step_set_enabled: "edit_set_enabled i enabled s = Inr s' \<Longrightarrow> edit_step w s s'"
| step_add_port: "add_port isp f w bridge def s = Inr (pid, s') \<Longrightarrow> edit_step w s s'"
| step_update_port: "edit_update_port isp f w bridge port def s = Inr s' \<Longrightarrow> edit_step w s s'"
| step_remove_port: "remove_port w bridge port s = Inr s' \<Longrightarrow> edit_step w s s'"
| step_create_object: "k \<noteq> K_Bridge \<Longrightarrow> create_object f w k def s = Inr (i, s') \<Longrightarrow> edit_step w s s'"
| step_update_object: "k \<noteq> K_Bridge \<Longrightarrow> update_object f w k i def s = Inr (j, s') \<Longrightarrow> edit_step w s s'"
| step_delete_object: "k \<noteq> K_Bridge \<Longrightarrow> delete_object w k i s = Inr s' \<Longrightarrow> edit_step w s s'"

lemma get_table_Some: "get_table s k i = Some t \<Longrightarrow> t \<in> set (tables_of s k) \<and> has_id i t"
  by (auto simp: get_table_find find_Some_iff)

lemma editable_Inr: "editable s w k i = Inr t \<longleftrightarrow> static_source w k i = None \<and> get_table s k i = Some t"
  by (auto simp: editable_def split: option.splits)

lemma static_bridge_None: "static_source w K_Bridge i = None \<longleftrightarrow> i \<notin> set (concat (map (\<lambda>(_, f). List.map_filter brd_id (cf_bridge f)) w))"
  by (force simp: static_source_def find_None_iff file_has_def list_ex_iff List.map_filter_def)

lemma static_object_None:
  "k \<noteq> K_Bridge \<Longrightarrow> i \<notin> set (ids_of s w k) \<Longrightarrow> static_source w k i = None \<and> get_table s k i = None"
  by (cases k) (force simp: static_source_def find_None_iff file_has_def list_ex_iff ids_of_def get_table_None)+

lemma new_bridge_id_free:
  "check_new_bridge_id s w n = Inr i \<Longrightarrow> static_source w K_Bridge i = None \<and> get_table s K_Bridge i = None"
  using lowest_free_new [of "''ktbr''" "edit_bridge_ids s w" 0]
  by (auto simp: check_new_bridge_id_def next_bridge_id_def static_bridge_None get_table_None edit_bridge_ids_def
      split: option.splits if_splits)

lemma check_bridge_name_Inr:
  assumes "check_bridge_name s w name except = Inr x"
  shows "name \<notin> set (static_bridge_names w)"
    and "get_table s K_Bridge j = Some u \<Longrightarrow> get_str u ''name'' = Some name \<Longrightarrow> except = Some j"
  using assms by (auto simp: check_bridge_name_def list_ex_iff dest!: get_table_Some split: if_splits)

lemma ball_list_update: "\<forall>t \<in> set a. P t \<Longrightarrow> P v \<Longrightarrow> \<forall>t \<in> set (a[n := v]). P t"
  using set_update_subset_insert [of a n v] by blast

lemma all_named_ops:
  assumes "all_named s"
  shows "arrays_ok s \<Longrightarrow> get_str t ''id'' \<noteq> None \<Longrightarrow> all_named (put k i t s)"
    and "(\<And>t. get_str t ''id'' \<noteq> None \<Longrightarrow> get_str (g t) ''id'' \<noteq> None) \<Longrightarrow> all_named (update_table k i g s)"
    and "all_named (snd (remove_object k i s))"
proof -
  have a: "\<forall>t \<in> set (tables_of s k). get_str t ''id'' \<noteq> None" for k using assms by (auto simp: all_named_def)
  show "all_named (put k i t s)" if "arrays_ok s" "get_str t ''id'' \<noteq> None"
    unfolding all_named_def put_tables [OF that(1)] using a that(2) ball_list_update [OF a that(2)]
    by (auto split: option.splits)
  show "all_named (update_table k i g s)" if "\<And>t. get_str t ''id'' \<noteq> None \<Longrightarrow> get_str (g t) ''id'' \<noteq> None"
  proof -
    have "\<forall>t \<in> set ((tables_of s k)[n := g (tables_of s k ! n)]). get_str t ''id'' \<noteq> None" if "n < length (tables_of s k)" for n
    proof (rule ball_list_update [OF a])
      have "get_str (tables_of s k ! n) ''id'' \<noteq> None" using a that nth_mem by blast
      then show "get_str (g (tables_of s k ! n)) ''id'' \<noteq> None" by (rule \<open>\<And>t. get_str t ''id'' \<noteq> None \<Longrightarrow> get_str (g t) ''id'' \<noteq> None\<close>)
    qed
    then show ?thesis using a unfolding all_named_def update_table_tables by (auto simp: index_where_Some split: option.splits)
  qed
  show "all_named (snd (remove_object k i s))"
    unfolding all_named_def remove_tables using a
    by (auto simp: remove_nth_def dest: in_set_takeD in_set_dropD split: option.splits)
qed

text \<open>An object put under an id that is not static, with a name that is free.\<close>

lemma dyn_ok_put:
  assumes "dyn_ok w s" "has_id i t" "static_source w k i = None"
    and "\<And>name. k = K_Bridge \<Longrightarrow> get_str t ''name'' = Some name \<Longrightarrow> name \<notin> set (static_bridge_names w)"
    and "\<And>name j u. k = K_Bridge \<Longrightarrow> get_str t ''name'' = Some name \<Longrightarrow> get_table s K_Bridge j = Some u \<Longrightarrow>
      get_str u ''name'' = Some name \<Longrightarrow> j = i"
  shows "dyn_ok w (put k i t s)"
proof -
  have s: "store_ok s" "all_named s" "names_unique s" using assms(1) by (auto simp: dyn_ok_def)
  have g: "get_table (put k i t s) k' i' = (if k' = k \<and> i' = i then Some t else get_table s k' i')" for k' i'
    by (rule dyn.lookup_put [OF s(1) assms(2)])
  have "all_named (put k i t s)" using s assms(2) by (intro all_named_ops) (auto simp: store_ok_def)
  moreover have "names_unique (put k i t s)"
    unfolding names_unique_def g using s(3) assms(5) unfolding names_unique_def by (auto split: if_splits)
  ultimately show ?thesis using dyn.ok_put [OF s(1) assms(2)] assms(1,3,4) unfolding dyn_ok_def g by (auto split: if_splits)
qed

lemma dyn_ok_remove: "dyn_ok w s \<Longrightarrow> dyn_ok w (snd (remove_object k i s))"
  unfolding dyn_ok_def names_unique_def
  by (simp add: all_named_ops dyn.ok_remove dyn.lookup_remove split: if_splits)

text \<open>A table changed in place, with its id and, for a bridge, its name kept.\<close>

lemma dyn_ok_update:
  assumes "dyn_ok w s" "\<And>t. get_str (g t) ''id'' = get_str t ''id''" "\<And>t. k = K_Bridge \<Longrightarrow> get_str (g t) ''name'' = get_str t ''name''"
  shows "dyn_ok w (update_table k i g s)"
proof -
  have s: "store_ok s" "all_named s" "names_unique s" using assms(1) by (auto simp: dyn_ok_def)
  have gt: "get_table (update_table k i g s) k' i' = (if k' = k \<and> i' = i then map_option g (get_table s k i) else get_table s k' i')"
    for k' i' by (rule get_table_update) (simp add: assms(2))
  have "store_ok (update_table k i g s)" using s by (intro store_ok_update) (auto simp: assms(2))
  moreover have "all_named (update_table k i g s)" using s by (intro all_named_ops) (auto simp: assms(2))
  moreover have "names_unique (update_table k i g s)"
    unfolding names_unique_def gt using s(3) assms(3) unfolding names_unique_def by (auto split: if_splits)
  ultimately show ?thesis using assms(1,3) unfolding dyn_ok_def gt by (auto split: if_splits)
qed

text \<open>A table replaced by one with another id.\<close>

lemma map_filter_list_update:
  "n < length xs \<Longrightarrow> List.map_filter f (xs[n := v]) = List.map_filter f (take n xs) @ List.map_filter f [v] @ List.map_filter f (drop (Suc n) xs)"
  by (simp only: upd_conv_take_nth_drop map_filter_append [symmetric] append_Cons append_Nil)

lemma rename_table:
  assumes "store_ok s" "get_table s k i \<noteq> None" "has_id j t" "j \<noteq> i" "get_table s k j = None"
  shows "get_table (update_table k i (\<lambda>_. t) s) k' i' =
      (if k' = k then if i' = j then Some t else if i' = i then None else get_table s k i' else get_table s k' i')"
    and "store_ok (update_table k i (\<lambda>_. t) s)"
proof -
  let ?xs = "tables_of s k" and ?id = "\<lambda>t. get_str t ''id''"
  obtain n where ix: "index_where (has_id i) ?xs = Some n"
    using assms(2) by (cases "index_where (has_id i) ?xs") (simp_all add: get_table_find find_index)
  then have n: "n < length ?xs" "has_id i (?xs ! n)" by (auto simp: index_where_Some)
  have d: "distinct (List.map_filter ?id ?xs)" using assms(1) by (simp add: store_ok_def store_ids_tables)
  have j: "j \<notin> set (List.map_filter ?id ?xs)" using assms(5) by (simp add: get_table_None store_ids_tables)
  have tb: "tables_of (update_table k i (\<lambda>_. t) s) k' = (if k' = k then ?xs[n := t] else tables_of s k')" for k'
    by (simp add: update_table_tables ix)
  have ids: "store_ids (update_table k i (\<lambda>_. t) s) k = List.map_filter ?id (take n ?xs) @ [j] @ List.map_filter ?id (drop (Suc n) ?xs)"
    using assms(3) by (simp add: store_ids_tables tb map_filter_list_update [OF n(1)] List.map_filter_simps)
  have old: "List.map_filter ?id ?xs = List.map_filter ?id (take n ?xs) @ [i] @ List.map_filter ?id (drop (Suc n) ?xs)"
    using n(2) by (subst map_filter_nth [OF n(1)]) (simp add: List.map_filter_simps)
  have "distinct (store_ids (update_table k i (\<lambda>_. t) s) k')" for k'
  proof (cases "k' = k")
    case True
    then show ?thesis using d j by (simp add: ids old)
  qed (use assms(1) in \<open>simp add: store_ids_tables tb store_ok_def\<close>)
  then show "store_ok (update_table k i (\<lambda>_. t) s)" using assms(1) by (simp add: store_ok_def arrays_ok_ops)
  have "get_table (update_table k i (\<lambda>_. t) s) k i = None"
    using d assms(4) by (simp add: get_table_None ids old)
  moreover have "find (has_id j) (?xs[n := t]) = Some t"
  proof (rule find_update_hit [where P = "has_id j", OF n(1) assms(3)], intro allI impI)
    fix m assume "m < n"
    then have "?xs ! m \<in> set ?xs" using n(1) by simp
    then show "\<not> has_id j (?xs ! m)" using assms(5) by (auto simp: get_table_find find_None_iff)
  qed
  moreover have "find (has_id i') (?xs[n := t]) = find (has_id i') ?xs" if "i' \<noteq> j" "i' \<noteq> i"
    using that n assms(3) by (intro find_update) auto
  ultimately show "get_table (update_table k i (\<lambda>_. t) s) k' i' =
      (if k' = k then if i' = j then Some t else if i' = i then None else get_table s k i' else get_table s k' i')"
    by (auto simp: get_table_find tb)
qed

lemma dyn_ok_rename:
  assumes "dyn_ok w s" "k \<noteq> K_Bridge" "get_table s k i \<noteq> None" "has_id j t" "j \<noteq> i" "get_table s k j = None" "static_source w k j = None"
  shows "dyn_ok w (update_table k i (\<lambda>_. t) s)"
proof -
  have s: "store_ok s" "all_named s" using assms(1) by (auto simp: dyn_ok_def)
  note r = rename_table [OF s(1) assms(3-6)]
  have "all_named (update_table k i (\<lambda>_. t) s)" using s(2) assms(4) by (intro all_named_ops) auto
  moreover have "get_table (update_table k i (\<lambda>_. t) s) K_Bridge = get_table s K_Bridge"
    using assms(2) by (auto simp: r(1) fun_eq_iff)
  ultimately show ?thesis using r(2) assms(1,7) unfolding dyn_ok_def names_unique_def by (auto simp: r(1) split: if_splits)
qed

lemma set_port_key_get: "k \<noteq> ''port'' \<Longrightarrow> get_str (set_port_key n key to b) k = get_str b k"
  by (simp add: set_port_key_def set_ports_get split: option.splits)

lemma set_section_get: "k \<noteq> sec \<Longrightarrow> get_str (set_section sec to t) k = get_str t k"
  by (simp add: set_section_def get_str_update split: option.splits)

text \<open>A reference is in a port or in one of the two sections.\<close>

fun ref_ok :: "ref_path \<Rightarrow> bool" where
  "ref_ok (Ref_Port _ _ _) = True"
| "ref_ok (Ref_Section _ sec) = (sec = ''spp'' \<or> sec = ''ble'')"

lemma references_ok: "r \<in> set (references s k i) \<Longrightarrow> ref_ok (fst r)"
  by (auto simp: references_def port_refs_def section_refs_def List.map_filter_simps split: kind.splits if_splits)

lemma dyn_ok_set_reference: "dyn_ok w s \<Longrightarrow> ref_ok r \<Longrightarrow> dyn_ok w (set_reference to s r)"
  by (cases r) (auto intro!: dyn_ok_update simp: set_port_key_get set_section_get)

lemma dyn_ok_set_references: "dyn_ok w s \<Longrightarrow> \<forall>r \<in> set rs. ref_ok r \<Longrightarrow> dyn_ok w (foldl (set_reference to) s rs)"
  by (induction rs arbitrary: s) (auto intro: dyn_ok_set_reference)

lemma dyn_ok_put_bridge:
  assumes "dyn_ok w s" "static_source w K_Bridge i = None" "check_bridge_name s w name except = Inr x"
    and "has_id i t" "get_str t ''name'' = Some name" "except = None \<or> except = Some i"
  shows "dyn_ok w (put K_Bridge i t s)"
  using assms(5,6) check_bridge_name_Inr [OF assms(3)]
  by (intro dyn_ok_put [OF assms(1,4,2)]) auto

lemma new_bridge_ok:
  assumes "dyn_ok w s" "check_new_bridge_id s w n = Inr i" "check_bridge_name s w name None = Inr x"
    and "has_id i t" "get_str t ''name'' = Some name"
  shows "dyn_ok w (put K_Bridge i (name_ports t) s)"
  using assms(4,5) new_bridge_id_free [OF assms(2)]
  by (intro dyn_ok_put_bridge [OF assms(1) _ assms(3)]) (simp_all add: name_ports_get)

lemma update_table_current:
  "get_table s k i = Some t \<Longrightarrow> update_table k i (\<lambda>_. g t) s = update_table k i g s"
  by (auto simp: update_table_def get_table_def split: option.splits)

text \<open>Each command.\<close>

lemma create_bridge_ok:
  assumes "dyn_ok w s" "create_bridge f w d s = Inr (i, s')"
  shows "dyn_ok w s'"
proof -
  from assms(2) obtain name t x where c: "str_key d ''name'' = Some name" "check_new_bridge_id s w (str_key d ''id'') = Inr i"
      "check_bridge_name s w name None = Inr x" "json_to_table f d = Inr t"
      "s' = put K_Bridge i (name_ports (if map_of (insert_str ''id'' i t) ''enabled'' = None
         then AList.update ''enabled'' (It_Value (TV_Bool False)) (insert_str ''id'' i t) else insert_str ''id'' i t)) s"
    by (auto simp: create_bridge_def needs_name_def Let_def split: option.splits)
  show ?thesis unfolding c(5)
    by (rule new_bridge_ok [OF assms(1) c(2,3)]) (auto simp: get_str_update json_to_table_str [OF c(4,1)])
qed

lemma update_bridge_ok:
  assumes "dyn_ok w s" "update_bridge f w i d s = Inr s'"
  shows "dyn_ok w s'"
proof -
  from assms(2) obtain name t x where c: "static_source w K_Bridge i = None" "str_key d ''name'' = Some name"
      "check_bridge_name s w name (Some i) = Inr x" "json_to_table f d = Inr t"
      "s' = put K_Bridge i (name_ports (insert_str ''id'' i t)) s"
    by (auto simp: update_bridge_def needs_name_def editable_Inr split: option.splits)
  show ?thesis unfolding c(5)
    by (rule dyn_ok_put_bridge [OF assms(1) c(1,3)]) (auto simp: name_ports_get json_to_table_str [OF c(4,2)])
qed

lemma clone_bridge_ok:
  assumes "dyn_ok w s" "clone_bridge st w frm new_id name s = Inr (i, s')"
  shows "dyn_ok w s'"
proof -
  from assms(2) obtain t x where c: "check_new_bridge_id s w new_id = Inr i" "check_bridge_name s w name None = Inr x"
      "s' = put K_Bridge i (name_ports (AList.delete ''public_name'' (AList.update ''enabled'' (It_Value (TV_Bool False))
         (insert_str ''name'' name (insert_str ''id'' i t))))) s"
    by (auto simp: clone_bridge_def Let_def)
  show ?thesis unfolding c(3) by (rule new_bridge_ok [OF assms(1) c(1,2)]) (auto simp: get_str_update)
qed

lemma add_port_ok:
  assumes "dyn_ok w s" "add_port isp f w bridge d s = Inr (pid, s')"
  shows "dyn_ok w s'"
proof -
  from assms(2) obtain t p where c: "get_table s K_Bridge bridge = Some t"
      "s' = update_table K_Bridge bridge (\<lambda>_. name_ports (set_ports (ports_of_table t @ [p]) t)) s"
    by (auto simp: add_port_def editable_Inr Let_def)
  have "s' = update_table K_Bridge bridge (\<lambda>t. name_ports (set_ports (ports_of_table t @ [p]) t)) s"
    unfolding c(2) by (rule update_table_current [OF c(1), of "\<lambda>t. name_ports (set_ports (ports_of_table t @ [p]) t)"])
  then show ?thesis using assms(1) by (simp add: dyn_ok_update name_ports_get set_ports_get)
qed

lemma create_object_ok:
  assumes "dyn_ok w s" "k \<noteq> K_Bridge" "create_object f w k d s = Inr (i, s')"
  shows "dyn_ok w s'"
proof -
  from assms(3) obtain t where c: "str_key d ''id'' = Some i" "i \<notin> set (ids_of s w k)" "json_to_table f d = Inr t" "s' = put k i t s"
    by (auto simp: create_object_def split: option.splits if_splits)
  show ?thesis unfolding c(4) using static_object_None [OF assms(2) c(2)] assms(2)
    by (intro dyn_ok_put [OF assms(1)]) (auto simp: json_to_table_str [OF c(3,1)])
qed

text \<open>A TNC or an adapter updated: its definition replaced, or renamed with the references following.\<close>

lemma update_object_cases:
  assumes "update_object f w k i d s = Inr (j, s')"
  obtains t u where "static_source w k i = None" "get_table s k i = Some u" "has_id j t"
    "j = i \<Longrightarrow> s' = put k i t s"
    "j \<noteq> i \<Longrightarrow> j \<notin> set (ids_of s w k)"
    "j \<noteq> i \<Longrightarrow> s' = foldl (set_reference j) (update_table k i (\<lambda>_. t) s) (map fst (references (update_table k i (\<lambda>_. t) s) k i))"
proof -
  define new_id where "new_id = (case str_key d ''id'' of Some j \<Rightarrow> j | None \<Rightarrow> i)"
  obtain u t where c: "editable s w k i = Inr u" "\<not> (new_id \<noteq> i \<and> new_id \<in> set (ids_of s w k))"
      "(if new_id = i then (new_id, put k i (insert_str ''id'' new_id t) s)
        else (new_id, foldl (set_reference new_id) (update_table k i (\<lambda>_. insert_str ''id'' new_id t) s)
          (map fst (references (update_table k i (\<lambda>_. insert_str ''id'' new_id t) s) k i)))) = (j, s')"
    using assms unfolding update_object_def new_id_def [symmetric] Let_def by (auto split: if_splits)
  then have j: "j = new_id" by (auto split: if_splits)
  show thesis using c unfolding j [symmetric] by (intro that [of u "insert_str ''id'' j t"]) (auto simp: editable_Inr split: if_splits)
qed

lemma update_object_ok:
  assumes "dyn_ok w s" "k \<noteq> K_Bridge" "update_object f w k i d s = Inr (j, s')"
  shows "dyn_ok w s'"
proof -
  from assms(3) obtain t u where c: "static_source w k i = None" "get_table s k i = Some u" "has_id j t"
    "j = i \<Longrightarrow> s' = put k i t s" "j \<noteq> i \<Longrightarrow> j \<notin> set (ids_of s w k)"
    "j \<noteq> i \<Longrightarrow> s' = foldl (set_reference j) (update_table k i (\<lambda>_. t) s) (map fst (references (update_table k i (\<lambda>_. t) s) k i))"
    by (rule update_object_cases) blast
  show ?thesis
  proof (cases "j = i")
    case True
    with c assms(2) show ?thesis by (auto intro!: dyn_ok_put [OF assms(1)])
  next
    case False
    with static_object_None [OF assms(2) c(5)] c(2,3) have "dyn_ok w (update_table k i (\<lambda>_. t) s)"
      by (intro dyn_ok_rename [OF assms(1,2)]) auto
    with c(6) False show ?thesis by (auto intro!: dyn_ok_set_references dest: references_ok)
  qed
qed

lemma edit_step_ok: "edit_step w s s' \<Longrightarrow> dyn_ok w s \<Longrightarrow> dyn_ok w s'"
proof (induction rule: edit_step.induct)
  case (step_set_enabled i enabled s')
  then show ?case by (auto simp: edit_set_enabled_def get_str_update intro!: dyn_ok_update split: if_splits)
next
  case (step_update_port isp f bridge port d s')
  then show ?case by (auto simp: edit_update_port_def set_ports_get intro!: dyn_ok_update)
next
  case (step_remove_port bridge port s')
  then show ?case by (auto simp: remove_port_def set_ports_get intro!: dyn_ok_update)
qed (auto intro: create_bridge_ok update_bridge_ok clone_bridge_ok add_port_ok create_object_ok update_object_ok dyn_ok_remove
      simp: delete_bridge_def delete_object_def Let_def split: if_splits)

text \<open>C36: starting from a store in which every object has an id, no id is that of a static object and no two bridges
  share a name, every sequence of the edits of \<open>edit.rs\<close> leaves such a store, whatever the clients send.\<close>

theorem edits_keep_store_ok: "(edit_step w)\<^sup>*\<^sup>* s s' \<Longrightarrow> dyn_ok w s \<Longrightarrow> dyn_ok w s'"
  by (induction rule: rtranclp_induct) (auto intro: edit_step_ok)

section \<open>References follow a rename\<close>

lemma map_filter_distinct_inj:
  "distinct (List.map_filter f xs) \<Longrightarrow> x \<in> set xs \<Longrightarrow> y \<in> set xs \<Longrightarrow> f x = Some v \<Longrightarrow> f y = Some v \<Longrightarrow> x = y"
proof (induction xs)
  case (Cons z xs)
  have "v \<in> set (List.map_filter f xs)" if "u \<in> set xs" "f u = Some v" for u
    using that by (force simp: List.map_filter_def)
  with Cons show ?case by (auto simp: List.map_filter_simps split: option.splits)
qed simp

lemma table_get: "store_ok s \<Longrightarrow> u \<in> set (tables_of s k) \<Longrightarrow> has_id i u \<Longrightarrow> get_table s k i = Some u"
proof -
  assume s: "store_ok s" "u \<in> set (tables_of s k)" "has_id i u"
  then have "get_table s k i \<noteq> None" by (auto simp: get_table_find find_None_iff)
  then obtain v where v: "get_table s k i = Some v" by blast
  with get_table_Some [OF v] s have "v = u"
    using map_filter_distinct_inj [of "\<lambda>t. get_str t ''id''" "tables_of s k" v u i] by (auto simp: store_ok_def store_ids_tables)
  with v show ?thesis by simp
qed

text \<open>What setting one reference does to one table.\<close>

fun apply_ref :: "string \<Rightarrow> kind \<Rightarrow> string \<Rightarrow> table \<Rightarrow> ref_path \<Rightarrow> table" where
  "apply_ref to k i t (Ref_Port b n key) = (if k = K_Bridge \<and> i = b then set_port_key n key to t else t)"
| "apply_ref to k i t (Ref_Section tn sec) = (if k = K_Tnc \<and> i = tn then set_section sec to t else t)"

lemma get_table_set_reference:
  "ref_ok r \<Longrightarrow> get_table (set_reference to s r) k i = map_option (\<lambda>t. apply_ref to k i t r) (get_table s k i)"
proof (cases r)
  case (Ref_Port b n key)
  have "get_table (set_reference to s r) k i =
      (if k = K_Bridge \<and> i = b then map_option (set_port_key n key to) (get_table s K_Bridge b) else get_table s k i)"
    unfolding Ref_Port set_reference.simps by (rule get_table_update) (simp add: set_port_key_get)
  then show ?thesis by (cases "get_table s k i") (auto simp: Ref_Port)
next
  case (Ref_Section tn sec)
  assume "ref_ok r"
  then have "get_table (set_reference to s r) k i =
      (if k = K_Tnc \<and> i = tn then map_option (set_section sec to) (get_table s K_Tnc tn) else get_table s k i)"
    unfolding Ref_Section set_reference.simps by (intro get_table_update) (auto simp: set_section_get)
  then show ?thesis by (cases "get_table s k i") (auto simp: Ref_Section)
qed

lemma get_table_set_references:
  "\<forall>r \<in> set rs. ref_ok r \<Longrightarrow>
     get_table (foldl (set_reference to) s rs) k i = map_option (\<lambda>t. foldl (apply_ref to k i) t rs) (get_table s k i)"
proof (induction rs arbitrary: s)
  case (Cons r rs)
  then show ?case by (simp add: get_table_set_reference option.map_comp comp_def)
qed (simp add: option.map_ident)

text \<open>References that are in other tables do not matter, and the tables are found by their ids.\<close>

fun ref_in :: "kind \<Rightarrow> string \<Rightarrow> ref_path \<Rightarrow> bool" where
  "ref_in k i (Ref_Port b _ _) = (k = K_Bridge \<and> b = i)"
| "ref_in k i (Ref_Section tn _) = (k = K_Tnc \<and> tn = i)"

lemma apply_ref_other: "\<not> ref_in k i r \<Longrightarrow> apply_ref to k i t r = t"
  by (cases r) auto

lemma foldl_apply_filter: "foldl (apply_ref to k i) t rs = foldl (apply_ref to k i) t (filter (ref_in k i) rs)"
  by (induction rs arbitrary: t) (auto simp: apply_ref_other)

lemma filter_concat_own:
  assumes "t \<in> set ts" "distinct (List.map_filter f ts)" "\<forall>u \<in> set ts. f u \<noteq> None" "f t = Some i"
    and "\<And>u. u \<in> set ts \<Longrightarrow> f u = Some i \<Longrightarrow> filter P (g u) = h"
    and "\<And>u. u \<in> set ts \<Longrightarrow> f u \<noteq> Some i \<Longrightarrow> filter P (g u) = []"
  shows "filter P (concat (map g ts)) = h"
  using assms
proof (induction ts)
  case (Cons u ts)
  have none: "filter P (concat (map g ts)) = []" if "f u = Some i"
  proof -
    have "f v \<noteq> Some i" if "v \<in> set ts" for v
      using Cons.prems(2) \<open>f u = Some i\<close> that by (force simp: List.map_filter_simps List.map_filter_def)
    then show ?thesis using Cons.prems(6) by (auto simp: filter_concat)
  qed
  show ?case
  proof (cases "f u = Some i")
    case True
    then show ?thesis using none Cons.prems(5) [of u] by simp
  next
    case False
    then have "t \<in> set ts" using Cons.prems(1,4) by auto
    moreover have "filter P (concat (map g ts)) = h" using calculation Cons.prems
      by (intro Cons.IH) (auto simp: List.map_filter_simps split: option.splits)
    ultimately show ?thesis using False Cons.prems(6) [of u] by simp
  qed
qed simp

lemma ports_of_set_ports [simp]: "ports_of_table (set_ports ps t) = ps"
  by (simp add: ports_of_table_def table_ports_def set_ports_def update_conv')

lemma ports_of_set_port_key:
  "ports_of_table (set_port_key n key to b) =
     (if n < length (ports_of_table b) then (ports_of_table b)[n := insert_str key to (ports_of_table b ! n)] else ports_of_table b)"
proof (cases "table_ports b")
  case (Some ps)
  then have "ports_of_table b = ps" by (simp add: ports_of_table_def)
  with Some show ?thesis by (simp add: set_port_key_def)
qed (simp add: set_port_key_def ports_of_table_def)

text \<open>The value of a key in the ports of a bridge, after the references in some of its ports are set.\<close>

definition port_keys :: "string \<Rightarrow> table \<Rightarrow> string option list" where
  "port_keys key b = map (\<lambda>p. get_str p key) (ports_of_table b)"

lemma port_keys_set: "n < length (port_keys key b) \<Longrightarrow> port_keys key (set_port_key n key to b) = (port_keys key b)[n := Some to]"
  by (simp add: port_keys_def ports_of_set_port_key map_update)

lemma port_keys_refs:
  "\<forall>n \<in> set ns. n < length (port_keys key t) \<Longrightarrow>
     port_keys key (foldl (apply_ref to K_Bridge b) t (map (\<lambda>n. Ref_Port b n key) ns)) =
       map (\<lambda>n. if n \<in> set ns then Some to else port_keys key t ! n) [0..<length (port_keys key t)]"
proof (induction ns arbitrary: t)
  case Nil
  then show ?case by (simp add: map_nth)
next
  case (Cons m ns)
  then have m: "m < length (port_keys key t)" by simp
  have "port_keys key (foldl (apply_ref to K_Bridge b) (set_port_key m key to t) (map (\<lambda>n. Ref_Port b n key) ns)) =
      map (\<lambda>n. if n \<in> set ns then Some to else port_keys key (set_port_key m key to t) ! n) [0..<length (port_keys key (set_port_key m key to t))]"
    by (rule Cons.IH) (use Cons.prems port_keys_set [OF m] in simp)
  then show ?case using m by (auto simp: port_keys_set nth_list_update intro!: map_cong)
qed

definition ref_ports :: "string \<Rightarrow> string \<Rightarrow> table \<Rightarrow> nat list" where
  "ref_ports key i b = filter (\<lambda>n. port_keys key b ! n = Some i) [0..<length (port_keys key b)]"

lemma port_refs_paths: "map fst (port_refs key i b) = map (\<lambda>n. Ref_Port (str_or_unknown b) n key) (ref_ports key i b)"
proof -
  have "enumerate 0 xs = map (\<lambda>n. (n, xs ! n)) [0..<length xs]" for xs :: "table list"
    by (rule nth_equalityI) (simp_all add: nth_enumerate_eq)
  then show ?thesis
    by (auto simp: port_refs_def ref_ports_def port_keys_def filter_map comp_def intro!: map_cong filter_cong)
qed

lemma rename_ports:
  "port_keys key (foldl (apply_ref to K_Bridge b) t (map (\<lambda>n. Ref_Port b n key) (ref_ports key i t))) =
     map (\<lambda>v. if v = Some i then Some to else v) (port_keys key t)"
  by (subst port_keys_refs) (auto simp: ref_ports_def intro!: nth_equalityI)

text \<open>The adapter a section of a TNC names.\<close>

definition section_of :: "table \<Rightarrow> string \<Rightarrow> string option" where
  "section_of t sec = Option.bind (map_of t sec) section_adapter"

lemma section_adapter_set: "section_adapter it \<noteq> None \<Longrightarrow> section_adapter (set_section_adapter to it) = Some to"
  by (auto simp: section_adapter_def set_section_adapter_def update_conv' split: item.splits tvalue.splits)

lemma section_of_set:
  "section_of t sec \<noteq> None \<Longrightarrow> section_of (set_section sec to t) sec' = (if sec' = sec then Some to else section_of t sec')"
  by (auto simp: section_of_def set_section_def update_conv' section_adapter_set split: option.splits)

lemma section_refs_paths:
  "map fst (section_refs i t) = map (Ref_Section (str_or_unknown t)) (filter (\<lambda>sec. section_of t sec = Some i) [''spp'', ''ble''])"
  by (simp add: section_refs_def section_of_def List.map_filter_simps)

lemma rename_sections:
  assumes "i \<noteq> to" "sec = ''spp'' \<or> sec = ''ble''"
  shows "section_of (foldl (apply_ref to K_Tnc tn) t (map (Ref_Section tn) (filter (\<lambda>sec. section_of t sec = Some i) [''spp'', ''ble'']))) sec
     = (if section_of t sec = Some i then Some to else section_of t sec)"
  using assms by (auto simp: section_of_set)

lemma str_or_unknown_id: "has_id i t \<Longrightarrow> str_or_unknown t = i"
  by (simp add: str_or_unknown_def)

lemma dyn_ok_tables:
  "dyn_ok w s \<Longrightarrow> distinct (List.map_filter (\<lambda>t. get_str t ''id'') (tables_of s k))"
  "dyn_ok w s \<Longrightarrow> \<forall>t \<in> set (tables_of s k). get_str t ''id'' \<noteq> None"
  by (auto simp: dyn_ok_def store_ok_def store_ids_tables all_named_def)

text \<open>Of all references to an object, those in one bridge, and those in one TNC.\<close>

lemma concat_map_fst: "map fst (concat (map g ts)) = concat (map (\<lambda>u. map fst (g u)) ts)"
  by (induction ts) auto

lemma port_refs_filter:
  "filter (ref_in k b) (map fst (port_refs key i u)) =
     (if k = K_Bridge \<and> str_or_unknown u = b then map (\<lambda>n. Ref_Port b n key) (ref_ports key i u) else [])"
  by (auto simp: port_refs_paths filter_map comp_def)

lemma section_refs_filter:
  "filter (ref_in k b) (map fst (section_refs i u)) =
     (if k = K_Tnc \<and> str_or_unknown u = b
      then map (Ref_Section b) (filter (\<lambda>sec. section_of u sec = Some i) [''spp'', ''ble'']) else [])"
  by (auto simp: section_refs_paths filter_map comp_def)

lemma refs_in_bridge:
  assumes "dyn_ok w s" "get_table s K_Bridge b = Some t" "k \<noteq> K_Bridge"
  shows "filter (ref_in K_Bridge b) (map fst (references s k i)) = map (\<lambda>n. Ref_Port b n (kind_key k)) (ref_ports (kind_key k) i t)"
proof -
  have t: "t \<in> set (tables_of s K_Bridge)" "has_id b t" using get_table_Some [OF assms(2)] by auto
  have same: "u = t" if "u \<in> set (tables_of s K_Bridge)" "has_id b u" for u
    using map_filter_distinct_inj [OF dyn_ok_tables(1) [OF assms(1)] that(1) t(1) that(2) t(2)] .
  have "filter (ref_in K_Bridge b) (concat (map (\<lambda>u. map fst (port_refs key i u)) (tables_of s K_Bridge))) =
      map (\<lambda>n. Ref_Port b n key) (ref_ports key i t)" for key
    by (rule filter_concat_own [OF t(1) dyn_ok_tables [OF assms(1)] t(2)])
       (use same dyn_ok_tables(2) [OF assms(1), of K_Bridge] in \<open>auto simp: port_refs_filter str_or_unknown_def\<close>)
  then show ?thesis using assms(3)
    by (cases k) (auto simp: references_def concat_map_fst filter_concat section_refs_filter)
qed

lemma refs_in_tnc:
  assumes "dyn_ok w s" "get_table s K_Tnc b = Some t"
  shows "filter (ref_in K_Tnc b) (map fst (references s K_Adapter i)) =
     map (Ref_Section b) (filter (\<lambda>sec. section_of t sec = Some i) [''spp'', ''ble''])"
proof -
  have t: "t \<in> set (tables_of s K_Tnc)" "has_id b t" using get_table_Some [OF assms(2)] by auto
  have same: "u = t" if "u \<in> set (tables_of s K_Tnc)" "has_id b u" for u
    using map_filter_distinct_inj [OF dyn_ok_tables(1) [OF assms(1)] that(1) t(1) that(2) t(2)] .
  have "filter (ref_in K_Tnc b) (concat (map (\<lambda>u. map fst (section_refs i u)) (tables_of s K_Tnc))) =
      map (Ref_Section b) (filter (\<lambda>sec. section_of t sec = Some i) [''spp'', ''ble''])"
    by (rule filter_concat_own [OF t(1) dyn_ok_tables [OF assms(1)] t(2)])
       (use same dyn_ok_tables(2) [OF assms(1), of K_Tnc] in \<open>auto simp: section_refs_filter str_or_unknown_def\<close>)
  then show ?thesis by (simp add: references_def concat_map_fst filter_concat port_refs_filter comp_def)
qed

lemma references_empty:
  assumes "k \<noteq> K_Bridge" "\<forall>u \<in> set (tables_of s K_Bridge). Some i \<notin> set (port_keys (kind_key k) u)"
    and "k = K_Adapter \<Longrightarrow> \<forall>u \<in> set (tables_of s K_Tnc). section_of u ''spp'' \<noteq> Some i \<and> section_of u ''ble'' \<noteq> Some i"
  shows "references s k i = []"
proof -
  have "map fst (port_refs key i u) = []" if "Some i \<notin> set (port_keys key u)" for key u
  proof -
    have "port_keys key u ! n \<noteq> Some i" if "n < length (port_keys key u)" for n
      using that \<open>Some i \<notin> set (port_keys key u)\<close> nth_mem [OF that] by metis
    then show ?thesis unfolding port_refs_paths ref_ports_def by (simp add: filter_empty_conv)
  qed
  moreover have "map fst (section_refs i u) = []" if "section_of u ''spp'' \<noteq> Some i \<and> section_of u ''ble'' \<noteq> Some i" for u
    using that by (simp add: section_refs_paths)
  ultimately show ?thesis using assms by (cases k) (auto simp: references_def)
qed

text \<open>The tables of a store in which all references of a list are set.\<close>

lemma port_keys_renamed:
  assumes "dyn_ok w s" "k \<noteq> K_Bridge" "get_table s K_Bridge b = Some t"
  shows "port_keys (kind_key k) (foldl (apply_ref j K_Bridge b) t (map fst (references s k i))) =
     map (\<lambda>v. if v = Some i then Some j else v) (port_keys (kind_key k) t)"
  by (subst foldl_apply_filter, subst refs_in_bridge [OF assms(1,3,2)]) (rule rename_ports)

lemma sections_renamed:
  assumes "dyn_ok w s" "get_table s K_Tnc b = Some t" "i \<noteq> j" "sec = ''spp'' \<or> sec = ''ble''"
  shows "section_of (foldl (apply_ref j K_Tnc b) t (map fst (references s K_Adapter i))) sec =
     (if section_of t sec = Some i then Some j else section_of t sec)"
  by (subst foldl_apply_filter, subst refs_in_tnc [OF assms(1,2)]) (rule rename_sections [OF assms(3,4)])

lemma no_references_left:
  assumes "dyn_ok w s" "k \<noteq> K_Bridge" "i \<noteq> j"
  shows "references (foldl (set_reference j) s (map fst (references s k i))) k i = []"
proof (rule references_empty [OF assms(2)])
  let ?s = "foldl (set_reference j) s (map fst (references s k i))"
  have ok: "\<forall>r \<in> set (map fst (references s k i)). ref_ok r" using references_ok by auto
  have s': "store_ok ?s" "all_named ?s" using dyn_ok_set_references [OF assms(1) ok] by (auto simp: dyn_ok_def)
  have tab: "\<exists>b t. get_table s k' b = Some t \<and> u = foldl (apply_ref j k' b) t (map fst (references s k i))"
    if "u \<in> set (tables_of ?s k')" for k' u
  proof -
    have "get_str u ''id'' \<noteq> None" using s'(2) that unfolding all_named_def by blast
    then obtain b where "has_id b u" by blast
    then have "get_table ?s k' b = Some u" by (rule table_get [OF s'(1) that])
    then show ?thesis unfolding get_table_set_references [OF ok] by auto
  qed
  show "\<forall>u \<in> set (tables_of ?s K_Bridge). Some i \<notin> set (port_keys (kind_key k) u)"
    using tab port_keys_renamed [OF assms(1,2)] assms(3) by fastforce
  show "\<forall>u \<in> set (tables_of ?s K_Tnc). section_of u ''spp'' \<noteq> Some i \<and> section_of u ''ble'' \<noteq> Some i" if ad: "k = K_Adapter"
  proof
    fix u assume "u \<in> set (tables_of ?s K_Tnc)"
    then obtain b t where "get_table s K_Tnc b = Some t" "u = foldl (apply_ref j K_Tnc b) t (map fst (references s K_Adapter i))"
      using tab [of u K_Tnc] ad by auto
    then show "section_of u ''spp'' \<noteq> Some i \<and> section_of u ''ble'' \<noteq> Some i"
      using sections_renamed [OF assms(1)] assms(3) by simp
  qed
qed


section \<open>Examples\<close>

definition str_item :: "string \<Rightarrow> string \<Rightarrow> string \<times> item" where
  "str_item k v = (k, It_Value (TV_Str v))"

definition ex_store :: "string \<Rightarrow> dynamic_store" where
  "ex_store tnc = \<lparr>ds_path = ''dynamic.toml'',
     ds_doc = [(''tnc'', It_Array [[str_item ''id'' tnc]]),
       (''bridge'', It_Array [[str_item ''id'' ''ktbr0'', str_item ''name'' ''Field'',
          (''port'', It_Array [[str_item ''id'' ''radio'', str_item ''type'' ''spp-client'', str_item ''tnc'' tnc],
                               [str_item ''id'' ''phones'', str_item ''type'' ''ble-server'']])]])],
     ds_on_disk = None\<rparr>"

lemma ex_store_tables:
  "tables_of (ex_store tnc) K_Tnc = [[str_item ''id'' tnc]]" "tables_of (ex_store tnc) K_Adapter = []"
  "tables_of (ex_store tnc) K_Bridge = [[str_item ''id'' ''ktbr0'', str_item ''name'' ''Field'',
     (''port'', It_Array [[str_item ''id'' ''radio'', str_item ''type'' ''spp-client'', str_item ''tnc'' tnc],
                          [str_item ''id'' ''phones'', str_item ''type'' ''ble-server'']])]]"
  by (simp_all add: ex_store_def tables_of_def tables_array_def)

lemma ex_store_ok: "dyn_ok [] (ex_store tnc)"
proof -
  have "get_table (ex_store tnc) K_Bridge i = Some t \<Longrightarrow> i = ''ktbr0''" for i t
    by (auto simp: get_table_find ex_store_tables get_str_def str_item_def split: if_splits)
  then have "names_unique (ex_store tnc)" unfolding names_unique_def by metis
  moreover have "arrays_ok (ex_store tnc)" unfolding arrays_ok_def
    by (intro allI, case_tac k) (simp_all add: ex_store_def)
  moreover have "distinct (store_ids (ex_store tnc) k)" "\<forall>t \<in> set (tables_of (ex_store tnc) k). get_str t ''id'' \<noteq> None" for k
    by (cases k; simp add: store_ids_tables ex_store_tables List.map_filter_simps get_str_def str_item_def)+
  ultimately show ?thesis
    by (simp add: dyn_ok_def store_ok_def all_named_def static_source_def static_bridge_names_def)
qed

definition ex_rename :: json where
  "ex_rename = J_Obj [(''id'', J_Str ''rig'')]"

lemma ex_renamed: "update_object (\<lambda>_. None) [] K_Tnc ''d75'' ex_rename (ex_store ''d75'') = Inr (''rig'', ex_store ''rig'')"
  by code_simp


theorem edits_keep_store_ok_witness: "dyn_ok [] (ex_store ''rig'')"
proof -
  have "edit_step [] (ex_store ''d75'') (ex_store ''rig'')" by (rule step_update_object [OF _ ex_renamed]) simp
  then have "(edit_step [])\<^sup>*\<^sup>* (ex_store ''d75'') (ex_store ''rig'')" by (rule r_into_rtranclp)
  then show ?thesis by (rule edits_keep_store_ok [OF _ ex_store_ok])
qed

text \<open>A bridge whose ports are written as an inline array: adding one replaces them all.\<close>

definition inline_ports :: dynamic_store where
  "inline_ports = (ex_store ''d75'')\<lparr>ds_doc := [(''bridge'', It_Array [[str_item ''id'' ''ktbr0'', str_item ''name'' ''Field'',
     (''port'', It_Value (TV_Array [TV_Inline [(''type'', TV_Str ''ble-server'')]]))]])]\<rparr>"

lemma add_port_drops_inline_ports:
  "map_sum id (\<lambda>(pid, s). (pid, map_option ports_of_table (get_table s K_Bridge ''ktbr0'')))
     (add_port (\<lambda>_. None) (\<lambda>_. None) [] ''ktbr0'' (J_Obj [(''type'', J_Str ''tcp-server'')]) inline_ports)
   = Inr (Some ''tcp-server0'', Some [[str_item ''type'' ''tcp-server'', str_item ''id'' ''tcp-server0'']])"
  by code_simp

text \<open>A file that holds an empty inline array of bridges: a bridge is reported as created and is not there.\<close>

lemma create_bridge_lost:
  "map_sum id (\<lambda>(i, s). (i, store_ids s K_Bridge))
     (create_bridge (\<lambda>_. None) [] (J_Obj [(''name'', J_Str ''Relay'')])
        ((ex_store ''d75'')\<lparr>ds_doc := [(''bridge'', It_Value (TV_Array []))]\<rparr>))
   = Inr (''ktbr0'', [])"
  by code_simp

end
