(* ===== verification/Control.thy ===== *)
theory Control
  imports Supervisor Config_Build Edit
begin

text \<open>
  \<^verbatim>\<open>src/supervisor.rs\<close>, the control API: the commands that change the daemon. Every change of the
  configuration goes through \<open>change\<close>, which edits a copy of \<open>dynamic.toml\<close>, builds and checks the result,
  works out the plan, and only then saves and applies. The files, TOML and the session that snapshots a
  bridge are parameters (\<open>ctl_env\<close>).
\<close>

section \<open>State and errors\<close>

record 'net ctl =
  ct_daemon :: "'net daemon"
  ct_sources :: sources
  ct_store :: dynamic_store

record 'net ctl_env =
  ce_sup :: "'net sup_env"
  ce_contains :: "'net \<Rightarrow> ip_addr \<Rightarrow> bool"
  ce_runtime :: runtime
  ce_host :: host
  ce_parse_toml :: toml_parser
  ce_parse_net :: "string \<Rightarrow> 'net option"
  ce_net_of_ip :: "ip_addr \<Rightarrow> 'net"
  ce_toml :: toml_lib
  ce_write :: "string \<Rightarrow> string \<Rightarrow> string option"
  ce_state_toml :: "state \<Rightarrow> string + string"
  ce_state_header :: string
  ce_as_f64 :: "json_num \<Rightarrow> u64 option"
  ce_is_port :: "json \<Rightarrow> string option"
  ce_show_read_error :: "read_error \<Rightarrow> string"
  ce_sessions :: "string \<Rightarrow> session_id list option"

datatype api_error =
    Api_Edit edit_error
  | Api_Store store_error
  | Config_Invalid "problem list"
  | Reload_Would_Disrupt plan
  | Cant_Write_State string
  | Revision_Conflict
  | Wrong_Object kind string string
  | Kind_And_Object
  | No_Bridge string
  | No_Tnc string
  | Not_A_Tnc_Port string string
  | No_Running_Port string string
  | No_Session string
  | No_Override string

definition lift_edit :: "edit_error + 'a \<Rightarrow> api_error + 'a" where
  "lift_edit r = map_sum Api_Edit id r"

definition lift_store :: "store_error + 'a \<Rightarrow> api_error + 'a" where
  "lift_store r = map_sum Api_Store id r"

section \<open>Names of objects\<close>

definition bridge_id :: "'net config \<Rightarrow> string \<Rightarrow> api_error + string" where
  "bridge_id cfg x =
     (case find (\<lambda>b. b_id b = x) (cfg_bridges cfg) of
        Some b \<Rightarrow> Inr (b_id b)
      | None \<Rightarrow>
          (case find (\<lambda>b. b_name b = x) (cfg_bridges cfg) of
             Some b \<Rightarrow> Inr (b_id b)
           | None \<Rightarrow> Inl (No_Bridge x)))"

definition tnc_id :: "'net config \<Rightarrow> string \<Rightarrow> api_error + string" where
  "tnc_id cfg x =
     (case find (\<lambda>t. t_id t = x) (cfg_tncs cfg) of
        Some t \<Rightarrow> Inr (t_id t)
      | None \<Rightarrow>
          (case find (\<lambda>t. t_name t = x) (cfg_tncs cfg) of
             Some t \<Rightarrow> Inr (t_id t)
           | None \<Rightarrow> Inl (No_Tnc x)))"

section \<open>Edits of the configuration\<close>

text \<open>What an edit makes of the store: an id to report, the store, and the overrides of static bridges.\<close>

type_synonym overrides = "(string \<times> bool option) list"
type_synonym edited = "string option \<times> dynamic_store \<times> overrides"

definition edited_with_id :: "edit_error + string \<times> dynamic_store \<Rightarrow> api_error + edited" where
  "edited_with_id r = and_then (lift_edit r) (\<lambda>(i, s). Inr (Some i, s, []))"

definition edited_only :: "edit_error + dynamic_store \<Rightarrow> api_error + edited" where
  "edited_only r = and_then (lift_edit r) (\<lambda>s. Inr (None, s, []))"

definition config_put ::
  "toml_lib \<Rightarrow> world \<Rightarrow> kind option \<Rightarrow> string option \<Rightarrow> string \<Rightarrow> string \<Rightarrow> dynamic_store \<Rightarrow> api_error + edited" where
  "config_put L w k ob toml rv s =
     (case (k, ob) of
        (None, None) \<Rightarrow>
          if store_revision L s \<noteq> rv then Inl Revision_Conflict
          else and_then (lift_store (replace_text L toml s)) (\<lambda>s'. Inr (None, s', []))
      | (Some k, Some i) \<Rightarrow>
          (case static_source w k i of
             Some src \<Rightarrow> Inl (Api_Edit (Static_Readonly k i src))
           | None \<Rightarrow>
               if or_default [] (object_revision L s k i) \<noteq> rv then Inl Revision_Conflict
               else if trim toml = [] then Inr (None, snd (remove_object k i s), [])
               else
                 and_then (lift_store (parse_object L k toml)) (\<lambda>t.
                   case get_str t ''id'' of
                     Some other \<Rightarrow>
                       if other \<noteq> i then Inl (Wrong_Object k other i)
                       else Inr (Some i, put k i (insert_str ''id'' i t) s, [])
                   | None \<Rightarrow> Inr (Some i, put k i (insert_str ''id'' i t) s, [])))
      | _ \<Rightarrow> Inl Kind_And_Object)"

text \<open>Enable, disable or reset a bridge: an override for a static bridge, \<open>enabled\<close> for a dynamic one.\<close>

definition set_enabled ::
  "world \<Rightarrow> string \<Rightarrow> bool option \<Rightarrow> dynamic_store \<times> overrides \<Rightarrow> api_error + dynamic_store \<times> overrides" where
  "set_enabled w i enabled so =
     (if static_source w K_Bridge i \<noteq> None then Inr (fst so, snd so @ [(i, enabled)])
      else case enabled of
             Some on \<Rightarrow> and_then (lift_edit (edit_set_enabled i on (fst so))) (\<lambda>s. Inr (s, snd so))
           | None \<Rightarrow> Inl (No_Override i))"

definition edited_enabled :: "api_error + dynamic_store \<times> overrides \<Rightarrow> api_error + edited" where
  "edited_enabled r = and_then r (\<lambda>(s, ov). Inr (None, s, ov))"

text \<open>\<open>conflicting\<close>: the enabled bridges that could not run beside one.\<close>

definition only_enabled :: "string \<Rightarrow> string \<Rightarrow> 'net config \<Rightarrow> 'net config" where
  "only_enabled i j cfg = cfg\<lparr>cfg_bridges := map (\<lambda>x. x\<lparr>b_enabled := b_id x = i \<or> b_id x = j\<rparr>) (cfg_bridges cfg)\<rparr>"

definition conflicting :: "host \<Rightarrow> 'net config \<Rightarrow> string \<Rightarrow> string list" where
  "conflicting h cfg i =
     map b_id (filter
       (\<lambda>b. rp_errors (validate (h_exists h) (h_if_nametoindex h) (only_enabled i (b_id b) cfg) False) \<noteq> [])
       (filter (\<lambda>b. b_enabled b \<and> b_id b \<noteq> i) (cfg_bridges cfg)))"

fun switch_off :: "world \<Rightarrow> string list \<Rightarrow> dynamic_store \<times> overrides \<Rightarrow> api_error + dynamic_store \<times> overrides" where
  "switch_off w [] so = Inr so"
| "switch_off w (i # is) so = and_then (set_enabled w i (Some False) so) (switch_off w is)"

section \<open>Changing the configuration\<close>

definition apply_ov :: "overrides \<Rightarrow> state \<Rightarrow> state" where
  "apply_ov ov st = foldl (\<lambda>s (b, en). set_enabled_override s b en) st ov"

definition changed_sources :: "toml_lib \<Rightarrow> dynamic_store \<Rightarrow> overrides \<Rightarrow> sources \<Rightarrow> sources" where
  "changed_sources L store ov so =
     (let text = store_text L store in
      so\<lparr>so_dynamic := (if trim text \<noteq> [] \<or> so_dynamic so \<noteq> None
           then Some \<lparr>dy_path = ds_path store, dy_text = text\<rparr> else None),
         so_state := apply_ov ov (so_state so)\<rparr>)"

text \<open>What a change writes: \<open>dynamic.toml\<close> and \<open>state.toml\<close>.\<close>

record writes =
  wr_dynamic :: "string option"
  wr_state :: "string option"

definition no_writes :: writes where
  "no_writes = \<lparr>wr_dynamic = None, wr_state = None\<rparr>"

type_synonym change_result = "string option \<times> plan \<times> problem list"

definition save_and_apply ::
  "'net ctl_env \<Rightarrow> dynamic_store \<Rightarrow> overrides \<Rightarrow> sources \<Rightarrow> 'net config \<Rightarrow> plan \<Rightarrow> 'net ctl
   \<Rightarrow> (api_error + unit) \<times> 'net ctl \<times> writes" where
  "save_and_apply E store ov so cfg pl c =
     (let L = ce_toml E; d = ct_daemon c in
      case (if store_text L store \<noteq> store_text L (ct_store c)
            then save_store (h_read (ce_host E)) (ce_write E) L store else (Inr (), store, None)) of
        (Inl e, _, w) \<Rightarrow> (Inl (Api_Store e), c, \<lparr>wr_dynamic = w, wr_state = None\<rparr>)
      | (Inr _, store', w) \<Rightarrow>
          (case (if ov \<noteq> [] then state_update (ce_state_toml E) (ce_write E) (ce_state_header E) (apply_ov ov) (dm_state d)
                 else (Inr (), dm_state d, None)) of
             (Inl e, st, sw) \<Rightarrow> (Inl (Cant_Write_State e), c\<lparr>ct_daemon := d\<lparr>dm_state := st\<rparr>\<rparr>, \<lparr>wr_dynamic = w, wr_state = sw\<rparr>)
           | (Inr _, st, sw) \<Rightarrow>
               (let d1 = (apply_plan (ce_sup E) pl cfg (d\<lparr>dm_state := st\<rparr>))\<lparr>dm_bluez_errors := []\<rparr>;
                    d2 = (if \<not> is_noop pl then hub_state ''config'' [] ''changed'' d1 else d1)
                in (Inr (), \<lparr>ct_daemon = d2, ct_sources = so, ct_store = store'\<rparr>, \<lparr>wr_dynamic = w, wr_state = sw\<rparr>))))"

definition change ::
  "'net ctl_env \<Rightarrow> bool \<Rightarrow> (dynamic_store \<Rightarrow> api_error + edited) \<Rightarrow> 'net ctl
   \<Rightarrow> (api_error + change_result) \<times> 'net ctl \<times> writes" where
  "change E non_disruptive edit c =
     (case edit (ct_store c) of
        Inl e \<Rightarrow> (Inl e, c, no_writes)
      | Inr (i, store, ov) \<Rightarrow>
          (let so = changed_sources (ce_toml E) store ov (ct_sources c) in
           case build (ce_host E) (ce_parse_toml E) (ce_parse_net E) (ce_net_of_ip E) so True of
             Inl ps \<Rightarrow> (Inl (Config_Invalid ps), c, no_writes)
           | Inr (cfg, report) \<Rightarrow>
               (let pl = make_plan (ce_contains E) (dm_cfg (ct_daemon c)) cfg (ce_runtime E) in
                if non_disruptive \<and> disruptive pl then (Inl (Reload_Would_Disrupt pl), c, no_writes)
                else case save_and_apply E store ov so cfg pl c of
                       (Inl e, c', ws) \<Rightarrow> (Inl e, c', ws)
                     | (Inr _, c', ws) \<Rightarrow> (Inr (i, pl, rp_warnings report), c', ws))))"

section \<open>Commands on what runs\<close>

definition hold :: "string \<Rightarrow> string \<Rightarrow> bool option \<Rightarrow> 'net daemon \<Rightarrow> (api_error + unit) \<times> 'net daemon" where
  "hold bridge port up d =
     (case bridge_id (dm_cfg d) bridge of
        Inl e \<Rightarrow> (Inl e, d)
      | Inr b \<Rightarrow>
          (case get_port d b port of
             Some RP_Tnc \<Rightarrow> (Inr (), bridge_cmd b (Cmd_Hold up) d)
           | Some _ \<Rightarrow> (Inl (Not_A_Tnc_Port b port), d)
           | None \<Rightarrow> (Inl (No_Running_Port b port), d)))"

text \<open>\<open>kick\<close>: \<open>snap\<close> gives the sessions in a bridge's snapshot, if it answers.\<close>

definition kick :: "(string \<Rightarrow> session_id list option) \<Rightarrow> string \<Rightarrow> 'net daemon \<Rightarrow> (api_error + unit) \<times> 'net daemon" where
  "kick snap session d =
     (case split_once CHR ''/'' session of
        None \<Rightarrow> (Inl (No_Session session), d)
      | Some (bridge, rest) \<Rightarrow>
          (case split_once CHR ''/'' rest of
             None \<Rightarrow> (Inl (No_Session session), d)
           | Some (port, peer) \<Rightarrow>
               (let i = \<lparr>sid_port = port, sid_peer = peer\<rparr> in
                if map_of (dm_bridges d) bridge = None then (Inl (No_Session session), d)
                else case snap bridge of
                       None \<Rightarrow> (Inl (No_Session session), d)
                     | Some ss \<Rightarrow>
                         if i \<in> set ss then (Inr (), bridge_cmd bridge (Cmd_Kick i) d)
                         else (Inl (No_Session session), d))))"

definition retry_public_name :: "'net sup_env \<Rightarrow> string \<Rightarrow> 'net daemon \<Rightarrow> 'net daemon" where
  "retry_public_name E i d =
     (let d1 = d\<lparr>dm_state := se_store E (\<lambda>s. clear_adjusted_public_name s i) (dm_state d)\<rparr> in
      case find_bridge (dm_cfg d1) i of
        None \<Rightarrow> d1
      | Some b \<Rightarrow>
          (let d2 = with_bridge i (\<lambda>rb. rb\<lparr>rb_name := b_public_name b\<rparr>) d1
           in if announces b then announce_bridge E b d2 else d2))"

section \<open>The commands\<close>

text \<open>\<open>Command\<close>, without those that only read (status, \<open>config.get\<close>, \<open>config.check\<close>, the lists), \<open>subscribe\<close>, which its
  connection answers, and Bluetooth.\<close>

datatype command =
    ConfigPut "kind option" "string option" string string bool
  | BridgeCreate json bool
  | BridgeUpdate string json bool
  | BridgeDelete string bool
  | BridgeClone string "string option" string bool
  | BridgeEnable string bool bool
  | BridgeDisable string bool
  | BridgeSwitch string bool
  | BridgeRetryPublicName string
  | PortAdd string json bool
  | PortUpdate string string json bool
  | PortRemove string string bool
  | PortConnect string string
  | PortDisconnect string string
  | PortRelease string string
  | SessionKick string
  | TncCreate json bool
  | TncUpdate string json bool
  | TncDelete string bool
  | AdapterCreate json bool
  | AdapterUpdate string json bool
  | AdapterDelete string bool

definition resolve_object :: "'net config \<Rightarrow> kind option \<Rightarrow> string option \<Rightarrow> string option" where
  "resolve_object cfg k ob =
     (case (k, ob) of
        (Some K_Bridge, Some x) \<Rightarrow> Some (case bridge_id cfg x of Inr i \<Rightarrow> i | Inl _ \<Rightarrow> x)
      | (Some K_Tnc, Some x) \<Rightarrow> Some (case tnc_id cfg x of Inr i \<Rightarrow> i | Inl _ \<Rightarrow> x)
      | _ \<Rightarrow> ob)"

text \<open>The edit a command makes, with whether it has to be non-disruptive, or the error that ends it first.\<close>

definition edit_of ::
  "'net ctl_env \<Rightarrow> 'net ctl \<Rightarrow> command \<Rightarrow> (api_error + bool \<times> (dynamic_store \<Rightarrow> api_error + edited)) option" where
  "edit_of E c cmd =
     (let cfg = dm_cfg (ct_daemon c);
          w = so_statics (ct_sources c);
          f = ce_as_f64 E;
          static_table = static_bridge_table (h_read (ce_host E)) (ce_toml E) (ce_show_read_error E);
          on_bridge = (\<lambda>x nd e. Some (and_then (bridge_id cfg x) (\<lambda>i. Inr (nd, e i))));
          on_tnc = (\<lambda>x nd e. Some (and_then (tnc_id cfg x) (\<lambda>i. Inr (nd, e i))))
      in case cmd of
           ConfigPut k ob toml rv nd \<Rightarrow> Some (Inr (nd, config_put (ce_toml E) w k (resolve_object cfg k ob) toml rv))
         | BridgeCreate def nd \<Rightarrow> Some (Inr (nd, \<lambda>s. edited_with_id (create_bridge f w def s)))
         | BridgeUpdate b def nd \<Rightarrow> on_bridge b nd (\<lambda>i s. edited_only (update_bridge f w i def s))
         | BridgeDelete b nd \<Rightarrow> on_bridge b nd (\<lambda>i s. edited_only (delete_bridge w i s))
         | BridgeClone b new_id name nd \<Rightarrow> on_bridge b nd (\<lambda>i s. edited_with_id (clone_bridge static_table w i new_id name s))
         | BridgeEnable b reset nd \<Rightarrow>
             on_bridge b nd (\<lambda>i s. edited_enabled (set_enabled w i (if reset then None else Some True) (s, [])))
         | BridgeDisable b nd \<Rightarrow> on_bridge b nd (\<lambda>i s. edited_enabled (set_enabled w i (Some False) (s, [])))
         | BridgeSwitch b nd \<Rightarrow>
             on_bridge b nd (\<lambda>i s. edited_enabled
               (and_then (switch_off w (conflicting (ce_host E) cfg i) (s, [])) (set_enabled w i (Some True))))
         | PortAdd b def nd \<Rightarrow>
             on_bridge b nd (\<lambda>i s. and_then (lift_edit (add_port (ce_is_port E) f w i def s)) (\<lambda>(p, s'). Inr (p, s', [])))
         | PortUpdate b p def nd \<Rightarrow> on_bridge b nd (\<lambda>i s. edited_only (edit_update_port (ce_is_port E) f w i p def s))
         | PortRemove b p nd \<Rightarrow> on_bridge b nd (\<lambda>i s. edited_only (remove_port w i p s))
         | TncCreate def nd \<Rightarrow> Some (Inr (nd, \<lambda>s. edited_with_id (create_object f w K_Tnc def s)))
         | TncUpdate t def nd \<Rightarrow> on_tnc t nd (\<lambda>i s. edited_with_id (update_object f w K_Tnc i def s))
         | TncDelete t nd \<Rightarrow> on_tnc t nd (\<lambda>i s. edited_only (delete_object w K_Tnc i s))
         | AdapterCreate def nd \<Rightarrow> Some (Inr (nd, \<lambda>s. edited_with_id (create_object f w K_Adapter def s)))
         | AdapterUpdate i def nd \<Rightarrow> Some (Inr (nd, \<lambda>s. edited_with_id (update_object f w K_Adapter i def s)))
         | AdapterDelete i nd \<Rightarrow> Some (Inr (nd, \<lambda>s. edited_only (delete_object w K_Adapter i s)))
         | _ \<Rightarrow> None)"

text \<open>What runs, for the commands that touch no configuration.\<close>

definition on_daemon :: "'net ctl_env \<Rightarrow> command \<Rightarrow> 'net daemon \<Rightarrow> (api_error + unit) \<times> 'net daemon" where
  "on_daemon E cmd d =
     (case cmd of
        BridgeRetryPublicName b \<Rightarrow>
          (case bridge_id (dm_cfg d) b of
             Inl e \<Rightarrow> (Inl e, d)
           | Inr i \<Rightarrow> (Inr (), retry_public_name (ce_sup E) i d))
      | PortConnect b p \<Rightarrow> hold b p (Some True) d
      | PortDisconnect b p \<Rightarrow> hold b p (Some False) d
      | PortRelease b p \<Rightarrow> hold b p None d
      | SessionKick session \<Rightarrow> kick (ce_sessions E) session d
      | _ \<Rightarrow> (Inr (), d))"

definition control :: "'net ctl_env \<Rightarrow> command \<Rightarrow> 'net ctl \<Rightarrow> (api_error + change_result option) \<times> 'net ctl \<times> writes" where
  "control E cmd c =
     (case edit_of E c cmd of
        Some (Inl e) \<Rightarrow> (Inl e, c, no_writes)
      | Some (Inr (nd, edit)) \<Rightarrow>
          (case change E nd edit c of (r, c', ws) \<Rightarrow> (map_sum id Some r, c', ws))
      | None \<Rightarrow>
          (case on_daemon E cmd (ct_daemon c) of
             (r, d) \<Rightarrow> (map_sum id (\<lambda>_. None) r, c\<lparr>ct_daemon := d\<rparr>, no_writes)))"

end
