(* ===== verification/Control_Props.thy ===== *)
theory Control_Props
  imports Control Supervisor_Props Store_Props
begin

text \<open>
  The control API as a whole: a command that fails has changed nothing, and one that succeeds leaves the daemon
  running the configuration that its files hold.
\<close>

section \<open>Saving\<close>

lemma save_store_cases:
  assumes "save_store rd wrf L s = (r, s', w)"
  obtains (failed) e where "r = Inl e" "s' = s" "w = None"
    | (saved) "r = Inr ()" "s' = s\<lparr>ds_on_disk := Some (revision (store_text L s))\<rparr>" "w = Some (store_text L s)"
  using assms by (auto simp: save_store_def Let_def split: sum.splits bool.splits option.splits)

lemma state_update_failed: "state_update tt wrf h f s = (Inl e, s', w) \<Longrightarrow> s' = s \<and> w = None"
  by (auto simp: state_update_def Let_def split: sum.splits option.splits if_splits)

lemma store_text_on_disk [simp]: "store_text L (s\<lparr>ds_on_disk := x\<rparr>) = store_text L s"
  by (simp add: store_text_def)

lemma set_daemon_same [simp]: "c\<lparr>ct_daemon := ct_daemon c\<rparr> = c"
  by (cases c) simp

lemma set_state_same [simp]: "d\<lparr>dm_state := dm_state d\<rparr> = d"
  by (cases d) simp

text \<open>What was written to \<open>dynamic.toml\<close> is the text of the store that is kept.\<close>

definition file_follows :: "toml_lib \<Rightarrow> 'net ctl \<Rightarrow> 'net ctl \<Rightarrow> writes \<Rightarrow> bool" where
  "file_follows L c c' ws \<longleftrightarrow>
     (case wr_dynamic ws of
        Some t \<Rightarrow> t = store_text L (ct_store c') \<and> ds_on_disk (ct_store c') = Some (revision t)
      | None \<Rightarrow> store_text L (ct_store c') = store_text L (ct_store c))"

lemma save_and_apply_cases:
  assumes "save_and_apply E store ov so cfg pl c = (r, c', ws)"
  shows "case r of
      Inl e \<Rightarrow> c' = c \<and> wr_state ws = None \<and> (wr_dynamic ws \<noteq> None \<longrightarrow> (\<exists>m. e = Cant_Write_State m))
    | Inr _ \<Rightarrow> file_follows (ce_toml E) c c' ws
        \<and> (\<exists>st b. ct_daemon c' =
             (let d = (apply_plan (ce_sup E) pl cfg ((ct_daemon c)\<lparr>dm_state := st\<rparr>))\<lparr>dm_bluez_errors := []\<rparr>
              in if b then hub_state ''config'' [] ''changed'' d else d))"
proof -
  let ?L = "ce_toml E"
  obtain r1 s1 w1 where sv: "(if store_text ?L store \<noteq> store_text ?L (ct_store c)
      then save_store (h_read (ce_host E)) (ce_write E) ?L store else (Inr (), store, None)) = (r1, s1, w1)"
    by (metis prod_cases3)
  have saved: "(\<exists>e. r1 = Inl e \<and> w1 = None) \<or> r1 = Inr () \<and> store_text ?L s1 = store_text ?L store
      \<and> (w1 = None \<and> store_text ?L store = store_text ?L (ct_store c)
         \<or> w1 = Some (store_text ?L store) \<and> ds_on_disk s1 = Some (revision (store_text ?L store)))"
    using sv by (auto split: if_splits elim!: save_store_cases)
  obtain r2 st w2 where up: "(if ov \<noteq> [] then state_update (ce_state_toml E) (ce_write E) (ce_state_header E) (apply_ov ov) (dm_state (ct_daemon c))
      else (Inr (), dm_state (ct_daemon c), None)) = (r2, st, w2)"
    by (metis prod_cases3)
  have st: "st = dm_state (ct_daemon c)" "w2 = None" if "r2 = Inl e" for e
    using up that by (auto split: if_splits dest: state_update_failed)
  have eq: "(r, c', ws) = (case (r1, s1, w1) of
      (Inl e, _, w) \<Rightarrow> (Inl (Api_Store e), c, \<lparr>wr_dynamic = w, wr_state = None\<rparr>)
    | (Inr _, store', w) \<Rightarrow>
        (case (r2, st, w2) of
           (Inl e, st, sw) \<Rightarrow> (Inl (Cant_Write_State e), c\<lparr>ct_daemon := (ct_daemon c)\<lparr>dm_state := st\<rparr>\<rparr>, \<lparr>wr_dynamic = w, wr_state = sw\<rparr>)
         | (Inr _, st, sw) \<Rightarrow>
             (Inr (), \<lparr>ct_daemon =
               (let d1 = (apply_plan (ce_sup E) pl cfg ((ct_daemon c)\<lparr>dm_state := st\<rparr>))\<lparr>dm_bluez_errors := []\<rparr>
                in if \<not> is_noop pl then hub_state ''config'' [] ''changed'' d1 else d1), ct_sources = so, ct_store = store'\<rparr>,
              \<lparr>wr_dynamic = w, wr_state = sw\<rparr>)))"
    using assms unfolding save_and_apply_def Let_def sv up by simp
  show ?thesis
  proof (cases r1)
    case (Inl e)
    with saved eq show ?thesis by auto
  next
    case (Inr u1)
    show ?thesis
    proof (cases r2)
      case (Inl e)
      with eq \<open>r1 = Inr u1\<close> st [OF Inl] show ?thesis by simp
    next
      case (Inr u2)
      with eq \<open>r1 = Inr u1\<close> have c': "r = Inr ()" "ct_store c' = s1" "wr_dynamic ws = w1" "ct_daemon c' =
          (let d = (apply_plan (ce_sup E) pl cfg ((ct_daemon c)\<lparr>dm_state := st\<rparr>))\<lparr>dm_bluez_errors := []\<rparr>
           in if \<not> is_noop pl then hub_state ''config'' [] ''changed'' d else d)"
        by simp_all
      have "file_follows ?L c c' ws"
        using saved \<open>r1 = Inr u1\<close> unfolding file_follows_def c'(2,3) by (auto split: option.splits)
      with c'(1,4) show ?thesis by auto
    qed
  qed
qed

section \<open>A change\<close>

text \<open>What a change relies on, for the configuration it would lead to: its TNC links can be set up, and the bridges that
  stay change in a way the daemon handles.\<close>

definition reachable_config :: "'net ctl_env \<Rightarrow> 'net config \<Rightarrow> 'net config \<Rightarrow> bool" where
  "reachable_config E old new \<longleftrightarrow>
     (\<forall>b \<in> set (cfg_bridges new). b_enabled b \<longrightarrow> (\<forall>t \<in> set (tnc_ports b). connectable (ce_sup E) t))
     \<and> (\<forall>i ob nb. map_of (running old) i = Some ob \<longrightarrow> map_of (running new) i = Some nb \<longrightarrow>
          update_handled (ce_contains E) (ce_runtime E) ob nb)"

definition build_of :: "'net ctl_env \<Rightarrow> sources \<Rightarrow> problem list + 'net config \<times> report" where
  "build_of E so = build (ce_host E) (ce_parse_toml E) (ce_parse_net E) (ce_net_of_ip E) so True"

definition outcome_ok :: "'net ctl_env \<Rightarrow> 'net ctl \<Rightarrow> api_error + 'r \<Rightarrow> 'net ctl \<Rightarrow> writes \<Rightarrow> bool" where
  "outcome_ok E c r c' ws \<longleftrightarrow>
     (case r of
        Inl e \<Rightarrow> c' = c \<and> wr_state ws = None \<and> (wr_dynamic ws \<noteq> None \<longrightarrow> (\<exists>m. e = Cant_Write_State m))
      | Inr _ \<Rightarrow> file_follows (ce_toml E) c c' ws
          \<and> in_sync (ce_runtime E) (dm_cfg (ct_daemon c')) (ct_daemon c'))"

lemma apply_plan_cfg: "dm_cfg (apply_plan E pl cfg d) = cfg"
  by (simp add: apply_plan_def Let_def)

lemma applied_in_sync:
  assumes "env_ok (ce_sup E)" "config_ok (ce_sup E) (dm_cfg d)" "in_sync (ce_runtime E) (dm_cfg d) d"
    and "config_consistent cfg" "reachable_config E (dm_cfg d) cfg"
  shows "in_sync (ce_runtime E) cfg
     (apply_plan (ce_sup E) (make_plan (ce_contains E) (dm_cfg d) cfg (ce_runtime E)) cfg (d\<lparr>dm_state := st\<rparr>))"
proof -
  have ok: "config_ok (ce_sup E) cfg"
    using assms(4,5) by (intro config_okI) (auto simp: reachable_config_def)
  have s: "in_sync (ce_runtime E) (dm_cfg d) (d\<lparr>dm_state := st\<rparr>)"
    using assms(3) in_sync_same [of "d\<lparr>dm_state := st\<rparr>" d] by (simp add: obs_simps)
  show ?thesis unfolding in_sync_def apply_plan_cfg
    by (intro conjI allI refl apply_obs [OF assms(1) refl assms(2) ok s])
       (use assms(5) in \<open>auto simp: reachable_config_def\<close>)
qed

lemma dm_cfg_hub: "dm_cfg (hub_state a b x d) = dm_cfg d"
  by (simp add: hub_state_def)

lemma change_outcome:
  assumes "env_ok (ce_sup E)" "config_ok (ce_sup E) (dm_cfg (ct_daemon c))"
    and "in_sync (ce_runtime E) (dm_cfg (ct_daemon c)) (ct_daemon c)"
    and "\<And>i store ov cfg rp. edit (ct_store c) = Inr (i, store, ov) \<Longrightarrow>
      build_of E (changed_sources (ce_toml E) store ov (ct_sources c)) = Inr (cfg, rp) \<Longrightarrow> reachable_config E (dm_cfg (ct_daemon c)) cfg"
    and "change E nd edit c = (r, c', ws)"
  shows "outcome_ok E c r c' ws"
proof (cases "edit (ct_store c)")
  case (Inl e)
  then show ?thesis using assms(5) by (auto simp: change_def outcome_ok_def no_writes_def)
next
  case (Inr x)
  obtain i store ov where x: "x = (i, store, ov)" by (metis prod_cases3)
  let ?so = "changed_sources (ce_toml E) store ov (ct_sources c)"
  show ?thesis
  proof (cases "build_of E ?so")
    case (Inl ps)
    then show ?thesis using assms(5) Inr x by (auto simp: change_def build_of_def Let_def outcome_ok_def no_writes_def)
  next
    case (Inr b)
    obtain cfg rp where b: "b = (cfg, rp)" by (metis surj_pair)
    let ?pl = "make_plan (ce_contains E) (dm_cfg (ct_daemon c)) cfg (ce_runtime E)"
    have con: "config_consistent cfg"
      using Inr b unfolding build_of_def by (auto elim: build_Inr)
    have reach: "reachable_config E (dm_cfg (ct_daemon c)) cfg"
      using assms(4) \<open>edit (ct_store c) = Inr x\<close> x Inr b by blast
    note eq = \<open>edit (ct_store c) = Inr x\<close> [unfolded x] Inr [unfolded b build_of_def]
    show ?thesis
    proof (cases "nd \<and> disruptive ?pl")
      case True
      then show ?thesis using assms(5) by (auto simp: change_def eq Let_def outcome_ok_def no_writes_def)
    next
      case False
      obtain r' where sa: "save_and_apply E store ov ?so cfg ?pl c = (r', c', ws)" and r: "isl r = isl r'" "isl r \<Longrightarrow> projl r = projl r'"
        using assms(5) False by (auto simp: change_def eq Let_def split: prod.splits sum.splits)
      note out = save_and_apply_cases [OF sa]
      show ?thesis
      proof (cases r')
        case (Inl e)
        with r have "r = Inl e" by (cases r) auto
        with out Inl show ?thesis by (simp add: outcome_ok_def)
      next
        case (Inr u)
        with r obtain v where v: "r = Inr v" by (cases r) auto
        from out Inr obtain st bb where d: "ct_daemon c' =
             (let d = (apply_plan (ce_sup E) ?pl cfg ((ct_daemon c)\<lparr>dm_state := st\<rparr>))\<lparr>dm_bluez_errors := []\<rparr>
              in if bb then hub_state ''config'' [] ''changed'' d else d)" and f: "file_follows (ce_toml E) c c' ws" by auto
        have "dm_cfg (ct_daemon c') = cfg" by (simp add: d Let_def hub_state_def apply_plan_cfg)
        moreover have "in_sync (ce_runtime E) cfg (ct_daemon c')"
          using applied_in_sync [OF assms(1-3) con reach, of st] unfolding d Let_def
          by (subst in_sync_same) (auto simp: obs_simps dm_cfg_hub)
        ultimately show ?thesis using v f by (simp add: outcome_ok_def)
      qed
    qed
  qed
qed

section \<open>Every command\<close>

lemma obs_set_name: "obs j (with_bridge i (\<lambda>rb. rb\<lparr>rb_name := n\<rparr>) d) = obs j d"
  by (simp add: obs_with_bridge) (simp add: obs_def comp_def)

lemma dm_cfg_quiet:
  "dm_cfg (with_bridge i f d) = dm_cfg d" "dm_cfg (announce_bridge E b d) = dm_cfg d" "dm_cfg (bridge_cmd i x d) = dm_cfg d"
proof -
  show w: "dm_cfg (with_bridge i f d) = dm_cfg d" for i f and d :: "'a daemon"
    by (simp add: with_bridge_def split: option.splits)
  show "dm_cfg (announce_bridge E b d) = dm_cfg d"
    by (simp add: announce_bridge_def tell_announcer_def start_announcer_def split: option.splits)
  show "dm_cfg (bridge_cmd i x d) = dm_cfg d" by (simp add: bridge_cmd_def w)
qed

lemma obs_retry: "obs j (retry_public_name E i d) = obs j d" and dm_cfg_retry: "dm_cfg (retry_public_name E i d) = dm_cfg d"
  by (simp_all add: retry_public_name_def Let_def obs_simps obs_set_name dm_cfg_quiet split: option.splits)

lemma cmd_view_quiet: "cmd_view (Cmd_Hold up) = (\<lambda>v. v)" "cmd_view (Cmd_Kick s) = (\<lambda>v. v)"
  by (rule ext, simp)+

text \<open>The commands on what runs change neither the configuration nor how a bridge is set up.\<close>

lemma on_daemon_quiet:
  assumes "on_daemon E cmd d = (r, d')"
  shows "(isl r \<longrightarrow> d' = d) \<and> obs j d' = obs j d \<and> dm_cfg d' = dm_cfg d"
proof -
  have hold: "(isl r \<longrightarrow> d' = d) \<and> obs j d' = obs j d \<and> dm_cfg d' = dm_cfg d" if "hold b p up d = (r, d')" for b p up
    using that by (auto simp: hold_def obs_simps dm_cfg_quiet cmd_view_quiet option.map_ident
        split: sum.splits option.splits running_port.splits if_splits)
  have kick: "(isl r \<longrightarrow> d' = d) \<and> obs j d' = obs j d \<and> dm_cfg d' = dm_cfg d" if "kick sn se d = (r, d')" for sn se
    using that by (auto simp: kick_def Let_def obs_simps dm_cfg_quiet cmd_view_quiet option.map_ident
        split: option.splits prod.splits if_splits)
  show ?thesis
  proof (cases cmd)
    case (BridgeRetryPublicName b)
    with assms show ?thesis by (auto simp: on_daemon_def obs_retry dm_cfg_retry split: sum.splits)
  next
    case (PortConnect b p)
    with assms show ?thesis by (intro hold [of b p "Some True"]) (simp add: on_daemon_def)
  next
    case (PortDisconnect b p)
    with assms show ?thesis by (intro hold [of b p "Some False"]) (simp add: on_daemon_def)
  next
    case (PortRelease b p)
    with assms show ?thesis by (intro hold [of b p None]) (simp add: on_daemon_def)
  next
    case (SessionKick x)
    with assms show ?thesis by (intro kick [of "ce_sessions E" x]) (simp add: on_daemon_def)
  qed (use assms in \<open>simp_all add: on_daemon_def\<close>)
qed


section \<open>An example\<close>

text \<open>A daemon without bridges, to which a TNC is added.\<close>

definition ex_tnc_file :: config_file where
  "ex_tnc_file = \<lparr>cf_global = None, cf_control = None, cf_adapter = [],
     cf_tnc = [\<lparr>td_id = ''d75'', td_name = None, td_model = None, td_spp = None, td_ble = None,
       td_serial = Some \<lparr>ser_path = ''/dev/ttyUSB0'', ser_baud = None\<rparr>\<rparr>], cf_bridge = []\<rparr>"

definition ex_ctl_env :: "(string \<Rightarrow> string \<Rightarrow> string option) \<Rightarrow> ip_addr ctl_env" where
  "ex_ctl_env write_file = \<lparr>ce_sup = ex_env, ce_contains = (=), ce_runtime = ex_runtime, ce_host = ex_host,
     ce_parse_toml = (\<lambda>_. Inr ex_tnc_file), ce_parse_net = parse_ip, ce_net_of_ip = id,
     ce_toml = \<lparr>tl_parse = (\<lambda>_. Inr []), tl_print = (\<lambda>doc. if doc = [] then [] else ''[[tnc]]'')\<rparr>,
     ce_write = write_file, ce_state_toml = (\<lambda>_. Inr []), ce_state_header = [],
     ce_as_f64 = (\<lambda>_. None), ce_is_port = (\<lambda>_. None), ce_show_read_error = (\<lambda>_. []), ce_sessions = (\<lambda>_. None)\<rparr>"

definition ex_ctl :: "ip_addr ctl" where
  "ex_ctl = \<lparr>ct_daemon = ex_daemon\<lparr>dm_cfg := (sup_cfg ex_radio None)\<lparr>cfg_bridges := []\<rparr>, dm_bridges := []\<rparr>,
     ct_sources = \<lparr>so_statics = [], so_dynamic = None, so_state = fmempty, so_legacy_conf_present = False, so_notes = []\<rparr>,
     ct_store = \<lparr>ds_path = ''dynamic.toml'', ds_doc = [], ds_on_disk = None\<rparr>\<rparr>"

definition ex_create :: command where
  "ex_create = TncCreate (J_Obj [(''id'', J_Str ''d75'')]) False"

definition ex_new_store :: dynamic_store where
  "ex_new_store = \<lparr>ds_path = ''dynamic.toml'', ds_doc = [(''tnc'', It_Array [[(''id'', It_Value (TV_Str ''d75''))]])], ds_on_disk = None\<rparr>"

lemma ex_edit: "edit_of (ex_ctl_env wrf) ex_ctl ex_create =
    Some (Inr (False, \<lambda>s. edited_with_id (create_object (\<lambda>_. None) [] K_Tnc (J_Obj [(''id'', J_Str ''d75'')]) s)))"
  by (simp add: edit_of_def ex_create_def ex_ctl_env_def ex_ctl_def Let_def)

lemma ex_edited: "edited_with_id (create_object (\<lambda>_. None) [] K_Tnc (J_Obj [(''id'', J_Str ''d75'')]) (ct_store ex_ctl))
    = Inr (Some ''d75'', ex_new_store, [])"
  by code_simp

definition ex_new_sources :: sources where
  "ex_new_sources = changed_sources (ce_toml (ex_ctl_env (\<lambda>_ _. None))) ex_new_store [] (ct_sources ex_ctl)"

lemma ex_built_tnc: "map_sum id (\<lambda>(cfg, rp). length (cfg_bridges cfg)) (build_of (ex_ctl_env (\<lambda>_ _. None)) ex_new_sources) = Inr 0"
  by code_simp

lemma ex_builds_tnc:
  obtains cfg rp where "build_of (ex_ctl_env (\<lambda>_ _. None)) ex_new_sources = Inr (cfg, rp)" "cfg_bridges cfg = []"
  using ex_built_tnc by (cases "build_of (ex_ctl_env (\<lambda>_ _. None)) ex_new_sources") auto

lemma ex_saved:
  obtains c' ws where "save_and_apply (ex_ctl_env (\<lambda>_ _. None)) ex_new_store [] so cfg pl ex_ctl = (Inr (), c', ws)"
    "wr_dynamic ws \<noteq> None"
proof -
  let ?E = "ex_ctl_env (\<lambda>_ _. None)"
  have differ: "store_text (ce_toml ?E) ex_new_store \<noteq> store_text (ce_toml ?E) (ct_store ex_ctl)"
    by code_simp
  have "unchanged_on_disk (h_read (ce_host ?E)) ex_new_store = Inr True"
    by (simp add: unchanged_on_disk_def ex_ctl_env_def ex_host_def ex_new_store_def)
  moreover have "ce_write ?E = (\<lambda>_ _. None)"
    by (simp add: ex_ctl_env_def)
  ultimately obtain st t where "save_store (h_read (ce_host ?E)) (ce_write ?E) (ce_toml ?E) ex_new_store = (Inr (), st, Some t)"
    by (simp add: save_store_def Let_def)
  with differ have "\<exists>c' ws. save_and_apply ?E ex_new_store [] so cfg pl ex_ctl = (Inr (), c', ws) \<and> wr_dynamic ws = Some t"
    by (simp add: save_and_apply_def Let_def)
  with that show ?thesis by auto
qed


end
