(* ===== verification/Spec2Isabelle.thy ===== *)
theory Spec2Isabelle
  imports Bridge_Behaviour Config_Build Reconcile_Props Ax25 Tnc_Init_Props Tcp_Server Supervisor_Props Announce_Props Edit_Props Control_Props
begin

text \<open>
  Placeholder header.
\<close>

end
